(* ===== verification/Prism_Prelude.thy ===== *)
theory Prism_Prelude
  imports Complex_Main "HOL-Library.Word" "HOL-Library.Multiset"
    "HOL-Library.Char_ord" "HOL-Library.List_Lexorder"
begin

text \<open>
  Shared vocabulary of the development: the Go types the components use, Go maps and the
  order in which a \<open>range\<close> loop visits them, signed machine integers with the
  wrap-around written out, and the list lemmas several components need.

  Go strings and byte slices are HOL strings (lists of 8-bit characters), so the
  byte-wise order of \<open>sort.Strings\<close> is the lexicographic order of \<open>List_Lexorder\<close> over
  \<open>Char_ord\<close>.  An instant is an \<open>int\<close> count of nanoseconds; the zero value of
  \<open>time.Time\<close> is 0, and the clock is an argument of every operation that reads it.
\<close>

named_theorems map_order_simps \<open>facts on the iteration order of Go maps\<close>

type_synonym bytes = string
type_synonym go_time = int
type_synonym duration = int

subsection \<open>Results\<close>

lemma sum_bind_Inr_iff:
  "(case x of Inl e \<Rightarrow> Inl e | Inr a \<Rightarrow> f a) = Inr b \<longleftrightarrow> (\<exists>a. x = Inr a \<and> f a = Inr b)"
  by (cases x) auto

subsection \<open>Machine integers\<close>

definition int32 :: "int \<Rightarrow> int" where
  "int32 x = (x + 2 ^ 31) mod 2 ^ 32 - 2 ^ 31"

definition int64 :: "int \<Rightarrow> int" where
  "int64 x = (x + 2 ^ 63) mod 2 ^ 64 - 2 ^ 63"

lemma int32_range: "- (2 ^ 31) \<le> int32 x" "int32 x < 2 ^ 31"
  unfolding int32_def by (simp_all add: algebra_simps pos_mod_bound [of "2 ^ 32", simplified])

lemma int64_range: "- (2 ^ 63) \<le> int64 x" "int64 x < 2 ^ 63"
  unfolding int64_def by (simp_all add: algebra_simps pos_mod_bound [of "2 ^ 64", simplified])

lemma int32_id: "- (2 ^ 31) \<le> x \<Longrightarrow> x < 2 ^ 31 \<Longrightarrow> int32 x = x"
  unfolding int32_def by (simp add: mod_pos_pos_trivial)

lemma int64_id: "- (2 ^ 63) \<le> x \<Longrightarrow> x < 2 ^ 63 \<Longrightarrow> int64 x = x"
  unfolding int64_def by (simp add: mod_pos_pos_trivial)

lemma int64_wrap:
  assumes "2 ^ 63 \<le> x" "x < 3 * 2 ^ 63"
  shows "int64 x = x - 2 ^ 64"
proof -
  have "(x + 2 ^ 63) mod 2 ^ 64 = (x + 2 ^ 63 - 2 ^ 64) mod 2 ^ 64" by (rule minus_mod_self2 [symmetric])
  also have "\<dots> = x + 2 ^ 63 - 2 ^ 64" by (rule mod_pos_pos_trivial) (use assms in simp_all)
  finally show ?thesis by (simp add: int64_def)
qed

subsection \<open>Go maps and their iteration order\<close>

text \<open>
  A \<open>range\<close> loop over a Go map visits every key once, in an order the language leaves
  open.  A definition that iterates takes that order as an argument.
\<close>

definition map_order :: "'k list \<Rightarrow> ('k \<rightharpoonup> 'v) \<Rightarrow> bool" where
  "map_order ks m \<longleftrightarrow> distinct ks \<and> set ks = dom m"

definition map_values :: "'k list \<Rightarrow> ('k \<rightharpoonup> 'v) \<Rightarrow> 'v list" where
  "map_values ks m = List.map_filter m ks"

lemma map_values_simps [simp]:
  "map_values [] m = []"
  "map_values (k # ks) m = (case m k of None \<Rightarrow> map_values ks m | Some v \<Rightarrow> v # map_values ks m)"
  by (simp_all add: map_values_def List.map_filter_def split: option.split)

lemma map_values_eq_map: "set ks \<subseteq> dom m \<Longrightarrow> map_values ks m = map (\<lambda>k. the (m k)) ks"
  by (induction ks) (auto split: option.split)

lemma set_map_values: "set (map_values ks m) = {v. \<exists>k \<in> set ks. m k = Some v}"
  by (induction ks) (auto split: option.split)

lemma map_order_values [map_order_simps]:
  assumes "map_order ks m"
  shows "set (map_values ks m) = ran m" "length (map_values ks m) = card (dom m)"
proof -
  have "distinct ks" "set ks = dom m" using assms by (auto simp: map_order_def)
  then show "set (map_values ks m) = ran m" by (auto simp: set_map_values ran_def)
  show "length (map_values ks m) = card (dom m)"
    using \<open>distinct ks\<close> \<open>set ks = dom m\<close>
    by (metis distinct_card length_map map_values_eq_map order_refl)
qed

lemma map_order_mset:
  assumes "map_order ks m" "map_order ls m"
  shows "mset ks = mset ls" "mset (map_values ks m) = mset (map_values ls m)"
proof -
  show eq: "mset ks = mset ls"
    using assms by (metis map_order_def set_eq_iff_mset_eq_distinct)
  have "set ks \<subseteq> dom m" "set ls \<subseteq> dom m" using assms by (auto simp: map_order_def)
  then show "mset (map_values ks m) = mset (map_values ls m)"
    by (simp add: map_values_eq_map eq)
qed

lemma map_order_Nil [map_order_simps]: "map_order [] m \<longleftrightarrow> m = Map.empty"
  by (auto simp: map_order_def)

lemma map_order_finite: "map_order ks m \<Longrightarrow> finite (dom m)"
  by (metis map_order_def List.finite_set)

lemma map_order_exists: "finite (dom m) \<Longrightarrow> \<exists>ks. map_order ks m"
  using finite_distinct_list [of "dom m"] by (auto simp: map_order_def)

text \<open>A map whose keys are a field of its entries, as the registries of the program keep them.\<close>

definition keyed :: "('v \<Rightarrow> string) \<Rightarrow> (string \<rightharpoonup> 'v) \<Rightarrow> bool" where
  "keyed f m \<longleftrightarrow> finite (dom m) \<and> (\<forall>k v. m k = Some v \<longrightarrow> f v = k)"

lemma keyed_empty [simp]: "keyed f Map.empty"
  by (simp add: keyed_def)

lemma keyed_update: "keyed f m \<Longrightarrow> f v = k \<Longrightarrow> keyed f (m(k \<mapsto> v))"
  by (auto simp: keyed_def)

lemma keyedD: "keyed f m \<Longrightarrow> m k = Some v \<Longrightarrow> f v = k"
  by (simp add: keyed_def)

lemma keyed_map_values: "keyed f m \<Longrightarrow> set ks \<subseteq> dom m \<Longrightarrow> map f (map_values ks m) = ks"
  by (induction ks) (auto dest: keyedD)

definition map_entries :: "('v \<Rightarrow> 'v) \<Rightarrow> ('k \<rightharpoonup> 'v) \<Rightarrow> ('k \<rightharpoonup> 'v)" where
  "map_entries f m = (\<lambda>k. map_option f (m k))"

lemma map_entries_apply: "map_entries f m k = map_option f (m k)"
  by (simp add: map_entries_def)

lemma map_entries_upd: "map_entries f (m(k \<mapsto> v)) = (map_entries f m)(k \<mapsto> f v)"
  by (auto simp: map_entries_def fun_eq_iff)

lemma map_entries_idem: "(\<And>v. f (f v) = f v) \<Longrightarrow> map_entries f (map_entries f m) = map_entries f m"
  by (simp add: map_entries_def option.map_comp o_def)

subsection \<open>Sorting and searching lists\<close>

lemma sort_cong_mset: "mset xs = mset ys \<Longrightarrow> sort xs = sort ys"
  by (metis mset_sort properties_for_sort sorted_sort)

text \<open>The index of the first occurrence, as the search loops with \<open>break\<close> compute it.\<close>

fun first_index :: "'a \<Rightarrow> 'a list \<Rightarrow> nat option" where
  "first_index x [] = None"
| "first_index x (y # ys) = (if y = x then Some 0 else map_option Suc (first_index x ys))"

lemma first_index_None [simp]: "first_index x xs = None \<longleftrightarrow> x \<notin> set xs"
  by (induction xs) auto

lemma first_index_SomeD: "first_index x xs = Some i \<Longrightarrow> i < length xs \<and> xs ! i = x"
  by (induction xs arbitrary: i) (auto split: if_splits)

lemma first_index_nth: "distinct xs \<Longrightarrow> i < length xs \<Longrightarrow> first_index (xs ! i) xs = Some i"
  by (induction xs arbitrary: i) (auto simp: nth_Cons split: nat.split)

lemma distinct_concat_map:
  assumes "distinct ks" "\<And>k. k \<in> set ks \<Longrightarrow> distinct (f k)"
    and "\<And>k l. k \<in> set ks \<Longrightarrow> l \<in> set ks \<Longrightarrow> k \<noteq> l \<Longrightarrow> set (f k) \<inter> set (f l) = {}"
  shows "distinct (concat (map f ks))"
  using assms by (induction ks) (auto; blast)+

lemma nat_eq_nat_iff_nonneg: "0 \<le> i \<Longrightarrow> 0 \<le> j \<Longrightarrow> nat i = nat j \<longleftrightarrow> i = j"
  by auto

subsection \<open>Decimal printing\<close>

text \<open>\<open>strconv\<close> and the verb \<open>%d\<close> of \<open>fmt\<close> on integers.\<close>

fun nat_digits :: "nat \<Rightarrow> string" where
  "nat_digits n =
    (if n < 10 then [char_of (48 + n)] else nat_digits (n div 10) @ [char_of (48 + n mod 10)])"

declare nat_digits.simps [simp del]

definition itoa :: "int \<Rightarrow> string" where
  "itoa i = (if i < 0 then CHR ''-'' # nat_digits (nat (- i)) else nat_digits (nat i))"

definition digit_value :: "char \<Rightarrow> nat" where
  "digit_value c = of_char c - 48"

lemma nat_digits_value: "foldl (\<lambda>v c. 10 * v + digit_value c) 0 (nat_digits n) = n"
proof (induction n rule: nat_digits.induct)
  case (1 n)
  have "digit_value (char_of (48 + m)) = m" if "m < 10" for m
    using that by (simp add: digit_value_def)
  then show ?case using 1 by (cases "n < 10") (simp_all add: nat_digits.simps [of n])
qed

lemma nat_digits_inject [simp]: "nat_digits m = nat_digits n \<longleftrightarrow> m = n"
  by (metis nat_digits_value)

lemma nat_digits_chars: "c \<in> set (nat_digits n) \<Longrightarrow> (48::nat) \<le> of_char c \<and> of_char c < (58::nat)"
proof (induction n rule: nat_digits.induct)
  case (1 n)
  have "n mod 10 < 10" by simp
  then show ?case using 1 by (subst (asm) nat_digits.simps) (auto split: if_splits)
qed

lemma nat_digits_not_Nil [simp]: "nat_digits n \<noteq> []"
  by (subst nat_digits.simps) simp

lemma itoa_inject [simp]: "itoa i = itoa j \<longleftrightarrow> i = j"
proof -
  have "CHR ''-'' \<notin> set (nat_digits n)" for n using nat_digits_chars [of "CHR ''-''" n] by auto
  then have "nat_digits m \<noteq> CHR ''-'' # xs" for m xs by (metis list.set_intros(1))
  then show ?thesis
    by (auto simp: itoa_def split: if_splits) (metis)
qed

end
