(* ===== verification/Admin_Types.thy ===== *)
theory Admin_Types
  imports Prism_Prelude
begin

text \<open>
  The protobuf messages of \<open>proto/prism/admin/admin.proto\<close> that the admin server keeps and
  replicates: the entries of the replicated state, the command payloads of the Raft log
  and the state itself.  A pointer that may be nil is an option; a protobuf map is a
  partial function.  int32 and int64 fields are \<open>int\<close>; operations that compute on them
  write the wrap-around out.  A \<open>double\<close> is only carried, never computed with, and is a \<open>real\<close>.
\<close>

type_synonym config = "string \<rightharpoonup> string"

record ProxyResources =
  pr_memory_bytes :: int
  pr_cpu_percent :: real
  pr_active_namespaces :: int
  pr_requests_per_second :: int

record LauncherResources =
  lr_memory_bytes :: int
  lr_cpu_percent :: real
  lr_active_processes :: int
  lr_available_slots :: int

record NamespaceEntry =
  ns_name :: string
  ns_description :: string
  ns_partition_id :: int
  ns_assigned_proxy :: string
  ns_config :: config
  ns_created_by :: string
  ns_created_at :: int
  ns_updated_at :: int

record ProxyEntry =
  px_proxy_id :: string
  px_address :: string
  px_region :: string
  px_version :: string
  px_capabilities :: "string list"
  px_metadata :: config
  px_status :: string
  px_registered_at :: int
  px_last_seen :: int
  px_resources :: "ProxyResources option"

record LauncherEntry =
  la_launcher_id :: string
  la_address :: string
  la_region :: string
  la_version :: string
  la_capabilities :: "string list"
  la_process_types :: "string list"
  la_max_processes :: int
  la_metadata :: config
  la_status :: string
  la_registered_at :: int
  la_last_seen :: int
  la_available_slots :: int
  la_resources :: "LauncherResources option"

record PatternEntry =
  pt_pattern_id :: string
  pt_namespace :: string
  pt_pattern_type :: string
  pt_launcher_id :: string
  pt_config :: config
  pt_status :: string
  pt_assigned_at :: int
  pt_updated_at :: int

record CreateNamespaceCommand =
  cn_namespace :: string
  cn_partition_id :: int
  cn_assigned_proxy :: string
  cn_config :: config
  cn_principal :: string

record RegisterProxyCommand =
  rp_proxy_id :: string
  rp_address :: string
  rp_region :: string
  rp_version :: string
  rp_capabilities :: "string list"
  rp_metadata :: config

record RegisterLauncherCommand =
  rl_launcher_id :: string
  rl_address :: string
  rl_region :: string
  rl_version :: string
  rl_capabilities :: "string list"
  rl_process_types :: "string list"
  rl_max_processes :: int
  rl_metadata :: config

record AssignPatternCommand =
  ap_pattern_id :: string
  ap_namespace :: string
  ap_pattern_type :: string
  ap_launcher_id :: string
  ap_config :: config

record UpdateProxyStatusCommand =
  up_proxy_id :: string
  up_status :: string
  up_last_seen :: int
  up_resources :: "ProxyResources option"

record UpdateLauncherStatusCommand =
  ul_launcher_id :: string
  ul_status :: string
  ul_last_seen :: int
  ul_available_slots :: int
  ul_resources :: "LauncherResources option"

text \<open>
  \<open>Command\<close> carries a type tag and a \<open>oneof\<close> payload.  The two are independent fields of
  the message: the tag may name one payload while another, or none, is set.  Protobuf enums
  are open, so a tag without a name is a value as well.
\<close>

datatype CommandType =
    COMMAND_TYPE_UNSPECIFIED
  | COMMAND_TYPE_CREATE_NAMESPACE
  | COMMAND_TYPE_REGISTER_PROXY
  | COMMAND_TYPE_REGISTER_LAUNCHER
  | COMMAND_TYPE_ASSIGN_PATTERN
  | COMMAND_TYPE_UPDATE_PROXY_STATUS
  | COMMAND_TYPE_UPDATE_LAUNCHER_STATUS
  | Unrecognized_Command_Type int

datatype Payload =
    PNone
  | PCreateNamespace CreateNamespaceCommand
  | PRegisterProxy RegisterProxyCommand
  | PRegisterLauncher RegisterLauncherCommand
  | PAssignPattern AssignPatternCommand
  | PUpdateProxyStatus UpdateProxyStatusCommand
  | PUpdateLauncherStatus UpdateLauncherStatusCommand

record Command =
  cmd_type :: CommandType
  cmd_timestamp :: int
  cmd_issuer :: string
  cmd_payload :: Payload

record AdminState =
  st_version :: int
  st_namespaces :: "string \<rightharpoonup> NamespaceEntry"
  st_proxies :: "string \<rightharpoonup> ProxyEntry"
  st_launchers :: "string \<rightharpoonup> LauncherEntry"
  st_patterns :: "string \<rightharpoonup> PatternEntry"
  st_last_applied_index :: int
  st_last_applied_term :: int
  st_state_updated_at :: int

end
