(* ===== verification/Admin_FSM.thy ===== *)
theory Admin_FSM
  imports Admin_Types
begin

text \<open>
  The replicated state machine of the admin server (\<open>cmd/prism-admin/fsm.go\<close>): the handler
  of every command, the dispatch of \<open>Apply\<close>, snapshots and the queries.

  The wall clock is an argument: \<open>Apply\<close> reads it once for the state and once in the
  handler.  The local database and the metrics sink are write-only for the state machine
  (their errors are logged and dropped), so each is the list of calls made on it; a nil
  pointer is \<open>None\<close>.  Decoding a log entry (protobuf) and encoding a snapshot (gob) are
  arguments of the operations that call them.
\<close>

subsection \<open>State\<close>

datatype StorageCall =
    StoreNamespace string string
  | StoreProxy string string string string int
  | StoreLauncher string string string string string int int int

datatype FSMMetric =
    RecordFSMCommand CommandType bool
  | RecordFSMSnapshot
  | RecordFSMRestore

datatype fsm_error =
    UnmarshalError
  | UnknownCommandType CommandType
  | ProxyNotRegistered string
  | LauncherNotRegistered string
  | NilDereference
  | DecodeSnapshotError
  | EncodeSnapshotError
  | SinkCloseError

record AdminStateMachine =
  fsm_state :: AdminState
  fsm_lastAppliedIndex :: int
  fsm_lastAppliedTerm :: int
  fsm_storage :: "StorageCall list option"
  fsm_metrics :: "FSMMetric list option"

record RaftLog =
  log_index :: int
  log_term :: int
  log_data :: bytes

definition NewAdminStateMachine ::
  "FSMMetric list option \<Rightarrow> StorageCall list option \<Rightarrow> AdminStateMachine" where
  "NewAdminStateMachine metrics storage =
    \<lparr>fsm_state = \<lparr>st_version = 1, st_namespaces = Map.empty, st_proxies = Map.empty,
       st_launchers = Map.empty, st_patterns = Map.empty, st_last_applied_index = 0,
       st_last_applied_term = 0, st_state_updated_at = 0\<rparr>,
     fsm_lastAppliedIndex = 0, fsm_lastAppliedTerm = 0,
     fsm_storage = storage, fsm_metrics = metrics\<rparr>"

definition sync_storage :: "StorageCall \<Rightarrow> AdminStateMachine \<Rightarrow> AdminStateMachine" where
  "sync_storage c fsm = fsm\<lparr>fsm_storage := map_option (\<lambda>cs. cs @ [c]) (fsm_storage fsm)\<rparr>"

definition record_metric :: "FSMMetric \<Rightarrow> AdminStateMachine \<Rightarrow> AdminStateMachine" where
  "record_metric c fsm = fsm\<lparr>fsm_metrics := map_option (\<lambda>cs. cs @ [c]) (fsm_metrics fsm)\<rparr>"

subsection \<open>Command handlers\<close>

definition applyCreateNamespace ::
  "int \<Rightarrow> CreateNamespaceCommand \<Rightarrow> AdminStateMachine \<Rightarrow> (fsm_error + unit) \<times> AdminStateMachine" where
  "applyCreateNamespace now cmd fsm =
    (let st = fsm_state fsm in
     case st_namespaces st (cn_namespace cmd) of
       Some existing \<Rightarrow>
         (Inr (), fsm\<lparr>fsm_state := st\<lparr>st_namespaces := (st_namespaces st)(cn_namespace cmd \<mapsto>
            existing\<lparr>ns_config := cn_config cmd, ns_assigned_proxy := cn_assigned_proxy cmd,
                     ns_updated_at := now\<rparr>)\<rparr>\<rparr>)
     | None \<Rightarrow>
         (Inr (), sync_storage (StoreNamespace (cn_namespace cmd)
             (''Created by '' @ cn_principal cmd @ '' (partition '' @ itoa (cn_partition_id cmd)
               @ '', proxy '' @ cn_assigned_proxy cmd @ '')''))
           (fsm\<lparr>fsm_state := st\<lparr>st_namespaces := (st_namespaces st)(cn_namespace cmd \<mapsto>
             \<lparr>ns_name = cn_namespace cmd,
              ns_description = ''Created by '' @ cn_principal cmd,
              ns_partition_id = cn_partition_id cmd,
              ns_assigned_proxy = cn_assigned_proxy cmd,
              ns_config = cn_config cmd,
              ns_created_by = cn_principal cmd,
              ns_created_at = now,
              ns_updated_at = now\<rparr>)\<rparr>\<rparr>)))"

definition applyRegisterProxy ::
  "int \<Rightarrow> RegisterProxyCommand \<Rightarrow> AdminStateMachine \<Rightarrow> (fsm_error + unit) \<times> AdminStateMachine" where
  "applyRegisterProxy now cmd fsm =
    (let st = fsm_state fsm;
         entry = (case st_proxies st (rp_proxy_id cmd) of
           Some existing \<Rightarrow>
             existing\<lparr>px_address := rp_address cmd, px_version := rp_version cmd,
                      px_capabilities := rp_capabilities cmd, px_metadata := rp_metadata cmd,
                      px_status := ''healthy'', px_last_seen := now\<rparr>
         | None \<Rightarrow>
             \<lparr>px_proxy_id = rp_proxy_id cmd, px_address = rp_address cmd,
              px_region = rp_region cmd, px_version = rp_version cmd,
              px_capabilities = rp_capabilities cmd, px_metadata = rp_metadata cmd,
              px_status = ''healthy'', px_registered_at = now, px_last_seen = now,
              px_resources = None\<rparr>)
     in (Inr (), sync_storage (StoreProxy (rp_proxy_id cmd) (rp_address cmd) (rp_version cmd)
           ''healthy'' now)
         (fsm\<lparr>fsm_state := st\<lparr>st_proxies := (st_proxies st)(rp_proxy_id cmd \<mapsto> entry)\<rparr>\<rparr>)))"

definition applyRegisterLauncher ::
  "int \<Rightarrow> RegisterLauncherCommand \<Rightarrow> AdminStateMachine \<Rightarrow> (fsm_error + unit) \<times> AdminStateMachine" where
  "applyRegisterLauncher now cmd fsm =
    (let st = fsm_state fsm;
         entry = (case st_launchers st (rl_launcher_id cmd) of
           Some existing \<Rightarrow>
             existing\<lparr>la_address := rl_address cmd, la_version := rl_version cmd,
                      la_capabilities := rl_capabilities cmd,
                      la_process_types := rl_process_types cmd,
                      la_max_processes := rl_max_processes cmd, la_metadata := rl_metadata cmd,
                      la_status := ''healthy'', la_last_seen := now,
                      la_available_slots := rl_max_processes cmd\<rparr>
         | None \<Rightarrow>
             \<lparr>la_launcher_id = rl_launcher_id cmd, la_address = rl_address cmd,
              la_region = rl_region cmd, la_version = rl_version cmd,
              la_capabilities = rl_capabilities cmd, la_process_types = rl_process_types cmd,
              la_max_processes = rl_max_processes cmd, la_metadata = rl_metadata cmd,
              la_status = ''healthy'', la_registered_at = now, la_last_seen = now,
              la_available_slots = rl_max_processes cmd, la_resources = None\<rparr>)
     in (Inr (), sync_storage (StoreLauncher (rl_launcher_id cmd) (rl_address cmd) (rl_region cmd)
           (rl_version cmd) ''healthy'' (rl_max_processes cmd) (rl_max_processes cmd) now)
         (fsm\<lparr>fsm_state := st\<lparr>st_launchers := (st_launchers st)(rl_launcher_id cmd \<mapsto> entry)\<rparr>\<rparr>)))"

definition take_slot :: "LauncherEntry \<Rightarrow> LauncherEntry" where
  "take_slot launcher =
    (if la_available_slots launcher > 0
     then launcher\<lparr>la_available_slots := la_available_slots launcher - 1\<rparr> else launcher)"

definition applyAssignPattern ::
  "int \<Rightarrow> AssignPatternCommand \<Rightarrow> AdminStateMachine \<Rightarrow> (fsm_error + unit) \<times> AdminStateMachine" where
  "applyAssignPattern now cmd fsm =
    (let st = fsm_state fsm in
     case st_patterns st (ap_pattern_id cmd) of
       Some existing \<Rightarrow>
         (Inr (), fsm\<lparr>fsm_state := st\<lparr>st_patterns := (st_patterns st)(ap_pattern_id cmd \<mapsto>
            existing\<lparr>pt_launcher_id := ap_launcher_id cmd, pt_config := ap_config cmd,
                     pt_updated_at := now\<rparr>)\<rparr>\<rparr>)
     | None \<Rightarrow>
         (Inr (), fsm\<lparr>fsm_state := st\<lparr>
            st_patterns := (st_patterns st)(ap_pattern_id cmd \<mapsto>
              \<lparr>pt_pattern_id = ap_pattern_id cmd, pt_namespace = ap_namespace cmd,
               pt_pattern_type = ap_pattern_type cmd, pt_launcher_id = ap_launcher_id cmd,
               pt_config = ap_config cmd, pt_status = ''running'',
               pt_assigned_at = now, pt_updated_at = now\<rparr>),
            st_launchers := (case st_launchers st (ap_launcher_id cmd) of
                Some launcher \<Rightarrow> (st_launchers st)(ap_launcher_id cmd \<mapsto> take_slot launcher)
              | None \<Rightarrow> st_launchers st)\<rparr>\<rparr>))"

definition applyUpdateProxyStatus ::
  "UpdateProxyStatusCommand \<Rightarrow> AdminStateMachine \<Rightarrow> (fsm_error + unit) \<times> AdminStateMachine" where
  "applyUpdateProxyStatus cmd fsm =
    (let st = fsm_state fsm in
     case st_proxies st (up_proxy_id cmd) of
       None \<Rightarrow> (Inl (ProxyNotRegistered (up_proxy_id cmd)), fsm)
     | Some proxy \<Rightarrow>
         (Inr (), fsm\<lparr>fsm_state := st\<lparr>st_proxies := (st_proxies st)(up_proxy_id cmd \<mapsto>
            proxy\<lparr>px_status := up_status cmd, px_last_seen := up_last_seen cmd,
                  px_resources := (case up_resources cmd of None \<Rightarrow> px_resources proxy | r \<Rightarrow> r)\<rparr>)\<rparr>\<rparr>))"

definition applyUpdateLauncherStatus ::
  "UpdateLauncherStatusCommand \<Rightarrow> AdminStateMachine \<Rightarrow> (fsm_error + unit) \<times> AdminStateMachine" where
  "applyUpdateLauncherStatus cmd fsm =
    (let st = fsm_state fsm in
     case st_launchers st (ul_launcher_id cmd) of
       None \<Rightarrow> (Inl (LauncherNotRegistered (ul_launcher_id cmd)), fsm)
     | Some launcher \<Rightarrow>
         (Inr (), fsm\<lparr>fsm_state := st\<lparr>st_launchers := (st_launchers st)(ul_launcher_id cmd \<mapsto>
            launcher\<lparr>la_status := ul_status cmd, la_last_seen := ul_last_seen cmd,
                     la_available_slots := ul_available_slots cmd,
                     la_resources := (case ul_resources cmd of None \<Rightarrow> la_resources launcher | r \<Rightarrow> r)\<rparr>)\<rparr>\<rparr>))"

subsection \<open>Dispatch\<close>

text \<open>
  The tag selects the handler and the generated getter returns the payload only when it is
  the one set; a handler dereferences its argument, so a missing payload is a panic.
\<close>

definition dispatch :: "int \<Rightarrow> Command \<Rightarrow> AdminStateMachine \<Rightarrow> (fsm_error + unit) \<times> AdminStateMachine" where
  "dispatch now cmd fsm =
    (case cmd_type cmd of
       COMMAND_TYPE_CREATE_NAMESPACE \<Rightarrow>
         (case cmd_payload cmd of PCreateNamespace c \<Rightarrow> applyCreateNamespace now c fsm
          | _ \<Rightarrow> (Inl NilDereference, fsm))
     | COMMAND_TYPE_REGISTER_PROXY \<Rightarrow>
         (case cmd_payload cmd of PRegisterProxy c \<Rightarrow> applyRegisterProxy now c fsm
          | _ \<Rightarrow> (Inl NilDereference, fsm))
     | COMMAND_TYPE_REGISTER_LAUNCHER \<Rightarrow>
         (case cmd_payload cmd of PRegisterLauncher c \<Rightarrow> applyRegisterLauncher now c fsm
          | _ \<Rightarrow> (Inl NilDereference, fsm))
     | COMMAND_TYPE_ASSIGN_PATTERN \<Rightarrow>
         (case cmd_payload cmd of PAssignPattern c \<Rightarrow> applyAssignPattern now c fsm
          | _ \<Rightarrow> (Inl NilDereference, fsm))
     | COMMAND_TYPE_UPDATE_PROXY_STATUS \<Rightarrow>
         (case cmd_payload cmd of PUpdateProxyStatus c \<Rightarrow> applyUpdateProxyStatus c fsm
          | _ \<Rightarrow> (Inl NilDereference, fsm))
     | COMMAND_TYPE_UPDATE_LAUNCHER_STATUS \<Rightarrow>
         (case cmd_payload cmd of PUpdateLauncherStatus c \<Rightarrow> applyUpdateLauncherStatus c fsm
          | _ \<Rightarrow> (Inl NilDereference, fsm))
     | t \<Rightarrow> (Inl (UnknownCommandType t), fsm))"

definition mark_applied :: "int \<Rightarrow> RaftLog \<Rightarrow> AdminStateMachine \<Rightarrow> AdminStateMachine" where
  "mark_applied now entry fsm =
    fsm\<lparr>fsm_lastAppliedIndex := log_index entry, fsm_lastAppliedTerm := log_term entry,
        fsm_state := (fsm_state fsm)\<lparr>st_last_applied_index := int64 (log_index entry),
          st_last_applied_term := int64 (log_term entry), st_state_updated_at := now\<rparr>\<rparr>"

definition Apply :: "(bytes \<Rightarrow> Command option) \<Rightarrow> int \<Rightarrow> int \<Rightarrow> RaftLog \<Rightarrow> AdminStateMachine
    \<Rightarrow> (fsm_error + unit) \<times> AdminStateMachine" where
  "Apply unmarshal stateNow handlerNow entry fsm =
    (case unmarshal (log_data entry) of
       None \<Rightarrow> (Inl UnmarshalError, fsm)
     | Some cmd \<Rightarrow>
         (case dispatch handlerNow cmd (mark_applied stateNow entry fsm) of
            (Inl NilDereference, fsm') \<Rightarrow> (Inl NilDereference, fsm')
          | (err, fsm') \<Rightarrow> (err, record_metric (RecordFSMCommand (cmd_type cmd) (err = Inr ())) fsm')))"

subsection \<open>Snapshots\<close>

record AdminSnapshot =
  snap_LastAppliedIndex :: int
  snap_LastAppliedTerm :: int
  snap_SnapshotTime :: go_time
  snap_State :: AdminState

definition Snapshot :: "go_time \<Rightarrow> AdminStateMachine \<Rightarrow> AdminSnapshot \<times> AdminStateMachine" where
  "Snapshot now fsm =
    (\<lparr>snap_LastAppliedIndex = fsm_lastAppliedIndex fsm,
      snap_LastAppliedTerm = fsm_lastAppliedTerm fsm,
      snap_SnapshotTime = now, snap_State = fsm_state fsm\<rparr>,
     record_metric RecordFSMSnapshot fsm)"

definition Restore :: "(bytes \<Rightarrow> AdminSnapshot option) \<Rightarrow> bytes \<Rightarrow> AdminStateMachine
    \<Rightarrow> (fsm_error + unit) \<times> AdminStateMachine" where
  "Restore gob_decode data fsm =
    (case gob_decode data of
       None \<Rightarrow> (Inl DecodeSnapshotError, fsm)
     | Some snap \<Rightarrow>
         (Inr (), record_metric RecordFSMRestore
           (fsm\<lparr>fsm_state := snap_State snap, fsm_lastAppliedIndex := snap_LastAppliedIndex snap,
                fsm_lastAppliedTerm := snap_LastAppliedTerm snap\<rparr>)))"

record SnapshotSink =
  sink_data :: bytes
  sink_cancelled :: bool
  sink_closed :: bool

definition Persist :: "(AdminSnapshot \<Rightarrow> bytes option) \<Rightarrow> bool \<Rightarrow> AdminSnapshot \<Rightarrow> SnapshotSink
    \<Rightarrow> (fsm_error + unit) \<times> SnapshotSink" where
  "Persist gob_encode close_ok s sink =
    (case gob_encode s of
       None \<Rightarrow> (Inl EncodeSnapshotError, sink\<lparr>sink_cancelled := True\<rparr>)
     | Some bs \<Rightarrow> (if close_ok then Inr () else Inl SinkCloseError,
                   sink\<lparr>sink_data := sink_data sink @ bs, sink_closed := True\<rparr>))"

subsection \<open>Queries\<close>

definition GetNamespace :: "string \<Rightarrow> AdminStateMachine \<Rightarrow> NamespaceEntry option" where
  "GetNamespace name fsm = st_namespaces (fsm_state fsm) name"

definition GetProxy :: "string \<Rightarrow> AdminStateMachine \<Rightarrow> ProxyEntry option" where
  "GetProxy proxyID fsm = st_proxies (fsm_state fsm) proxyID"

definition GetAllProxies :: "string list \<Rightarrow> AdminStateMachine \<Rightarrow> ProxyEntry list" where
  "GetAllProxies ord fsm = map_values ord (st_proxies (fsm_state fsm))"

definition GetHealthyLaunchers :: "string list \<Rightarrow> AdminStateMachine \<Rightarrow> LauncherEntry list" where
  "GetHealthyLaunchers ord fsm =
    filter (\<lambda>l. la_status l = ''healthy'' \<and> la_available_slots l > 0)
      (map_values ord (st_launchers (fsm_state fsm)))"

definition GetPatternCountForLauncher :: "string list \<Rightarrow> string \<Rightarrow> AdminStateMachine \<Rightarrow> int" where
  "GetPatternCountForLauncher ord launcherID fsm =
    foldl (\<lambda>count p. if pt_launcher_id p = launcherID then int32 (count + 1) else count) 0
      (map_values ord (st_patterns (fsm_state fsm)))"

definition LastAppliedIndex :: "AdminStateMachine \<Rightarrow> int" where
  "LastAppliedIndex fsm = fsm_lastAppliedIndex fsm"

definition LastAppliedTerm :: "AdminStateMachine \<Rightarrow> int" where
  "LastAppliedTerm fsm = fsm_lastAppliedTerm fsm"

subsection \<open>Invariant\<close>

definition state_inv :: "AdminState \<Rightarrow> bool" where
  "state_inv st \<longleftrightarrow> keyed ns_name (st_namespaces st) \<and> keyed px_proxy_id (st_proxies st)
    \<and> keyed la_launcher_id (st_launchers st) \<and> keyed pt_pattern_id (st_patterns st)"

definition fsm_inv :: "AdminStateMachine \<Rightarrow> bool" where
  "fsm_inv fsm \<longleftrightarrow> state_inv (fsm_state fsm)
    \<and> st_last_applied_index (fsm_state fsm) = int64 (fsm_lastAppliedIndex fsm)
    \<and> st_last_applied_term (fsm_state fsm) = int64 (fsm_lastAppliedTerm fsm)"

lemma storage_metric_simps [simp]:
  "fsm_state (sync_storage c fsm) = fsm_state fsm"
  "fsm_lastAppliedIndex (sync_storage c fsm) = fsm_lastAppliedIndex fsm"
  "fsm_lastAppliedTerm (sync_storage c fsm) = fsm_lastAppliedTerm fsm"
  "fsm_state (record_metric m fsm) = fsm_state fsm"
  "fsm_lastAppliedIndex (record_metric m fsm) = fsm_lastAppliedIndex fsm"
  "fsm_lastAppliedTerm (record_metric m fsm) = fsm_lastAppliedTerm fsm"
  by (simp_all add: sync_storage_def record_metric_def)

lemmas handler_defs = applyCreateNamespace_def applyRegisterProxy_def applyRegisterLauncher_def
  applyAssignPattern_def applyUpdateProxyStatus_def applyUpdateLauncherStatus_def

lemma take_slot_id [simp]: "la_launcher_id (take_slot l) = la_launcher_id l"
  by (simp add: take_slot_def)

lemma handlers_keep_state_inv:
  assumes "state_inv (fsm_state fsm)"
  shows "state_inv (fsm_state (snd (applyCreateNamespace now cn fsm)))"
    "state_inv (fsm_state (snd (applyRegisterProxy now rp fsm)))"
    "state_inv (fsm_state (snd (applyRegisterLauncher now rl fsm)))"
    "state_inv (fsm_state (snd (applyAssignPattern now ap fsm)))"
    "state_inv (fsm_state (snd (applyUpdateProxyStatus up fsm)))"
    "state_inv (fsm_state (snd (applyUpdateLauncherStatus ul fsm)))"
  using assms
  by (auto simp: handler_defs Let_def state_inv_def intro!: keyed_update dest: keyedD split: option.split)

lemma dispatch_cases:
  "snd (dispatch now cmd fsm) = fsm
   \<or> (\<exists>c. dispatch now cmd fsm = applyCreateNamespace now c fsm)
   \<or> (\<exists>c. dispatch now cmd fsm = applyRegisterProxy now c fsm)
   \<or> (\<exists>c. dispatch now cmd fsm = applyRegisterLauncher now c fsm)
   \<or> (\<exists>c. dispatch now cmd fsm = applyAssignPattern now c fsm)
   \<or> (\<exists>c. dispatch now cmd fsm = applyUpdateProxyStatus c fsm)
   \<or> (\<exists>c. dispatch now cmd fsm = applyUpdateLauncherStatus c fsm)"
  unfolding dispatch_def by (cases "cmd_type cmd"; cases "cmd_payload cmd") auto

lemma dispatch_state_inv: "state_inv (fsm_state fsm) \<Longrightarrow> state_inv (fsm_state (snd (dispatch now cmd fsm)))"
  using dispatch_cases [of now cmd fsm] handlers_keep_state_inv by (elim disjE exE; simp)


lemma handlers_keep_applied:
  "fsm_lastAppliedIndex (snd (dispatch now cmd fsm)) = fsm_lastAppliedIndex fsm"
  "fsm_lastAppliedTerm (snd (dispatch now cmd fsm)) = fsm_lastAppliedTerm fsm"
  "st_last_applied_index (fsm_state (snd (dispatch now cmd fsm))) = st_last_applied_index (fsm_state fsm)"
  "st_last_applied_term (fsm_state (snd (dispatch now cmd fsm))) = st_last_applied_term (fsm_state fsm)"
  "st_state_updated_at (fsm_state (snd (dispatch now cmd fsm))) = st_state_updated_at (fsm_state fsm)"
  using dispatch_cases [of now cmd fsm]
  by (elim disjE exE; simp add: handler_defs Let_def split: option.split)+

lemma Apply_None: "unmarshal (log_data e) = None \<Longrightarrow> Apply unmarshal t u e fsm = (Inl UnmarshalError, fsm)"
  by (simp add: Apply_def)

lemma Apply_Some:
  assumes "unmarshal (log_data e) = Some cmd"
  shows "fst (Apply unmarshal t u e fsm) = fst (dispatch u cmd (mark_applied t e fsm))"
    "fsm_state (snd (Apply unmarshal t u e fsm)) = fsm_state (snd (dispatch u cmd (mark_applied t e fsm)))"
    "fsm_lastAppliedIndex (snd (Apply unmarshal t u e fsm)) = log_index e"
    "fsm_lastAppliedTerm (snd (Apply unmarshal t u e fsm)) = log_term e"
proof -
  obtain r fsm' where d: "dispatch u cmd (mark_applied t e fsm) = (r, fsm')" by fastforce
  then have *: "fsm_lastAppliedIndex fsm' = log_index e" "fsm_lastAppliedTerm fsm' = log_term e"
    using handlers_keep_applied(1,2) [of u cmd "mark_applied t e fsm"] by (simp_all add: mark_applied_def)
  have "\<exists>ms. snd (Apply unmarshal t u e fsm) = fsm'\<lparr>fsm_metrics := ms\<rparr>"
    and fst: "fst (Apply unmarshal t u e fsm) = r"
    using assms d by (auto simp: Apply_def record_metric_def split: sum.split fsm_error.split)
      (metis AdminStateMachine.surjective AdminStateMachine.update_convs(5))+
  then show "fst (Apply unmarshal t u e fsm) = fst (dispatch u cmd (mark_applied t e fsm))"
    "fsm_state (snd (Apply unmarshal t u e fsm)) = fsm_state (snd (dispatch u cmd (mark_applied t e fsm)))"
    "fsm_lastAppliedIndex (snd (Apply unmarshal t u e fsm)) = log_index e"
    "fsm_lastAppliedTerm (snd (Apply unmarshal t u e fsm)) = log_term e"
    using d * by auto
qed

lemma Apply_fsm_inv: "fsm_inv fsm \<Longrightarrow> fsm_inv (snd (Apply unmarshal t u e fsm))"
proof (cases "unmarshal (log_data e)")
  case (Some cmd)
  assume "fsm_inv fsm"
  then have "state_inv (fsm_state (mark_applied t e fsm))"
    by (simp add: fsm_inv_def state_inv_def mark_applied_def)
  then show ?thesis
    using Apply_Some [where t = t and u = u and fsm = fsm and unmarshal = unmarshal, OF Some]
      handlers_keep_applied(3,4) [of u cmd "mark_applied t e fsm"]
    by (simp add: fsm_inv_def dispatch_state_inv) (simp add: mark_applied_def)
qed (simp add: Apply_None)


subsection \<open>Replicas\<close>

text \<open>
  The handlers stamp entries with the local clock, so two replicas that apply the same log
  differ in the time stamps.  \<open>erase_times\<close> forgets them; everything else is determined.
\<close>

definition erase_ns :: "NamespaceEntry \<Rightarrow> NamespaceEntry" where
  "erase_ns e = e\<lparr>ns_created_at := 0, ns_updated_at := 0\<rparr>"

definition erase_px :: "ProxyEntry \<Rightarrow> ProxyEntry" where
  "erase_px e = e\<lparr>px_registered_at := 0, px_last_seen := 0\<rparr>"

definition erase_la :: "LauncherEntry \<Rightarrow> LauncherEntry" where
  "erase_la e = e\<lparr>la_registered_at := 0, la_last_seen := 0\<rparr>"

definition erase_pt :: "PatternEntry \<Rightarrow> PatternEntry" where
  "erase_pt e = e\<lparr>pt_assigned_at := 0, pt_updated_at := 0\<rparr>"

definition erase_times :: "AdminState \<Rightarrow> AdminState" where
  "erase_times st = st\<lparr>
     st_namespaces := map_entries erase_ns (st_namespaces st),
     st_proxies := map_entries erase_px (st_proxies st),
     st_launchers := map_entries erase_la (st_launchers st),
     st_patterns := map_entries erase_pt (st_patterns st),
     st_state_updated_at := 0\<rparr>"

definition erase_fsm :: "AdminStateMachine \<Rightarrow> AdminStateMachine" where
  "erase_fsm fsm = fsm\<lparr>fsm_state := erase_times (fsm_state fsm)\<rparr>"

lemma erase_entry_idem [simp]:
  "erase_ns (erase_ns n) = erase_ns n" "erase_px (erase_px p) = erase_px p"
  "erase_la (erase_la l) = erase_la l" "erase_pt (erase_pt q) = erase_pt q"
  by (simp_all add: erase_ns_def erase_px_def erase_la_def erase_pt_def)

lemma take_slot_erase [simp]: "erase_la (take_slot (erase_la l)) = erase_la (take_slot l)"
  by (simp add: take_slot_def erase_la_def)

lemma fsm_state_erase [simp]: "fsm_state (erase_fsm fsm) = erase_times (fsm_state fsm)"
  by (simp add: erase_fsm_def)

lemmas erase_simps = erase_times_def erase_fsm_def map_entries_apply map_entries_upd map_entries_idem

lemma erase_idem [simp]: "erase_times (erase_times st) = erase_times st"
  by (simp add: erase_simps)

lemma handler_erase:
  "erase_times (fsm_state (snd (applyCreateNamespace now cn fsm))) =
      erase_times (fsm_state (snd (applyCreateNamespace 0 cn (erase_fsm fsm))))"
  "erase_times (fsm_state (snd (applyRegisterProxy now rp fsm))) =
      erase_times (fsm_state (snd (applyRegisterProxy 0 rp (erase_fsm fsm))))"
  "erase_times (fsm_state (snd (applyRegisterLauncher now rl fsm))) =
      erase_times (fsm_state (snd (applyRegisterLauncher 0 rl (erase_fsm fsm))))"
  "erase_times (fsm_state (snd (applyAssignPattern now ap fsm))) =
      erase_times (fsm_state (snd (applyAssignPattern 0 ap (erase_fsm fsm))))"
  "erase_times (fsm_state (snd (applyUpdateProxyStatus up fsm))) =
      erase_times (fsm_state (snd (applyUpdateProxyStatus up (erase_fsm fsm))))"
  "erase_times (fsm_state (snd (applyUpdateLauncherStatus ul fsm))) =
      erase_times (fsm_state (snd (applyUpdateLauncherStatus ul (erase_fsm fsm))))"
  by (simp add: handler_defs Let_def erase_simps split: option.split,
      simp add: erase_ns_def erase_px_def erase_la_def erase_pt_def)+

lemma handler_result:
  "fst (applyCreateNamespace now cn fsm) = Inr ()" "fst (applyRegisterProxy now rp fsm) = Inr ()"
  "fst (applyRegisterLauncher now rl fsm) = Inr ()" "fst (applyAssignPattern now ap fsm) = Inr ()"
  "fst (applyUpdateProxyStatus up (erase_fsm fsm)) = fst (applyUpdateProxyStatus up fsm)"
  "fst (applyUpdateLauncherStatus ul (erase_fsm fsm)) = fst (applyUpdateLauncherStatus ul fsm)"
  by (simp_all add: handler_defs Let_def erase_simps split: option.split)

lemma dispatch_erase:
  "erase_times (fsm_state (snd (dispatch now cmd fsm))) =
   erase_times (fsm_state (snd (dispatch 0 cmd (erase_fsm fsm))))"
  by (cases "cmd_type cmd"; cases "cmd_payload cmd"; simp add: dispatch_def; (rule handler_erase)?)

lemma dispatch_result_erase: "fst (dispatch now cmd fsm) = fst (dispatch 0 cmd (erase_fsm fsm))"
  by (cases "cmd_type cmd"; cases "cmd_payload cmd"; simp add: dispatch_def handler_result)

text \<open>
  A replica is driven by log entries together with the two clock readings of \<open>Apply\<close>.
\<close>

type_synonym timed_entry = "int \<times> int \<times> RaftLog"

definition apply_entry :: "(bytes \<Rightarrow> Command option) \<Rightarrow> timed_entry \<Rightarrow> AdminStateMachine \<Rightarrow> AdminStateMachine" where
  "apply_entry unmarshal = (\<lambda>(t, u, e) fsm. snd (Apply unmarshal t u e fsm))"

definition replay :: "(bytes \<Rightarrow> Command option) \<Rightarrow> timed_entry list \<Rightarrow> AdminStateMachine \<Rightarrow> AdminStateMachine" where
  "replay unmarshal es fsm = fold (apply_entry unmarshal) es fsm"

definition same_entry :: "timed_entry \<Rightarrow> timed_entry \<Rightarrow> bool" where
  "same_entry a b \<longleftrightarrow> snd (snd a) = snd (snd b)"

text \<open>
  The contract between Raft and its state machine: a step respects a view of the state, for
  commands the log cannot tell apart.  It gives agreement of replicas and, for the full
  state, that replay may start from a snapshot.
\<close>

locale replicated_machine =
  fixes step :: "'c \<Rightarrow> 's \<Rightarrow> 's" and view :: "'s \<Rightarrow> 'v" and same :: "'c \<Rightarrow> 'c \<Rightarrow> bool"
  assumes step_view: "same c d \<Longrightarrow> view s = view t \<Longrightarrow> view (step c s) = view (step d t)"
begin

lemma fold_view:
  "list_all2 same cs ds \<Longrightarrow> view s = view t \<Longrightarrow> view (fold step cs s) = view (fold step ds t)"
proof (induction cs ds arbitrary: s t rule: list_all2_induct)
  case (Cons c cs d ds)
  then have "view (step c s) = view (step d t)" by (blast intro: step_view)
  then show ?case using Cons.IH by simp
qed simp

end

definition logical_view :: "AdminStateMachine \<Rightarrow> AdminState \<times> int \<times> int" where
  "logical_view fsm = (erase_times (fsm_state fsm), fsm_lastAppliedIndex fsm, fsm_lastAppliedTerm fsm)"

definition core_view :: "AdminStateMachine \<Rightarrow> AdminState \<times> int \<times> int" where
  "core_view fsm = (fsm_state fsm, fsm_lastAppliedIndex fsm, fsm_lastAppliedTerm fsm)"

lemma erase_mark_applied:
  "fsm_state (erase_fsm (mark_applied t e fsm)) =
    (erase_times (fsm_state fsm))\<lparr>st_last_applied_index := int64 (log_index e),
      st_last_applied_term := int64 (log_term e)\<rparr>"
  by (simp add: mark_applied_def erase_times_def)

lemma handler_state_cong:
  assumes "fsm_state fsm = fsm_state fsm'"
  shows
    "fsm_state (snd (applyCreateNamespace now cn fsm)) = fsm_state (snd (applyCreateNamespace now cn fsm'))"
    "fsm_state (snd (applyRegisterProxy now rp fsm)) = fsm_state (snd (applyRegisterProxy now rp fsm'))"
    "fsm_state (snd (applyRegisterLauncher now rl fsm)) = fsm_state (snd (applyRegisterLauncher now rl fsm'))"
    "fsm_state (snd (applyAssignPattern now ap fsm)) = fsm_state (snd (applyAssignPattern now ap fsm'))"
    "fsm_state (snd (applyUpdateProxyStatus up fsm)) = fsm_state (snd (applyUpdateProxyStatus up fsm'))"
    "fsm_state (snd (applyUpdateLauncherStatus ul fsm)) = fsm_state (snd (applyUpdateLauncherStatus ul fsm'))"
  by (simp_all add: handler_defs Let_def assms split: option.split)

lemma dispatch_state_cong:
  assumes "fsm_state fsm = fsm_state fsm'"
  shows "fsm_state (snd (dispatch now cmd fsm)) = fsm_state (snd (dispatch now cmd fsm'))"
  by (cases "cmd_type cmd"; cases "cmd_payload cmd"; simp add: dispatch_def assms;
      (rule handler_state_cong [OF assms])?)

lemma apply_entry_logical:
  assumes "same_entry c d" "logical_view fsm = logical_view fsm'"
  shows "logical_view (apply_entry unmarshal c fsm) = logical_view (apply_entry unmarshal d fsm')"
proof -
  obtain t u e where c: "c = (t, u, e)" by (cases c)
  obtain t' u' where d: "d = (t', u', e)" using assms(1) c by (cases d) (simp add: same_entry_def)
  show ?thesis
  proof (cases "unmarshal (log_data e)")
    case None
    then show ?thesis using assms by (simp add: c d apply_entry_def Apply_None)
  next
    case (Some cmd)
    have "erase_times (fsm_state fsm) = erase_times (fsm_state fsm')"
      using assms(2) by (simp add: logical_view_def)
    then have "erase_times (fsm_state (snd (dispatch u cmd (mark_applied t e fsm)))) =
        erase_times (fsm_state (snd (dispatch u' cmd (mark_applied t' e fsm'))))"
      using dispatch_state_cong [of "erase_fsm (mark_applied t e fsm)" "erase_fsm (mark_applied t' e fsm')" 0 cmd]
      by (simp only: dispatch_erase [of u] dispatch_erase [of u'] erase_mark_applied)
    then show ?thesis
      by (simp add: c d apply_entry_def logical_view_def Apply_Some [of unmarshal e cmd, OF Some])
  qed
qed

lemma apply_entry_core:
  assumes "core_view fsm = core_view fsm'"
  shows "core_view (apply_entry unmarshal c fsm) = core_view (apply_entry unmarshal c fsm')"
proof -
  obtain t u e where c: "c = (t, u, e)" by (cases c)
  show ?thesis
  proof (cases "unmarshal (log_data e)")
    case None
    then show ?thesis using assms by (simp add: c apply_entry_def Apply_None)
  next
    case (Some cmd)
    have "fsm_state (mark_applied t e fsm) = fsm_state (mark_applied t e fsm')"
      using assms by (simp add: core_view_def mark_applied_def)
    then have "fsm_state (snd (dispatch u cmd (mark_applied t e fsm))) =
        fsm_state (snd (dispatch u cmd (mark_applied t e fsm')))"
      by (rule dispatch_state_cong)
    then show ?thesis
      by (simp add: c apply_entry_def core_view_def Apply_Some [of unmarshal e cmd, OF Some])
  qed
qed

interpretation logical: replicated_machine "apply_entry unmarshal" logical_view same_entry
  for unmarshal by unfold_locales (rule apply_entry_logical)

interpretation core: replicated_machine "apply_entry unmarshal" core_view "(=)"
  for unmarshal by unfold_locales (blast intro: apply_entry_core)


lemma replay_simps [simp]:
  "replay unmarshal [] fsm = fsm"
  "replay unmarshal (x # es) fsm = replay unmarshal es (apply_entry unmarshal x fsm)"
  "replay unmarshal (es @ es') fsm = replay unmarshal es' (replay unmarshal es fsm)"
  by (simp_all add: replay_def)

lemma replay_inv: "fsm_inv fsm \<Longrightarrow> fsm_inv (replay unmarshal es fsm)"
  unfolding replay_def
proof (induction es arbitrary: fsm)
  case (Cons e es)
  then show ?case by (cases e) (simp add: apply_entry_def Apply_fsm_inv)
qed simp

lemma handler_idem:
  "fsm_state (snd (applyCreateNamespace now cn (snd (applyCreateNamespace now cn fsm)))) =
      fsm_state (snd (applyCreateNamespace now cn fsm))"
  "fsm_state (snd (applyRegisterProxy now rp (snd (applyRegisterProxy now rp fsm)))) =
      fsm_state (snd (applyRegisterProxy now rp fsm))"
  "fsm_state (snd (applyRegisterLauncher now rl (snd (applyRegisterLauncher now rl fsm)))) =
      fsm_state (snd (applyRegisterLauncher now rl fsm))"
  "fsm_state (snd (applyAssignPattern now ap (snd (applyAssignPattern now ap fsm)))) =
      fsm_state (snd (applyAssignPattern now ap fsm))"
  "fsm_state (snd (applyUpdateProxyStatus up (snd (applyUpdateProxyStatus up fsm)))) =
      fsm_state (snd (applyUpdateProxyStatus up fsm))"
  "fsm_state (snd (applyUpdateLauncherStatus ul (snd (applyUpdateLauncherStatus ul fsm)))) =
      fsm_state (snd (applyUpdateLauncherStatus ul fsm))"
  by (simp_all add: handler_defs Let_def split: option.split)


lemma dispatch_idem:
  "fsm_state (snd (dispatch now cmd (snd (dispatch now cmd fsm)))) = fsm_state (snd (dispatch now cmd fsm))"
  by (cases "cmd_type cmd"; cases "cmd_payload cmd"; simp add: dispatch_def; (rule handler_idem)?)

lemma Apply_state_idem:
  "fsm_state (snd (Apply unmarshal t u e (snd (Apply unmarshal t u e fsm)))) =
    fsm_state (snd (Apply unmarshal t u e fsm))"
proof (cases "unmarshal (log_data e)")
  case (Some cmd)
  let ?m = "mark_applied t e fsm" and ?a = "snd (Apply unmarshal t u e fsm)"
  note A = Apply_Some [of unmarshal e cmd, OF Some]
  have "fsm_state (mark_applied t e ?a) = fsm_state (snd (dispatch u cmd ?m))"
    using handlers_keep_applied(3-5) [of u cmd ?m] A(2) [of t u fsm]
    by (simp add: mark_applied_def)
  then show ?thesis
    using dispatch_state_cong dispatch_idem A(2) by metis
qed (simp add: Apply_None)

lemma apply_entry_applied:
  "unmarshal (log_data e) = Some cmd \<Longrightarrow>
    fsm_lastAppliedIndex (apply_entry unmarshal (t, u, e) fsm) = log_index e
    \<and> fsm_lastAppliedTerm (apply_entry unmarshal (t, u, e) fsm) = log_term e"
  by (simp add: apply_entry_def Apply_Some(3,4))

definition assign_all :: "int \<Rightarrow> AssignPatternCommand list \<Rightarrow> AdminStateMachine \<Rightarrow> AdminStateMachine" where
  "assign_all now cs fsm = fold (\<lambda>c fsm. snd (applyAssignPattern now c fsm)) cs fsm"

lemma assign_all_simps [simp]:
  "assign_all now [] fsm = fsm"
  "assign_all now (c # cs) fsm = assign_all now cs (snd (applyAssignPattern now c fsm))"
  by (simp_all add: assign_all_def)

lemma assign_new_pattern:
  assumes "st_patterns (fsm_state fsm) (ap_pattern_id c) = None"
    and "st_launchers (fsm_state fsm) (ap_launcher_id c) = Some l"
  shows "st_launchers (fsm_state (snd (applyAssignPattern now c fsm))) (ap_launcher_id c) = Some (take_slot l)"
    and "map_option pt_launcher_id (st_patterns (fsm_state (snd (applyAssignPattern now c fsm))) (ap_pattern_id c))
      = Some (ap_launcher_id c)"
  using assms by (simp_all add: applyAssignPattern_def Let_def)

lemma assign_pattern_other:
  "k \<noteq> ap_pattern_id c \<Longrightarrow>
    st_patterns (fsm_state (snd (applyAssignPattern now c fsm))) k = st_patterns (fsm_state fsm) k"
  by (simp add: applyAssignPattern_def Let_def split: option.split)

lemma assign_all_other:
  "k \<notin> ap_pattern_id ` set cs \<Longrightarrow>
    st_patterns (fsm_state (assign_all now cs fsm)) k = st_patterns (fsm_state fsm) k"
  by (induction cs arbitrary: fsm) (simp_all add: assign_pattern_other)

subsection \<open>Properties\<close>

text \<open>
  C18: Every state reached by replaying a log, whatever its entries and the clock, is
  well formed: each of the four maps is finite and files every entry under its own
  identifier, and the applied index and term inside the state are those of the machine.
\<close>

theorem replay_keeps_inv: "fsm_inv (replay unmarshal es (NewAdminStateMachine metrics storage))"
  by (rule replay_inv) (simp add: fsm_inv_def state_inv_def NewAdminStateMachine_def int64_def)

text \<open>
  C1: Two replicas that apply the same log agree on everything but the time stamps,
  whatever their clocks, metrics and databases.
\<close>

theorem replicas_agree:
  assumes "map (snd \<circ> snd) es = map (snd \<circ> snd) es'"
  shows "logical_view (replay unmarshal es (NewAdminStateMachine m s)) =
    logical_view (replay unmarshal es' (NewAdminStateMachine m' s'))"
proof -
  have "list_all2 same_entry es es'"
    using assms unfolding same_entry_def list.rel_eq [symmetric] by (simp add: list_all2_map1 list_all2_map2)
  then show ?thesis
    unfolding replay_def
    by (rule logical.fold_view) (simp add: logical_view_def NewAdminStateMachine_def)
qed

definition demo_command :: Command where
  "demo_command = \<lparr>cmd_type = COMMAND_TYPE_REGISTER_PROXY, cmd_timestamp = 0, cmd_issuer = ''admin'',
     cmd_payload = PRegisterProxy \<lparr>rp_proxy_id = ''p1'', rp_address = ''a'', rp_region = ''r'',
       rp_version = ''v'', rp_capabilities = [], rp_metadata = Map.empty\<rparr>\<rparr>"

definition demo_log :: RaftLog where
  "demo_log = \<lparr>log_index = 1, log_term = 1, log_data = ''x''\<rparr>"

theorem replicas_agree_witness:
  "logical_view (replay (\<lambda>_. Some demo_command) [(1, 2, demo_log)] (NewAdminStateMachine None None)) =
     logical_view (replay (\<lambda>_. Some demo_command) [(7, 8, demo_log)] (NewAdminStateMachine None None))
   \<and> fsm_state (replay (\<lambda>_. Some demo_command) [(1, 2, demo_log)] (NewAdminStateMachine None None)) \<noteq>
     fsm_state (replay (\<lambda>_. Some demo_command) [(7, 8, demo_log)] (NewAdminStateMachine None None))"
proof
  let ?run = "\<lambda>t u. replay (\<lambda>_. Some demo_command) [(t, u, demo_log)] (NewAdminStateMachine None None)"
  show "logical_view (?run 1 2) = logical_view (?run 7 8)"
    using replicas_agree [of "[(1, 2, demo_log)]" "[(7, 8, demo_log)]" "\<lambda>_. Some demo_command" None None None None]
    by simp
  have "st_state_updated_at (fsm_state (?run t u)) = t" for t u
    by (simp add: replay_def apply_entry_def Apply_def demo_command_def dispatch_def mark_applied_def
        applyRegisterProxy_def NewAdminStateMachine_def Let_def)
  then have "st_state_updated_at (fsm_state (?run 1 2)) \<noteq> st_state_updated_at (fsm_state (?run 7 8))"
    by simp
  then show "fsm_state (?run 1 2) \<noteq> fsm_state (?run 7 8)" by (rule contrapos_nn) simp
qed



text \<open>
  Delivery is idempotent.  Applying a committed entry a second time, at whatever clock
  readings, leaves the logical state as the first application left it.
\<close>

theorem Apply_idempotent:
  "logical_view (snd (Apply unmarshal t' u' e (snd (Apply unmarshal t u e fsm)))) =
    logical_view (snd (Apply unmarshal t u e fsm))"
proof -
  let ?a = "snd (Apply unmarshal t u e fsm)"
  have "logical_view (apply_entry unmarshal (t', u', e) ?a) = logical_view (apply_entry unmarshal (t, u, e) ?a)"
    by (rule apply_entry_logical) (simp_all add: same_entry_def)
  also have "\<dots> = logical_view ?a"
    using Apply_state_idem [of unmarshal t u e fsm]
    by (cases "unmarshal (log_data e)")
      (simp_all add: logical_view_def apply_entry_def Apply_None Apply_Some(3,4))
  finally show ?thesis by (simp add: apply_entry_def)
qed

text \<open>
  An entry whose application fails changes none of the four maps and writes nothing to
  the local database; only the applied index, term and time move.
\<close>

theorem Apply_error_frame:
  assumes "Apply unmarshal t u e fsm = (Inl err, fsm')"
  shows "st_namespaces (fsm_state fsm') = st_namespaces (fsm_state fsm)
    \<and> st_proxies (fsm_state fsm') = st_proxies (fsm_state fsm)
    \<and> st_launchers (fsm_state fsm') = st_launchers (fsm_state fsm)
    \<and> st_patterns (fsm_state fsm') = st_patterns (fsm_state fsm)
    \<and> fsm_storage fsm' = fsm_storage fsm"
proof -
  have h: "fst (dispatch u cmd f) = Inl err \<Longrightarrow> snd (dispatch u cmd f) = f" for cmd f
    by (cases "cmd_type cmd"; cases "cmd_payload cmd";
        simp add: dispatch_def handler_result;
        auto simp: applyUpdateProxyStatus_def applyUpdateLauncherStatus_def Let_def split: option.splits)
  show ?thesis
  proof (cases "unmarshal (log_data e)")
    case (Some cmd)
    then have "fst (dispatch u cmd (mark_applied t e fsm)) = Inl err"
      using assms Apply_Some(1) [of unmarshal e cmd t u fsm] by simp
    then show ?thesis
      using h [of cmd "mark_applied t e fsm"] Some assms
      by (cases "dispatch u cmd (mark_applied t e fsm)")
        (auto simp: Apply_def mark_applied_def record_metric_def split: fsm_error.splits)
  qed (use assms in \<open>simp add: Apply_def\<close>)
qed

theorem Apply_error_frame_witness:
  "\<exists>fsm'. Apply (\<lambda>_. Some (demo_command\<lparr>cmd_type := COMMAND_TYPE_UNSPECIFIED\<rparr>)) 5 6 demo_log
       (NewAdminStateMachine None (Some [])) = (Inl (UnknownCommandType COMMAND_TYPE_UNSPECIFIED), fsm')
     \<and> st_proxies (fsm_state fsm') = Map.empty \<and> fsm_storage fsm' = Some []"
proof -
  let ?u = "\<lambda>_. Some (demo_command\<lparr>cmd_type := COMMAND_TYPE_UNSPECIFIED\<rparr>)"
  let ?f = "NewAdminStateMachine None (Some [])"
  obtain fsm' where a: "Apply ?u 5 6 demo_log ?f = (Inl (UnknownCommandType COMMAND_TYPE_UNSPECIFIED), fsm')"
    by (simp add: Apply_def dispatch_def)
  then show ?thesis
    using Apply_error_frame [OF a] by (simp add: NewAdminStateMachine_def)
qed

text \<open>
  Slot accounting.  Assigning new patterns with distinct identifiers to a registered
  launcher takes one slot for each, stopping at 0, and every one of them ends up assigned
  to that launcher.
\<close>

theorem slot_accounting:
  assumes "st_launchers (fsm_state fsm) L = Some l" "0 \<le> la_available_slots l"
    and "\<forall>c \<in> set cs. ap_launcher_id c = L \<and> st_patterns (fsm_state fsm) (ap_pattern_id c) = None"
    and "distinct (map ap_pattern_id cs)"
  shows "map_option la_available_slots (st_launchers (fsm_state (assign_all now cs fsm)) L) =
      Some (max 0 (la_available_slots l - int (length cs)))
    \<and> (\<forall>c \<in> set cs. map_option pt_launcher_id
        (st_patterns (fsm_state (assign_all now cs fsm)) (ap_pattern_id c)) = Some L)"
  using assms
proof (induction cs arbitrary: fsm l)
  case (Cons c cs)
  let ?f = "snd (applyAssignPattern now c fsm)"
  have c: "ap_launcher_id c = L" "st_patterns (fsm_state fsm) (ap_pattern_id c) = None"
    using Cons.prems(3) by simp_all
  have l: "st_launchers (fsm_state ?f) L = Some (take_slot l)"
    using assign_new_pattern(1) [of fsm c l now] c Cons.prems(1) by simp
  have "ap_pattern_id c \<notin> ap_pattern_id ` set cs" using Cons.prems(4) by simp
  then have p: "map_option pt_launcher_id
      (st_patterns (fsm_state (assign_all now (c # cs) fsm)) (ap_pattern_id c)) = Some L"
    using assign_all_other [of "ap_pattern_id c" cs now ?f] assign_new_pattern(2) [of fsm c l now]
      c Cons.prems(1) by simp
  have "\<forall>d \<in> set cs. ap_launcher_id d = L \<and> st_patterns (fsm_state ?f) (ap_pattern_id d) = None"
    using Cons.prems(3,4) by (auto simp: assign_pattern_other image_iff)
  moreover have "la_available_slots (take_slot l) = max 0 (la_available_slots l - 1)"
    using Cons.prems(2) by (simp add: take_slot_def)
  moreover have "max 0 (max 0 (x - 1) - n) = max 0 (x - (1 + n))" if "0 \<le> n" for x n :: int
    using that by simp
  ultimately show ?case
    using Cons.IH [OF l] Cons.prems(4) p by simp
qed simp

definition demo_launcher :: AdminStateMachine where
  "demo_launcher = snd (applyRegisterLauncher 1 \<lparr>rl_launcher_id = ''l1'', rl_address = ''a'',
     rl_region = ''r'', rl_version = ''v'', rl_capabilities = [], rl_process_types = [],
     rl_max_processes = 5, rl_metadata = Map.empty\<rparr> (NewAdminStateMachine None None))"

definition demo_assign :: "string \<Rightarrow> AssignPatternCommand" where
  "demo_assign i = \<lparr>ap_pattern_id = i, ap_namespace = ''n'', ap_pattern_type = ''t'',
     ap_launcher_id = ''l1'', ap_config = Map.empty\<rparr>"

theorem slot_accounting_witness:
  "map_option la_available_slots (st_launchers (fsm_state
     (assign_all 2 (map demo_assign [''a'', ''b'', ''c'']) demo_launcher)) ''l1'') = Some 2"
proof -
  let ?cs = "map demo_assign [''a'', ''b'', ''c'']"
  obtain l where l: "st_launchers (fsm_state demo_launcher) ''l1'' = Some l" "la_available_slots l = 5"
    by (simp add: demo_launcher_def applyRegisterLauncher_def NewAdminStateMachine_def Let_def)
  have p: "st_patterns (fsm_state demo_launcher) = Map.empty"
    by (simp add: demo_launcher_def applyRegisterLauncher_def NewAdminStateMachine_def Let_def)
  show ?thesis
    using slot_accounting [OF l(1), of ?cs 2] l(2) by (simp add: demo_assign_def p)
qed

end
