(* ===== verification/Partitions.thy ===== *)
theory Partitions
  imports Admin_Types
begin

text \<open>
  The partition manager of the admin server (\<open>cmd/prism-admin/partition_manager.go\<close>):
  namespaces hash to one of 256 partitions by CRC-32, and the sorted proxy identifiers
  divide the partitions into contiguous ranges.  The checksum of Go's \<open>hash/crc32\<close> is
  written out on 32-bit words.  The lemmas show that the forward computation (the range of
  a proxy) and the backward one (the proxy of a partition) are inverse, that the ranges
  cover every partition exactly once, and how large each range is.
\<close>

unbundle bit_operations_syntax

subsection \<open>The checksum \<open>crc32.ChecksumIEEE\<close>\<close>

definition crc32_shift :: "32 word \<Rightarrow> 32 word" where
  "crc32_shift c = (if bit c 0 then drop_bit 1 c XOR 0xEDB88320 else drop_bit 1 c)"

definition crc32_byte :: "32 word \<Rightarrow> char \<Rightarrow> 32 word" where
  "crc32_byte c b = (crc32_shift ^^ 8) (c XOR of_char b)"

definition ChecksumIEEE :: "bytes \<Rightarrow> 32 word" where
  "ChecksumIEEE bs = NOT (foldl crc32_byte (NOT 0) bs)"

subsection \<open>Model\<close>

record PartitionRange =
  range_start :: int
  range_end :: int

datatype partition_error =
    NoProxiesAvailable
  | InvalidPartitionID int
  | DivideByZero
  | IndexOutOfRange int
  | CoveredByMultiple int string
  | NotCovered int

definition HashNamespace :: "string \<Rightarrow> int" where
  "HashNamespace namespace = uint (ChecksumIEEE namespace mod 256)"

definition sorted_proxy_ids :: "ProxyEntry list \<Rightarrow> string list" where
  "sorted_proxy_ids allProxies = sort (map px_proxy_id allProxies)"

definition proxy_range :: "nat \<Rightarrow> nat \<Rightarrow> PartitionRange" where
  "proxy_range proxyCount index =
    (let rangeSize = 256 div proxyCount;
         start = int (index * rangeSize);
         end' = start + int rangeSize - 1
     in \<lparr>range_start = start, range_end = (if index = proxyCount - 1 then 255 else end')\<rparr>)"

definition ComputeRangesFromProxySet :: "string \<Rightarrow> ProxyEntry list \<Rightarrow> PartitionRange list" where
  "ComputeRangesFromProxySet targetProxyID allProxies =
    (if allProxies = [] then []
     else let proxyIDs = sorted_proxy_ids allProxies
          in case first_index targetProxyID proxyIDs of
               None \<Rightarrow> []
             | Some targetIndex \<Rightarrow> [proxy_range (length proxyIDs) targetIndex])"

definition GetProxyForPartitionFromSet :: "int \<Rightarrow> ProxyEntry list \<Rightarrow> partition_error + string" where
  "GetProxyForPartitionFromSet partitionID allProxies =
    (if allProxies = [] then Inl NoProxiesAvailable
     else if partitionID < 0 \<or> partitionID > 255 then Inl (InvalidPartitionID partitionID)
     else let proxyIDs = sorted_proxy_ids allProxies;
              proxyCount = length proxyIDs;
              rangeSize = 256 div proxyCount
          in if rangeSize = 0 then Inl DivideByZero
             else let proxyIndex = nat partitionID div rangeSize
                  in Inr (proxyIDs ! (if proxyIndex \<ge> proxyCount then proxyCount - 1 else proxyIndex)))"

fun all_ranges_from :: "nat \<Rightarrow> nat \<Rightarrow> string list \<Rightarrow> (string \<rightharpoonup> PartitionRange list)
    \<Rightarrow> (string \<rightharpoonup> PartitionRange list)" where
  "all_ranges_from proxyCount i [] result = result"
| "all_ranges_from proxyCount i (proxyID # proxyIDs) result =
     all_ranges_from proxyCount (Suc i) proxyIDs (result(proxyID \<mapsto> [proxy_range proxyCount i]))"

definition ComputeAllRanges :: "ProxyEntry list \<Rightarrow> (string \<rightharpoonup> PartitionRange list)" where
  "ComputeAllRanges allProxies =
    (if allProxies = [] then Map.empty
     else let proxyIDs = sorted_proxy_ids allProxies
          in all_ranges_from (length proxyIDs) 0 proxyIDs Map.empty)"

definition new_proxy_entry :: "string \<Rightarrow> ProxyEntry" where
  "new_proxy_entry newProxyID =
    \<lparr>px_proxy_id = newProxyID, px_address = '''', px_region = '''', px_version = '''',
     px_capabilities = [], px_metadata = Map.empty, px_status = ''healthy'',
     px_registered_at = 0, px_last_seen = 0, px_resources = None\<rparr>"

definition RebalanceOnProxyJoin :: "ProxyEntry list \<Rightarrow> string
    \<Rightarrow> (string \<rightharpoonup> PartitionRange list) \<times> (string \<rightharpoonup> PartitionRange list)" where
  "RebalanceOnProxyJoin existingProxies newProxyID =
    (ComputeAllRanges existingProxies,
     ComputeAllRanges (existingProxies @ [new_proxy_entry newProxyID]))"

definition RebalanceOnProxyLeave :: "ProxyEntry list \<Rightarrow> string
    \<Rightarrow> (string \<rightharpoonup> PartitionRange list) \<times> (string \<rightharpoonup> PartitionRange list)" where
  "RebalanceOnProxyLeave allProxies leavingProxyID =
    (ComputeAllRanges allProxies,
     ComputeAllRanges (filter (\<lambda>p. px_proxy_id p \<noteq> leavingProxyID) allProxies))"

definition GetPartitionCount :: int where
  "GetPartitionCount = 256"

definition GetNamespacesInPartition :: "int \<Rightarrow> NamespaceEntry list \<Rightarrow> NamespaceEntry list" where
  "GetNamespacesInPartition partitionID allNamespaces =
    filter (\<lambda>ns. ns_partition_id ns = partitionID) allNamespaces"

text \<open>
  \<open>ValidatePartitionCoverage\<close> marks a bitmap.  The three loops (over the map of ranges in
  the order \<open>ord\<close>, over the ranges of a proxy, over the partitions of a range) are the
  three recursions; an access outside the bitmap is a panic.
\<close>

fun cover_partitions :: "string \<Rightarrow> int list \<Rightarrow> bool list \<Rightarrow> partition_error + bool list" where
  "cover_partitions proxyID [] covered = Inr covered"
| "cover_partitions proxyID (i # is) covered =
    (if i < 0 \<or> int (length covered) \<le> i then Inl (IndexOutOfRange i)
     else if covered ! nat i then Inl (CoveredByMultiple i proxyID)
     else cover_partitions proxyID is (covered[nat i := True]))"

fun cover_ranges :: "string \<Rightarrow> PartitionRange list \<Rightarrow> bool list \<Rightarrow> partition_error + bool list" where
  "cover_ranges proxyID [] covered = Inr covered"
| "cover_ranges proxyID (r # rs) covered =
    (case cover_partitions proxyID [range_start r..range_end r] covered of
       Inl e \<Rightarrow> Inl e
     | Inr covered' \<Rightarrow> cover_ranges proxyID rs covered')"

fun cover_proxies :: "string list \<Rightarrow> (string \<rightharpoonup> PartitionRange list) \<Rightarrow> bool list
    \<Rightarrow> partition_error + bool list" where
  "cover_proxies [] ranges covered = Inr covered"
| "cover_proxies (proxyID # ord) ranges covered =
    (case cover_ranges proxyID (case ranges proxyID of Some rs \<Rightarrow> rs | None \<Rightarrow> []) covered of
       Inl e \<Rightarrow> Inl e
     | Inr covered' \<Rightarrow> cover_proxies ord ranges covered')"

definition ValidatePartitionCoverage :: "string list \<Rightarrow> ProxyEntry list \<Rightarrow> partition_error + unit" where
  "ValidatePartitionCoverage ord allProxies =
    (if allProxies = [] then Inl NoProxiesAvailable
     else case cover_proxies ord (ComputeAllRanges allProxies) (replicate 256 False) of
            Inl e \<Rightarrow> Inl e
          | Inr covered \<Rightarrow>
              (case List.find (\<lambda>i. \<not> covered ! i) [0..<256] of
                 Some i \<Rightarrow> Inl (NotCovered (int i))
               | None \<Rightarrow> Inr ()))"

subsection \<open>Ranges and owners\<close>

definition in_range :: "PartitionRange \<Rightarrow> int \<Rightarrow> bool" where
  "in_range r p \<longleftrightarrow> range_start r \<le> p \<and> p \<le> range_end r"

text \<open>The position, in the sorted identifiers, of the proxy that owns a partition.\<close>

definition owner_index :: "nat \<Rightarrow> nat \<Rightarrow> nat" where
  "owner_index n p = (if p div (256 div n) \<ge> n then n - 1 else p div (256 div n))"

subsection \<open>Range arithmetic\<close>

lemma range_size_pos: "0 < n \<Longrightarrow> n \<le> 256 \<Longrightarrow> 0 < (256::nat) div n"
  by (simp add: div_greater_zero_iff)

lemma proxy_range_simps:
  "range_start (proxy_range n i) = int (i * (256 div n))"
  "range_end (proxy_range n i) = (if i = n - 1 then 255 else int (Suc i * (256 div n)) - 1)"
  by (simp_all add: proxy_range_def Let_def)

lemma div_eq_iff_between: "0 < s \<Longrightarrow> q div s = i \<longleftrightarrow> i * s \<le> q \<and> q < Suc i * s" for q s i :: nat
  by (metis div_nat_eqI div_times_less_eq_dividend dividend_less_div_times mult.commute
      mult_Suc add.commute)

lemma in_range_owner:
  assumes n: "0 < n" "n \<le> 256" "i < n" and p: "0 \<le> p" "p \<le> 255"
  shows "in_range (proxy_range n i) p \<longleftrightarrow> i = owner_index n (nat p)"
proof -
  define s where "s = 256 div n"
  have s: "0 < s" using n range_size_pos by (simp add: s_def)
  obtain q where q: "p = int q" using p(1) nonneg_int_cases by blast
  have "in_range (proxy_range n i) p \<longleftrightarrow>
      int (i * s) \<le> int q \<and> (i = n - 1 \<or> int q < int (Suc i * s))"
    using p by (auto simp only: in_range_def proxy_range_simps q s_def [symmetric] split: if_splits)
  also have "\<dots> \<longleftrightarrow> i * s \<le> q \<and> (i = n - 1 \<or> q < Suc i * s)"
    by (simp only: of_nat_le_iff of_nat_less_iff)
  also have "\<dots> \<longleftrightarrow> i = (if q div s \<ge> n then n - 1 else q div s)"
    using n s div_eq_iff_between [OF s, of q i] less_eq_div_iff_mult_less_eq [OF s, of i q] by auto
  finally show ?thesis by (simp add: owner_index_def q s_def)
qed


lemma all_ranges_from_lookup:
  "all_ranges_from n i ids m k = Some v \<longleftrightarrow>
    (\<exists>l < length ids. ids ! l = k \<and> (\<forall>j < length ids. l < j \<longrightarrow> ids ! j \<noteq> k)
        \<and> v = [proxy_range n (i + l)])
    \<or> (k \<notin> set ids \<and> m k = Some v)"
proof (induction ids arbitrary: i m)
  case (Cons x xs)
  show ?case
  proof (cases "k \<in> set xs")
    case True
    then have *: "(\<forall>j < length (x # xs). 0 < j \<longrightarrow> (x # xs) ! j \<noteq> k) = False"
      by (metis Suc_less_eq in_set_conv_nth length_Cons nth_Cons_Suc zero_less_Suc)
    show ?thesis
      using True by (simp add: Cons.IH Ex_less_Suc2 All_less_Suc2 *) (auto simp: in_set_conv_nth)
  next
    case False
    then show ?thesis
      by (simp add: Cons.IH Ex_less_Suc2 All_less_Suc2) (auto simp: in_set_conv_nth)
  qed
qed simp

lemma length_sorted_proxy_ids [simp]: "length (sorted_proxy_ids ps) = length ps"
  by (simp add: sorted_proxy_ids_def)

lemma set_sorted_proxy_ids [simp]: "set (sorted_proxy_ids ps) = px_proxy_id ` set ps"
  by (simp add: sorted_proxy_ids_def)

lemma distinct_sorted_proxy_ids [simp]:
  "distinct (sorted_proxy_ids ps) = distinct (map px_proxy_id ps)"
  by (simp add: sorted_proxy_ids_def)

lemma sorted_proxy_ids_cong: "mset ps = mset qs \<Longrightarrow> sorted_proxy_ids ps = sorted_proxy_ids qs"
  unfolding sorted_proxy_ids_def by (rule sort_cong_mset) simp

lemma owner_index_less: "0 < n \<Longrightarrow> owner_index n p < n"
  by (auto simp: owner_index_def)

lemma GetProxyForPartitionFromSet_owner:
  assumes "ps \<noteq> []" "length ps \<le> 256" "0 \<le> p" "p \<le> 255"
  shows "GetProxyForPartitionFromSet p ps =
    Inr (sorted_proxy_ids ps ! owner_index (length ps) (nat p))"
proof -
  have "256 div length ps \<noteq> 0" using assms range_size_pos [of "length ps"] by simp
  then show ?thesis
    using assms by (simp add: GetProxyForPartitionFromSet_def Let_def owner_index_def)
qed

lemma ComputeAllRanges_lookup:
  "ComputeAllRanges ps k = Some v \<longleftrightarrow>
    (\<exists>l < length ps. sorted_proxy_ids ps ! l = k
        \<and> (\<forall>j < length ps. l < j \<longrightarrow> sorted_proxy_ids ps ! j \<noteq> k)
        \<and> v = [proxy_range (length ps) l])"
  by (auto simp: ComputeAllRanges_def Let_def all_ranges_from_lookup)

lemma ComputeAllRanges_unique:
  assumes "distinct (map px_proxy_id ps)"
  shows "ComputeAllRanges ps k = Some v \<longleftrightarrow>
    (\<exists>l < length ps. sorted_proxy_ids ps ! l = k \<and> v = [proxy_range (length ps) l])"
  unfolding ComputeAllRanges_lookup
  using assms nth_eq_iff_index_eq [of "sorted_proxy_ids ps"] by (auto 0 4)

lemma dom_ComputeAllRanges: "dom (ComputeAllRanges ps) = px_proxy_id ` set ps"
proof -
  have gen: "dom (all_ranges_from n i ids m) = set ids \<union> dom m" for n i ids m
    by (induction ids arbitrary: i m) auto
  show ?thesis by (simp add: ComputeAllRanges_def Let_def gen)
qed

subsection \<open>Coverage bitmap\<close>

definition range_list :: "PartitionRange list \<Rightarrow> int list" where
  "range_list rs = concat (map (\<lambda>r. [range_start r..range_end r]) rs)"

definition coverage :: "string list \<Rightarrow> (string \<rightharpoonup> PartitionRange list) \<Rightarrow> int list" where
  "coverage ord ranges = concat (map (\<lambda>k. range_list (case ranges k of Some rs \<Rightarrow> rs | None \<Rightarrow> [])) ord)"

lemma nth_mark:
  "0 \<le> i \<Longrightarrow> k < length c \<Longrightarrow> c[nat i := True] ! k \<longleftrightarrow> c ! k \<or> i = int k"
  by (cases "nat i = k") auto

lemma cover_partitions_Inr:
  "cover_partitions pid is c = Inr c' \<longleftrightarrow>
    distinct is \<and> (\<forall>i \<in> set is. 0 \<le> i \<and> i < int (length c) \<and> \<not> c ! nat i)
    \<and> c' = fold (\<lambda>i c. c[nat i := True]) is c"
proof (induction "is" arbitrary: c)
  case (Cons i "is")
  have "\<not> c[nat i := True] ! nat j \<longleftrightarrow> \<not> c ! nat j \<and> j \<noteq> i"
    if "0 \<le> i" "0 \<le> j" "j < int (length c)" for j
    using that nth_mark [of i "nat j" c] by auto
  then show ?case by (simp add: Cons.IH not_less not_le) blast
qed auto

lemma cover_partitions_append:
  "cover_partitions pid (xs @ ys) c =
    (case cover_partitions pid xs c of Inl e \<Rightarrow> Inl e | Inr c' \<Rightarrow> cover_partitions pid ys c')"
  by (induction xs arbitrary: c) auto

lemma cover_ranges_list: "cover_ranges pid rs c = cover_partitions pid (range_list rs) c"
  by (induction rs arbitrary: c) (simp_all add: range_list_def cover_partitions_append split: sum.split)

lemma cover_proxies_Inr:
  "cover_proxies ord ranges c = Inr c' \<longleftrightarrow> cover_partitions pid (coverage ord ranges) c = Inr c'"
proof (induction ord arbitrary: c)
  case (Cons k ord)
  let ?xs = "range_list (case ranges k of Some rs \<Rightarrow> rs | None \<Rightarrow> [])"
  have same: "cover_partitions k ?xs c = Inr d \<longleftrightarrow> cover_partitions pid ?xs c = Inr d" for d
    by (simp only: cover_partitions_Inr)
  have "cover_proxies (k # ord) ranges c = Inr c' \<longleftrightarrow>
      (\<exists>d. cover_partitions k ?xs c = Inr d \<and> cover_proxies ord ranges d = Inr c')"
    by (simp add: cover_ranges_list sum_bind_Inr_iff)
  also have "\<dots> \<longleftrightarrow> cover_partitions pid (coverage (k # ord) ranges) c = Inr c'"
    by (simp only: Cons.IH same coverage_def list.map concat.simps cover_partitions_append
        sum_bind_Inr_iff)
  finally show ?case .
qed (simp add: coverage_def)

lemma nth_fold_cover:
  "(\<And>i. i \<in> set is \<Longrightarrow> 0 \<le> i) \<Longrightarrow> j < length c \<Longrightarrow>
    fold (\<lambda>i c. c[nat i := True]) is c ! j \<longleftrightarrow> c ! j \<or> int j \<in> set is"
proof (induction "is" arbitrary: c)
  case (Cons i "is")
  then show ?case by (auto simp: nth_mark)
qed simp


lemma all_less_int: "(\<forall>i < n. Q (int i)) \<longleftrightarrow> (\<forall>i. 0 \<le> i \<and> i < int n \<longrightarrow> Q i)"
  by (metis nonneg_int_cases of_nat_0_le_iff of_nat_less_iff)

lemma find_first_ok_iff:
  "(case List.find P [0..<n] of Some i \<Rightarrow> Inl (f i) | None \<Rightarrow> Inr ()) = Inr () \<longleftrightarrow> (\<forall>i < n. \<not> P i)"
  using find_None_iff [of P "[0..<n]"] by (auto split: option.split)

lemma ValidatePartitionCoverage_ok_iff:
  "ValidatePartitionCoverage ord ps = Inr () \<longleftrightarrow>
    ps \<noteq> [] \<and> distinct (coverage ord (ComputeAllRanges ps))
      \<and> set (coverage ord (ComputeAllRanges ps)) = {0..255}"
proof -
  let ?L = "coverage ord (ComputeAllRanges ps)"
  let ?c = "fold (\<lambda>i c. c[nat i := True]) ?L (replicate 256 False)"
  have "ValidatePartitionCoverage ord ps = Inr () \<longleftrightarrow>
      ps \<noteq> [] \<and> distinct ?L \<and> (\<forall>i \<in> set ?L. 0 \<le> i \<and> i < 256) \<and> (\<forall>i < 256. ?c ! i)"
    by (auto simp: ValidatePartitionCoverage_def sum_bind_Inr_iff cover_proxies_Inr [of _ _ _ _ "[]"]
        cover_partitions_Inr find_first_ok_iff)
  also have "\<dots> \<longleftrightarrow> ps \<noteq> [] \<and> distinct ?L \<and> set ?L = {0..255}"
  proof -
    have "(\<forall>i < 256. ?c ! i) \<longleftrightarrow> {0..255} \<subseteq> set ?L" if "\<forall>i \<in> set ?L. 0 \<le> i \<and> i < 256"
    proof -
      have "(\<forall>i < 256. ?c ! i) \<longleftrightarrow> (\<forall>i < (256::nat). int i \<in> set ?L)"
        using that by (simp add: nth_fold_cover)
      also have "\<dots> \<longleftrightarrow> (\<forall>i \<in> {0..255}. i \<in> set ?L)"
        using all_less_int [of 256 "\<lambda>i. i \<in> set ?L"] by auto
      finally show ?thesis by blast
    qed
    moreover have "(\<forall>i \<in> set ?L. 0 \<le> i \<and> i < 256) \<longleftrightarrow> set ?L \<subseteq> {0..255}" by auto
    ultimately show ?thesis by auto
  qed
  finally show ?thesis .
qed

lemma in_coverage_iff:
  assumes "map_order ord (ComputeAllRanges ps)"
  shows "p \<in> set (coverage ord (ComputeAllRanges ps)) \<longleftrightarrow>
    (\<exists>l < length ps. (\<forall>j < length ps. l < j \<longrightarrow> sorted_proxy_ids ps ! j \<noteq> sorted_proxy_ids ps ! l)
        \<and> in_range (proxy_range (length ps) l) p)" (is "_ \<longleftrightarrow> ?R")
proof -
  have dom: "set ord = dom (ComputeAllRanges ps)" using assms by (simp add: map_order_def)
  have "p \<in> set (coverage ord (ComputeAllRanges ps)) \<longleftrightarrow>
      (\<exists>k v. ComputeAllRanges ps k = Some v \<and> (\<exists>r \<in> set v. in_range r p))"
    by (auto simp: coverage_def range_list_def dom in_range_def domI) (force simp: domI)+
  also have "\<dots> \<longleftrightarrow> ?R"
  proof
    assume ?R
    then obtain l where "l < length ps" "in_range (proxy_range (length ps) l) p"
      and "\<forall>j < length ps. l < j \<longrightarrow> sorted_proxy_ids ps ! j \<noteq> sorted_proxy_ids ps ! l" by blast
    then have "ComputeAllRanges ps (sorted_proxy_ids ps ! l) = Some [proxy_range (length ps) l]"
      unfolding ComputeAllRanges_lookup by blast
    with \<open>in_range _ p\<close> show "\<exists>k v. ComputeAllRanges ps k = Some v \<and> (\<exists>r \<in> set v. in_range r p)"
      by fastforce
  qed (auto simp: ComputeAllRanges_lookup)
  finally show ?thesis .
qed


subsection \<open>The assignment as an interface\<close>

text \<open>
  What the control plane relies on: over a valid proxy set every partition has an owner,
  and a proxy owns exactly the partitions of its ranges.
\<close>

locale partition_assignment =
  fixes ranges :: "string \<Rightarrow> 'p list \<Rightarrow> PartitionRange list"
    and owner :: "int \<Rightarrow> 'p list \<Rightarrow> partition_error + string"
    and valid :: "'p list \<Rightarrow> bool"
  assumes owner_total: "valid ps \<Longrightarrow> 0 \<le> p \<Longrightarrow> p \<le> 255 \<Longrightarrow> \<exists>k. owner p ps = Inr k"
    and owner_ranges: "valid ps \<Longrightarrow> 0 \<le> p \<Longrightarrow> p \<le> 255 \<Longrightarrow>
      owner p ps = Inr k \<longleftrightarrow> (\<exists>r \<in> set (ranges k ps). in_range r p)"
begin

lemma unique_owner:
  assumes "valid ps" "0 \<le> p" "p \<le> 255"
  shows "\<exists>!k. \<exists>r \<in> set (ranges k ps). in_range r p"
proof -
  obtain k where "owner p ps = Inr k" using owner_total assms by blast
  then show ?thesis using owner_ranges assms by (metis Inr_inject)
qed

end

definition valid_proxy_set :: "ProxyEntry list \<Rightarrow> bool" where
  "valid_proxy_set ps \<longleftrightarrow> ps \<noteq> [] \<and> length ps \<le> 256 \<and> distinct (map px_proxy_id ps)"

lemma ComputeRangesFromProxySet_nth:
  assumes "distinct (map px_proxy_id ps)" "i < length ps"
  shows "ComputeRangesFromProxySet (sorted_proxy_ids ps ! i) ps = [proxy_range (length ps) i]"
  using assms by (auto simp: ComputeRangesFromProxySet_def Let_def first_index_nth)

lemma ComputeRangesFromProxySet_unknown:
  "k \<notin> px_proxy_id ` set ps \<Longrightarrow> ComputeRangesFromProxySet k ps = []"
  by (auto simp: ComputeRangesFromProxySet_def Let_def split: option.split dest!: first_index_SomeD)
    (metis image_eqI length_sorted_proxy_ids nth_mem set_sorted_proxy_ids)

lemma owner_iff_in_range:
  assumes "valid_proxy_set ps" "0 \<le> p" "p \<le> 255"
  shows "GetProxyForPartitionFromSet p ps = Inr k \<longleftrightarrow>
    (\<exists>r \<in> set (ComputeRangesFromProxySet k ps). in_range r p)"
proof (cases "k \<in> set (sorted_proxy_ids ps)")
  case True
  let ?n = "length ps"
  have v: "0 < ?n" "?n \<le> 256" "distinct (map px_proxy_id ps)" "ps \<noteq> []"
    using assms(1) by (auto simp: valid_proxy_set_def)
  obtain i where i: "i < ?n" "k = sorted_proxy_ids ps ! i"
    using True by (metis in_set_conv_nth length_sorted_proxy_ids)
  have "GetProxyForPartitionFromSet p ps = Inr k \<longleftrightarrow> owner_index ?n (nat p) = i"
    using v i assms owner_index_less [of ?n "nat p"]
    by (simp add: GetProxyForPartitionFromSet_owner nth_eq_iff_index_eq)
  also have "\<dots> \<longleftrightarrow> in_range (proxy_range ?n i) p"
    using in_range_owner v i assms by auto
  finally show ?thesis using v i by (simp add: ComputeRangesFromProxySet_nth)
next
  case False
  have "sorted_proxy_ids ps ! owner_index (length ps) (nat p) \<in> set (sorted_proxy_ids ps)"
    using assms by (intro nth_mem) (simp add: owner_index_less valid_proxy_set_def)
  with False show ?thesis
    using assms GetProxyForPartitionFromSet_owner [of ps p]
    by (auto simp: ComputeRangesFromProxySet_unknown valid_proxy_set_def)
qed

lemma owner_exists:
  "valid_proxy_set ps \<Longrightarrow> 0 \<le> p \<Longrightarrow> p \<le> 255 \<Longrightarrow> \<exists>k. GetProxyForPartitionFromSet p ps = Inr k"
  by (simp add: valid_proxy_set_def GetProxyForPartitionFromSet_owner)

interpretation pm: partition_assignment ComputeRangesFromProxySet GetProxyForPartitionFromSet valid_proxy_set
  by unfold_locales (rule owner_exists owner_iff_in_range; assumption)+

lemma proxy_range_inside:
  assumes "0 < n" "n \<le> 256" "i < n" "in_range (proxy_range n i) p"
  shows "0 \<le> p" "p \<le> 255"
proof -
  have "0 \<le> int (i * (256 div n))" by simp
  then show "0 \<le> p" using assms(4) unfolding in_range_def proxy_range_simps by linarith
  have "Suc i * (256 div n) \<le> n * (256 div n)" using assms(3) by (intro mult_le_mono1) simp
  also have "\<dots> \<le> 256" by simp
  finally have "int (Suc i * (256 div n)) \<le> 256" by linarith
  then show "p \<le> 255"
    using assms(4) by (simp only: in_range_def proxy_range_simps split: if_splits) linarith
qed

lemma coverage_all:
  assumes "valid_proxy_set ps" "map_order ord (ComputeAllRanges ps)"
  shows "set (coverage ord (ComputeAllRanges ps)) = {0..255}"
proof -
  let ?n = "length ps"
  have v: "0 < ?n" "?n \<le> 256" "distinct (sorted_proxy_ids ps)"
    using assms(1) by (auto simp: valid_proxy_set_def)
  have "p \<in> set (coverage ord (ComputeAllRanges ps)) \<longleftrightarrow>
      (\<exists>l < ?n. in_range (proxy_range ?n l) p)" for p
    using v(3) by (auto simp: in_coverage_iff [OF assms(2)] nth_eq_iff_index_eq)
  moreover have "(\<exists>l < ?n. in_range (proxy_range ?n l) p) \<longleftrightarrow> 0 \<le> p \<and> p \<le> 255" for p
    using in_range_owner [OF v(1,2), of _ p] owner_index_less [OF v(1), of "nat p"]
      proxy_range_inside [OF v(1,2), of _ p] by blast
  ultimately show ?thesis by auto
qed

lemma coverage_distinct:
  assumes "valid_proxy_set ps" "map_order ord (ComputeAllRanges ps)"
  shows "distinct (coverage ord (ComputeAllRanges ps))"
  unfolding coverage_def
proof (rule distinct_concat_map)
  let ?n = "length ps"
  let ?f = "\<lambda>k. range_list (case ComputeAllRanges ps k of None \<Rightarrow> [] | Some rs \<Rightarrow> rs)"
  have v: "0 < ?n" "?n \<le> 256" "distinct (map px_proxy_id ps)"
    using assms(1) by (auto simp: valid_proxy_set_def)
  have f: "\<exists>l < ?n. sorted_proxy_ids ps ! l = k
      \<and> ?f k = [range_start (proxy_range ?n l)..range_end (proxy_range ?n l)]" if "k \<in> set ord" for k
  proof -
    have "k \<in> dom (ComputeAllRanges ps)" using assms(2) that by (simp add: map_order_def)
    then obtain r where r: "ComputeAllRanges ps k = Some r" by (auto simp: dom_def)
    then obtain l where "l < ?n" "sorted_proxy_ids ps ! l = k" "r = [proxy_range ?n l]"
      using ComputeAllRanges_unique [OF v(3)] by blast
    with r show ?thesis by (intro exI [of _ l]) (simp add: range_list_def)
  qed
  then show "distinct (?f k)" if "k \<in> set ord" for k using that by (metis distinct_upto)
  show "set (?f k) \<inter> set (?f l) = {}" if kl: "k \<in> set ord" "l \<in> set ord" "k \<noteq> l" for k l
  proof -
    obtain i where i: "i < ?n" "sorted_proxy_ids ps ! i = k"
      "?f k = [range_start (proxy_range ?n i)..range_end (proxy_range ?n i)]" using f [OF kl(1)] by blast
    obtain j where j: "j < ?n" "sorted_proxy_ids ps ! j = l"
      "?f l = [range_start (proxy_range ?n j)..range_end (proxy_range ?n j)]" using f [OF kl(2)] by blast
    have "i \<noteq> j" using i(2) j(2) kl(3) by auto
    moreover have "i = j" if "p \<in> set (?f k)" "p \<in> set (?f l)" for p
    proof -
      have "in_range (proxy_range ?n i) p" "in_range (proxy_range ?n j) p"
        using that by (simp_all add: i(3) j(3) in_range_def)
      then show ?thesis
        using in_range_owner [OF v(1,2)] proxy_range_inside [OF v(1,2)] i(1) j(1) by metis
    qed
    ultimately show ?thesis by blast
  qed
qed (use assms(2) in \<open>simp add: map_order_def\<close>)

lemma coverage_all_distinct_ids:
  assumes "ps \<noteq> []" "length ps \<le> 256" "map_order ord (ComputeAllRanges ps)"
    and "set (coverage ord (ComputeAllRanges ps)) = {0..255}"
  shows "distinct (map px_proxy_id ps)"
proof (rule ccontr)
  let ?n = "length ps" and ?ids = "sorted_proxy_ids ps"
  assume "\<not> distinct (map px_proxy_id ps)"
  then have "\<not> distinct ?ids" by simp
  then obtain i j where "i < ?n" "j < ?n" "i \<noteq> j" "?ids ! i = ?ids ! j"
    by (metis distinct_conv_nth length_sorted_proxy_ids)
  then obtain a b where ab: "a < b" "b < ?n" "?ids ! a = ?ids ! b"
    by (metis linorder_neqE_nat)
  then have a: "a < ?n" "a \<noteq> ?n - 1" by auto
  define p where "p = range_start (proxy_range ?n a)"
  have n: "0 < ?n" using assms(1) by simp
  have pa: "in_range (proxy_range ?n a) p"
    using range_size_pos [OF n assms(2)] a(2) by (simp add: in_range_def proxy_range_simps p_def)
  then have "0 \<le> p" "p \<le> 255" using proxy_range_inside [OF n assms(2) a(1)] by auto
  then obtain l where "l < ?n" "in_range (proxy_range ?n l) p"
      "\<forall>j < ?n. l < j \<longrightarrow> ?ids ! j \<noteq> ?ids ! l"
    using assms(4) in_coverage_iff [OF assms(3), of p] by auto
  moreover have "l = a"
    using in_range_owner [OF n assms(2) _ \<open>0 \<le> p\<close> \<open>p \<le> 255\<close>] calculation pa a(1) by simp
  ultimately show False using ab by auto
qed

lemma HashNamespace_range: "0 \<le> HashNamespace ns" "HashNamespace ns \<le> 255"
proof -
  have "HashNamespace ns = uint (ChecksumIEEE ns) mod 256"
    by (simp add: HashNamespace_def uint_mod)
  then show "0 \<le> HashNamespace ns" "HashNamespace ns \<le> 255" by simp_all
qed

subsection \<open>Properties\<close>

text \<open>
  C3: The two directions of the assignment agree.  Over a set of 1 to 256 proxies with
  distinct identifiers, \<open>GetProxyForPartitionFromSet\<close> returns proxy \<open>k\<close> for a partition
  exactly when the partition lies in a range that \<open>ComputeRangesFromProxySet\<close> gives to \<open>k\<close>.
\<close>

theorem partition_owner_inverse:
  assumes "valid_proxy_set ps" "0 \<le> p" "p \<le> 255"
  shows "GetProxyForPartitionFromSet p ps = Inr k \<longleftrightarrow>
    (\<exists>r \<in> set (ComputeRangesFromProxySet k ps). range_start r \<le> p \<and> p \<le> range_end r)"
  using pm.owner_ranges [OF assms] by (simp add: in_range_def)

definition three_proxies :: "ProxyEntry list" where
  "three_proxies = map new_proxy_entry [''p3'', ''p1'', ''p2'']"

lemma sorted_three_proxies: "sorted_proxy_ids three_proxies = [''p1'', ''p2'', ''p3'']"
  by code_simp

lemma three_proxies_valid: "valid_proxy_set three_proxies"
  by (simp add: three_proxies_def valid_proxy_set_def new_proxy_entry_def)

theorem partition_owner_inverse_witness:
  "\<exists>r \<in> set (ComputeRangesFromProxySet ''p2'' three_proxies). range_start r \<le> 100 \<and> 100 \<le> range_end r"
proof -
  have "GetProxyForPartitionFromSet 100 three_proxies = Inr ''p2''"
    using sorted_three_proxies by (simp add: GetProxyForPartitionFromSet_def three_proxies_def)
  then show ?thesis
    using partition_owner_inverse [OF three_proxies_valid, of 100 "''p2''"] by simp
qed

text \<open>
  C19: \<open>ValidatePartitionCoverage\<close> accepts a set of at most 256 proxies, whatever the
  iteration order of the map of ranges, exactly when the set is not empty and its
  identifiers are distinct.  So the ranges cover every partition exactly once then, and the
  check detects every duplicate registration.
\<close>

theorem validate_coverage_iff:
  assumes "length ps \<le> 256" "map_order ord (ComputeAllRanges ps)"
  shows "ValidatePartitionCoverage ord ps = Inr () \<longleftrightarrow> ps \<noteq> [] \<and> distinct (map px_proxy_id ps)"
  unfolding ValidatePartitionCoverage_ok_iff
  using assms coverage_all coverage_distinct coverage_all_distinct_ids by (metis valid_proxy_set_def)

theorem validate_coverage_iff_witness:
  "ValidatePartitionCoverage [''p2'', ''p3'', ''p1''] three_proxies = Inr ()"
proof -
  have "map_order [''p2'', ''p3'', ''p1''] (ComputeAllRanges three_proxies)"
    by (auto simp: map_order_def dom_ComputeAllRanges three_proxies_def new_proxy_entry_def)
  then show ?thesis
    using validate_coverage_iff [of three_proxies "[''p2'', ''p3'', ''p1'']"]
    by (simp add: three_proxies_def new_proxy_entry_def)
qed

text \<open>
  Assignment does not depend on the order in which the proxies are listed, so the
  unordered iteration of \<open>GetAllProxies\<close> over the replicated state has no effect on it.
\<close>

theorem ranges_deterministic:
  assumes "mset ps = mset qs"
  shows "ComputeRangesFromProxySet k ps = ComputeRangesFromProxySet k qs
    \<and> GetProxyForPartitionFromSet p ps = GetProxyForPartitionFromSet p qs
    \<and> ComputeAllRanges ps = ComputeAllRanges qs"
  using sorted_proxy_ids_cong [OF assms] mset_eq_length [OF assms]
  by (auto simp: ComputeRangesFromProxySet_def GetProxyForPartitionFromSet_def ComputeAllRanges_def)

theorem ranges_deterministic_witness:
  "ComputeAllRanges three_proxies = ComputeAllRanges (rev three_proxies)"
  using ranges_deterministic [of three_proxies "rev three_proxies"] by simp

text \<open>
  Every proxy but the last in the sorted order owns exactly \<open>256 div n\<close> partitions; the
  last one also takes the remainder, so the distribution is as even as the doc comment says
  only when \<open>n\<close> divides 256.
\<close>

theorem range_sizes:
  assumes "valid_proxy_set ps" "i < length ps"
  shows "card {p. \<exists>r \<in> set (ComputeRangesFromProxySet (sorted_proxy_ids ps ! i) ps). in_range r p} =
    (if i = length ps - 1 then 256 div length ps + 256 mod length ps else 256 div length ps)"
proof -
  let ?n = "length ps" let ?s = "256 div ?n"
  have v: "0 < ?n" "?n \<le> 256" "distinct (map px_proxy_id ps)" "?n * ?s + 256 mod ?n = 256"
    using assms by (auto simp: valid_proxy_set_def)
  have "{p. \<exists>r \<in> set (ComputeRangesFromProxySet (sorted_proxy_ids ps ! i) ps). in_range r p} =
      {range_start (proxy_range ?n i)..range_end (proxy_range ?n i)}"
    using v(3) assms(2) by (auto simp: ComputeRangesFromProxySet_nth in_range_def)
  moreover have "int ((?n - 1) * ?s) + int (?s + 256 mod ?n) = 256"
    using v(1,4) by (cases ?n) (simp_all flip: of_nat_add of_nat_mult)
  ultimately show ?thesis by (auto simp: proxy_range_simps)
qed

theorem range_sizes_witness:
  "card {p. \<exists>r \<in> set (ComputeRangesFromProxySet ''p3'' three_proxies). in_range r p} = 86"
proof -
  have "length three_proxies = 3" by (simp add: three_proxies_def)
  then show ?thesis
    using range_sizes [OF three_proxies_valid, of 2] by (simp add: sorted_three_proxies)
qed

text \<open>
  With more than 256 proxies the range size is 0 and looking up the owner of any
  partition divides by zero, which panics in Go.
\<close>

theorem too_many_proxies_panic:
  assumes "256 < length ps" "0 \<le> p" "p \<le> 255"
  shows "GetProxyForPartitionFromSet p ps = Inl DivideByZero"
  using assms by (auto simp: GetProxyForPartitionFromSet_def Let_def)

theorem too_many_proxies_panic_witness:
  "GetProxyForPartitionFromSet 7 (replicate 257 (new_proxy_entry ''p'')) = Inl DivideByZero"
  using too_many_proxies_panic [of "replicate 257 (new_proxy_entry ''p'')" 7] by simp

text \<open>
  Join and leave are inverse: when a fresh proxy joins and then leaves, the second
  report shows the two distributions of the first one exchanged, so the cluster returns to
  the distribution it had.
\<close>

theorem rebalance_join_leave:
  assumes "newID \<notin> px_proxy_id ` set ps"
  shows "RebalanceOnProxyLeave (ps @ [new_proxy_entry newID]) newID =
    prod.swap (RebalanceOnProxyJoin ps newID)"
proof -
  have "filter (\<lambda>p. px_proxy_id p \<noteq> newID) ps = ps" using assms by (auto simp: filter_id_conv)
  then show ?thesis
    by (simp add: RebalanceOnProxyLeave_def RebalanceOnProxyJoin_def new_proxy_entry_def)
qed

theorem rebalance_join_leave_witness:
  "RebalanceOnProxyLeave (three_proxies @ [new_proxy_entry ''p0'']) ''p0'' =
    prod.swap (RebalanceOnProxyJoin three_proxies ''p0'')"
  using rebalance_join_leave [of "''p0''" three_proxies]
  by (simp add: three_proxies_def new_proxy_entry_def)

end
