(* ===== verification/Control_Plane.thy ===== *)
theory Control_Plane
  imports Admin_FSM Partitions
begin

text \<open>
  The Raft-backed control plane of the admin server
  (\<open>cmd/prism-admin/control_plane_raft.go\<close>, with \<open>Propose\<close> and \<open>GetLeaderAddr\<close> of
  \<open>raft.go\<close>): registration of proxies and launchers, namespace creation, heartbeats, the
  forwarding of requests to the leader and its connection pool.

  Consensus (hashicorp/raft), protobuf encoding, dialling and the remote procedure calls
  are third-party code and are arguments: \<open>env_raftApply data fsm\<close> commits \<open>data\<close> and
  gives the local state machine at the moment the future resolves, \<open>env_marshal\<close> encodes a
  command, \<open>env_dial\<close> opens a connection, and each forwarding operation takes the client
  stub it calls.  A \<open>go\<close> statement appends to the list of tasks still to run.
\<close>

subsection \<open>Messages\<close>

record ProxyRegistration =
  reg_proxy_id :: string
  reg_address :: string
  reg_region :: string
  reg_version :: string
  reg_capabilities :: "string list"
  reg_metadata :: config

record NamespaceAssignment =
  na_namespace :: string
  na_partition_id :: int
  na_metadata :: config
  na_version :: int

record ProxyRegistrationAck =
  pra_success :: bool
  pra_message :: string
  pra_initial_namespaces :: "NamespaceAssignment list"
  pra_partition_ranges :: "PartitionRange list"

text \<open>Of \<open>NamespaceConfig\<close> the service reads only the metadata map.\<close>

record CreateNamespaceRequest =
  cnr_namespace :: string
  cnr_requesting_proxy :: string
  cnr_config :: "config option"
  cnr_principal :: string

record CreateNamespaceResponse =
  cns_success :: bool
  cns_message :: string
  cns_assigned_partition :: int
  cns_assigned_proxy :: string

record ResourceUsage =
  ru_cpu_percent :: real
  ru_memory_mb :: int

record ProxyHeartbeat =
  hb_proxy_id :: string
  hb_resources :: "ResourceUsage option"
  hb_timestamp :: int

record LauncherRegistration =
  lreg_launcher_id :: string
  lreg_address :: string
  lreg_region :: string
  lreg_version :: string
  lreg_capabilities :: "string list"
  lreg_max_processes :: int
  lreg_process_types :: "string list"
  lreg_metadata :: config

record LauncherRegistrationAck =
  lra_success :: bool
  lra_message :: string
  lra_initial_processes :: "string list"
  lra_assigned_capacity :: int

record LauncherResourceUsage =
  lru_process_count :: int
  lru_total_memory_mb :: int
  lru_cpu_percent :: real
  lru_available_slots :: int

record LauncherHeartbeatRequest =
  lhb_launcher_id :: string
  lhb_resources :: "LauncherResourceUsage option"
  lhb_timestamp :: int

record HeartbeatAck =
  ack_success :: bool
  ack_message :: string
  ack_server_timestamp :: int

datatype grpc_error =
    Unavailable string
  | Internal string
  | FailedPrecondition int partition_error
  | RemoteError string
  | Panic string

subsection \<open>State and environment\<close>

datatype async_task =
    AsyncPropose bytes
  | AsyncForwardHeartbeat ProxyHeartbeat
  | AsyncForwardLauncherHeartbeat LauncherHeartbeatRequest

record 'conn ControlPlaneServiceRaft =
  cp_fsm :: AdminStateMachine
  cp_conns :: "string \<rightharpoonup> 'conn"
  cp_proposals :: "bool list option"
  cp_forwarded :: "(string \<times> bool) list option"
  cp_tasks :: "async_task list"

record 'conn cp_env =
  env_isLeader :: bool
  env_leaderWithID :: string
  env_now :: int
  env_raftApply :: "bytes \<Rightarrow> AdminStateMachine \<Rightarrow> bool \<times> AdminStateMachine"
  env_marshal :: "Command \<Rightarrow> bytes option"
  env_dial :: "string \<Rightarrow> 'conn option"

datatype ReadConsistency = ReadStale | ReadLeaseCheck | ReadLinearizable

definition parse_consistency :: "string \<Rightarrow> ReadConsistency" where
  "parse_consistency level =
    (if level = ''stale'' then ReadStale
     else if level = ''lease-based'' \<or> level = ''lease_based'' then ReadLeaseCheck
     else if level = ''linearizable'' then ReadLinearizable
     else ReadStale)"

definition NewControlPlaneServiceRaft ::
  "AdminStateMachine \<Rightarrow> bool list option \<Rightarrow> (string \<times> bool) list option
    \<Rightarrow> (string \<rightharpoonup> string) \<Rightarrow> 'conn ControlPlaneServiceRaft \<times> (string \<rightharpoonup> ReadConsistency)" where
  "NewControlPlaneServiceRaft fsm proposals forwarded readConsistencyConfig =
    (\<lparr>cp_fsm = fsm, cp_conns = Map.empty, cp_proposals = proposals, cp_forwarded = forwarded,
      cp_tasks = []\<rparr>,
     (\<lambda>op. map_option parse_consistency (readConsistencyConfig op)))"

subsection \<open>Raft node\<close>

definition Propose :: "'conn cp_env \<Rightarrow> bytes \<Rightarrow> 'conn ControlPlaneServiceRaft
    \<Rightarrow> (grpc_error + unit) \<times> 'conn ControlPlaneServiceRaft" where
  "Propose env data s =
    (let (ok, fsm') = env_raftApply env data (cp_fsm s);
         s' = s\<lparr>cp_fsm := fsm', cp_proposals := map_option (\<lambda>ps. ps @ [ok]) (cp_proposals s)\<rparr>
     in if ok then (Inr (), s') else (Inl (Internal ''failed to apply''), s'))"

text \<open>
  \<open>net.SplitHostPort\<close> of the standard library, as far as the host part: the text before the
  last colon, or the text between brackets.
\<close>

definition last_index :: "char \<Rightarrow> string \<Rightarrow> nat option" where
  "last_index c s = map_option (\<lambda>i. length s - 1 - i) (first_index c (rev s))"

definition SplitHost :: "string \<Rightarrow> string option" where
  "SplitHost hostport =
    (case last_index (CHR '':'') hostport of
       None \<Rightarrow> None
     | Some i \<Rightarrow>
         if hd hostport = CHR ''['' then
           (case first_index (CHR '']'') hostport of
              None \<Rightarrow> None
            | Some e \<Rightarrow>
                if e + 1 = i \<and> CHR ''['' \<notin> set (drop 1 hostport) \<and> CHR '']'' \<notin> set (drop (e + 1) hostport)
                then Some (take (e - 1) (drop 1 hostport)) else None)
         else if CHR '':'' \<in> set (take i hostport) then None
         else if CHR ''['' \<in> set hostport \<or> CHR '']'' \<in> set hostport then None
         else Some (take i hostport))"

definition GetLeaderAddr :: "'conn cp_env \<Rightarrow> string" where
  "GetLeaderAddr env =
    (let addr = env_leaderWithID env
     in if addr = [] then []
        else case SplitHost addr of None \<Rightarrow> [] | Some host \<Rightarrow> host @ '':8980'')"

subsection \<open>Leader connection pool\<close>

definition GetConnection :: "'conn cp_env \<Rightarrow> string \<Rightarrow> 'conn ControlPlaneServiceRaft
    \<Rightarrow> 'conn option \<times> 'conn ControlPlaneServiceRaft" where
  "GetConnection env addr s =
    (case cp_conns s addr of
       Some conn \<Rightarrow> (Some conn, s)
     | None \<Rightarrow>
         (case env_dial env addr of
            None \<Rightarrow> (None, s)
          | Some conn \<Rightarrow> (Some conn, s\<lparr>cp_conns := (cp_conns s)(addr \<mapsto> conn)\<rparr>)))"

definition ClosePool :: "string list \<Rightarrow> 'conn ControlPlaneServiceRaft
    \<Rightarrow> 'conn list \<times> 'conn ControlPlaneServiceRaft" where
  "ClosePool ord s = (map_values ord (cp_conns s), s\<lparr>cp_conns := Map.empty\<rparr>)"

definition forward :: "string \<Rightarrow> 'conn cp_env \<Rightarrow> ('conn \<Rightarrow> string + 'resp) \<Rightarrow> 'conn ControlPlaneServiceRaft
    \<Rightarrow> (grpc_error + 'resp) \<times> 'conn ControlPlaneServiceRaft" where
  "forward rpc env client s =
    (case cp_forwarded s of
       None \<Rightarrow> (Inl (Panic ''nil metrics''), s)
     | Some fs \<Rightarrow>
         if GetLeaderAddr env = []
         then (Inl (Unavailable ''no leader elected''), s\<lparr>cp_forwarded := Some (fs @ [(rpc, False)])\<rparr>)
         else case GetConnection env (GetLeaderAddr env) s of
                (None, s') \<Rightarrow> (Inl (Unavailable ''failed to connect to leader''),
                               s'\<lparr>cp_forwarded := Some (fs @ [(rpc, False)])\<rparr>)
              | (Some conn, s') \<Rightarrow>
                  (case client conn of
                     Inl e \<Rightarrow> (Inl (RemoteError e), s'\<lparr>cp_forwarded := Some (fs @ [(rpc, False)])\<rparr>)
                   | Inr resp \<Rightarrow> (Inr resp, s'\<lparr>cp_forwarded := Some (fs @ [(rpc, True)])\<rparr>)))"

definition forwardRegisterProxy where
  "forwardRegisterProxy = forward ''RegisterProxy''"

definition forwardCreateNamespace where
  "forwardCreateNamespace = forward ''CreateNamespace''"

definition forwardRegisterLauncher where
  "forwardRegisterLauncher = forward ''RegisterLauncher''"

definition forwardHeartbeat :: "'conn cp_env \<Rightarrow> ('conn \<Rightarrow> string + HeartbeatAck) \<Rightarrow> 'conn ControlPlaneServiceRaft
    \<Rightarrow> 'conn ControlPlaneServiceRaft" where
  "forwardHeartbeat env client s = snd (forward ''Heartbeat'' env client s)"

definition forwardLauncherHeartbeat :: "'conn cp_env \<Rightarrow> ('conn \<Rightarrow> string + HeartbeatAck)
    \<Rightarrow> 'conn ControlPlaneServiceRaft \<Rightarrow> 'conn ControlPlaneServiceRaft" where
  "forwardLauncherHeartbeat env client s = snd (forward ''LauncherHeartbeat'' env client s)"

subsection \<open>Helpers\<close>

definition computePartitionRanges :: "string list \<Rightarrow> string \<Rightarrow> AdminStateMachine \<Rightarrow> PartitionRange list" where
  "computePartitionRanges ord proxyID fsm = ComputeRangesFromProxySet proxyID (GetAllProxies ord fsm)"

definition getProxyForPartition :: "string list \<Rightarrow> int \<Rightarrow> AdminStateMachine \<Rightarrow> partition_error + string" where
  "getProxyForPartition ord partitionID fsm = GetProxyForPartitionFromSet partitionID (GetAllProxies ord fsm)"

definition getNamespacesForRanges :: "string list \<Rightarrow> PartitionRange list \<Rightarrow> AdminStateMachine
    \<Rightarrow> NamespaceAssignment list" where
  "getNamespacesForRanges ord ranges fsm =
    map (\<lambda>ns. \<lparr>na_namespace = ns_name ns, na_partition_id = ns_partition_id ns,
               na_metadata = ns_config ns, na_version = 1\<rparr>)
      (filter (\<lambda>ns. \<exists>r \<in> set ranges. ns_partition_id ns \<ge> range_start r \<and> ns_partition_id ns \<le> range_end r)
        (map_values ord (st_namespaces (fsm_state fsm))))"

subsection \<open>Operations\<close>

definition proposeCommand :: "'conn cp_env \<Rightarrow> Command \<Rightarrow> 'conn ControlPlaneServiceRaft
    \<Rightarrow> (grpc_error + unit) \<times> 'conn ControlPlaneServiceRaft" where
  "proposeCommand env cmd s =
    (case env_marshal env cmd of
       None \<Rightarrow> (Inl (Internal ''failed to marshal command''), s)
     | Some data \<Rightarrow>
         (case Propose env data s of
            (Inl e, s') \<Rightarrow> (Inl (Internal ''failed to propose to raft''), s')
          | (Inr u, s') \<Rightarrow> (Inr u, s')))"

definition registerProxyCommand :: "int \<Rightarrow> ProxyRegistration \<Rightarrow> Command" where
  "registerProxyCommand now req =
    \<lparr>cmd_type = COMMAND_TYPE_REGISTER_PROXY, cmd_timestamp = now, cmd_issuer = ''admin'',
     cmd_payload = PRegisterProxy \<lparr>rp_proxy_id = reg_proxy_id req, rp_address = reg_address req,
       rp_region = reg_region req, rp_version = reg_version req,
       rp_capabilities = reg_capabilities req, rp_metadata = reg_metadata req\<rparr>\<rparr>"

definition RegisterProxy :: "'conn cp_env \<Rightarrow> ('conn \<Rightarrow> string + ProxyRegistrationAck)
    \<Rightarrow> string list \<Rightarrow> string list \<Rightarrow> ProxyRegistration \<Rightarrow> 'conn ControlPlaneServiceRaft
    \<Rightarrow> (grpc_error + ProxyRegistrationAck) \<times> 'conn ControlPlaneServiceRaft" where
  "RegisterProxy env client pord nord req s =
    (if \<not> env_isLeader env then forwardRegisterProxy env client s
     else case proposeCommand env (registerProxyCommand (env_now env) req) s of
            (Inl e, s') \<Rightarrow> (Inl e, s')
          | (Inr _, s') \<Rightarrow>
              (let ranges = computePartitionRanges pord (reg_proxy_id req) (cp_fsm s');
                   namespaces = getNamespacesForRanges nord ranges (cp_fsm s')
               in (Inr \<lparr>pra_success = True, pra_message = ''Proxy registered successfully'',
                        pra_initial_namespaces = namespaces, pra_partition_ranges = ranges\<rparr>, s')))"

definition createNamespaceCommand :: "int \<Rightarrow> CreateNamespaceRequest \<Rightarrow> int \<Rightarrow> string \<Rightarrow> Command" where
  "createNamespaceCommand now req partitionID proxyID =
    \<lparr>cmd_type = COMMAND_TYPE_CREATE_NAMESPACE, cmd_timestamp = now, cmd_issuer = cnr_principal req,
     cmd_payload = PCreateNamespace \<lparr>cn_namespace = cnr_namespace req, cn_partition_id = partitionID,
       cn_assigned_proxy = proxyID,
       cn_config = (case cnr_config req of None \<Rightarrow> Map.empty | Some m \<Rightarrow> m),
       cn_principal = cnr_principal req\<rparr>\<rparr>"

definition CreateNamespace :: "'conn cp_env \<Rightarrow> ('conn \<Rightarrow> string + CreateNamespaceResponse)
    \<Rightarrow> string list \<Rightarrow> CreateNamespaceRequest \<Rightarrow> 'conn ControlPlaneServiceRaft
    \<Rightarrow> (grpc_error + CreateNamespaceResponse) \<times> 'conn ControlPlaneServiceRaft" where
  "CreateNamespace env client pord req s =
    (if \<not> env_isLeader env then forwardCreateNamespace env client s
     else let partitionID = HashNamespace (cnr_namespace req)
          in case getProxyForPartition pord partitionID (cp_fsm s) of
               Inl DivideByZero \<Rightarrow> (Inl (Panic ''integer divide by zero''), s)
             | Inl e \<Rightarrow> (Inl (FailedPrecondition partitionID e), s)
             | Inr proxyID \<Rightarrow>
                 (case proposeCommand env (createNamespaceCommand (env_now env) req partitionID proxyID) s of
                    (Inl e, s') \<Rightarrow> (Inl e, s')
                  | (Inr _, s') \<Rightarrow>
                      (Inr \<lparr>cns_success = True, cns_message = ''Namespace created successfully'',
                            cns_assigned_partition = partitionID, cns_assigned_proxy = proxyID\<rparr>, s')))"

definition heartbeatCommand :: "ProxyHeartbeat \<Rightarrow> Command" where
  "heartbeatCommand req =
    \<lparr>cmd_type = COMMAND_TYPE_UPDATE_PROXY_STATUS, cmd_timestamp = hb_timestamp req,
     cmd_issuer = hb_proxy_id req,
     cmd_payload = PUpdateProxyStatus \<lparr>up_proxy_id = hb_proxy_id req, up_status = ''healthy'',
       up_last_seen = hb_timestamp req,
       up_resources = map_option (\<lambda>r. \<lparr>pr_memory_bytes = int64 (int64 (ru_memory_mb r * 1024) * 1024),
         pr_cpu_percent = ru_cpu_percent r, pr_active_namespaces = 0, pr_requests_per_second = 0\<rparr>)
         (hb_resources req)\<rparr>\<rparr>"

definition heartbeat_ack :: "string \<Rightarrow> int \<Rightarrow> HeartbeatAck" where
  "heartbeat_ack msg now = \<lparr>ack_success = True, ack_message = msg, ack_server_timestamp = now\<rparr>"

definition spawn :: "async_task \<Rightarrow> 'conn ControlPlaneServiceRaft \<Rightarrow> 'conn ControlPlaneServiceRaft" where
  "spawn t s = s\<lparr>cp_tasks := cp_tasks s @ [t]\<rparr>"

definition Heartbeat :: "'conn cp_env \<Rightarrow> ProxyHeartbeat \<Rightarrow> 'conn ControlPlaneServiceRaft
    \<Rightarrow> HeartbeatAck \<times> 'conn ControlPlaneServiceRaft" where
  "Heartbeat env req s =
    (if \<not> env_isLeader env
     then (heartbeat_ack ''Heartbeat forwarded to leader'' (env_now env),
           spawn (AsyncForwardHeartbeat req) s)
     else case env_marshal env (heartbeatCommand req) of
            None \<Rightarrow> (heartbeat_ack ''Heartbeat received (serialization error)'' (env_now env), s)
          | Some data \<Rightarrow> (heartbeat_ack ''Heartbeat received'' (env_now env), spawn (AsyncPropose data) s))"

definition registerLauncherCommand :: "int \<Rightarrow> LauncherRegistration \<Rightarrow> Command" where
  "registerLauncherCommand now req =
    \<lparr>cmd_type = COMMAND_TYPE_REGISTER_LAUNCHER, cmd_timestamp = now, cmd_issuer = ''admin'',
     cmd_payload = PRegisterLauncher \<lparr>rl_launcher_id = lreg_launcher_id req,
       rl_address = lreg_address req, rl_region = lreg_region req, rl_version = lreg_version req,
       rl_capabilities = lreg_capabilities req, rl_process_types = lreg_process_types req,
       rl_max_processes = lreg_max_processes req, rl_metadata = lreg_metadata req\<rparr>\<rparr>"

definition RegisterLauncher :: "'conn cp_env \<Rightarrow> ('conn \<Rightarrow> string + LauncherRegistrationAck)
    \<Rightarrow> LauncherRegistration \<Rightarrow> 'conn ControlPlaneServiceRaft
    \<Rightarrow> (grpc_error + LauncherRegistrationAck) \<times> 'conn ControlPlaneServiceRaft" where
  "RegisterLauncher env client req s =
    (if \<not> env_isLeader env then forwardRegisterLauncher env client s
     else case proposeCommand env (registerLauncherCommand (env_now env) req) s of
            (Inl e, s') \<Rightarrow> (Inl e, s')
          | (Inr _, s') \<Rightarrow>
              (Inr \<lparr>lra_success = True, lra_message = ''Launcher registered successfully'',
                    lra_initial_processes = [], lra_assigned_capacity = 0\<rparr>, s'))"

text \<open>\<open>LauncherHeartbeat\<close> reads \<open>req.Resources.AvailableSlots\<close> outside its nil check.\<close>

definition launcherHeartbeatCommand :: "LauncherHeartbeatRequest \<Rightarrow> LauncherResourceUsage \<Rightarrow> Command" where
  "launcherHeartbeatCommand req r =
    \<lparr>cmd_type = COMMAND_TYPE_UPDATE_LAUNCHER_STATUS, cmd_timestamp = lhb_timestamp req,
     cmd_issuer = lhb_launcher_id req,
     cmd_payload = PUpdateLauncherStatus \<lparr>ul_launcher_id = lhb_launcher_id req,
       ul_status = ''healthy'', ul_last_seen = lhb_timestamp req,
       ul_available_slots = lru_available_slots r,
       ul_resources = Some \<lparr>lr_memory_bytes = int64 (int64 (lru_total_memory_mb r * 1024) * 1024),
         lr_cpu_percent = lru_cpu_percent r, lr_active_processes = lru_process_count r,
         lr_available_slots = lru_available_slots r\<rparr>\<rparr>\<rparr>"

definition LauncherHeartbeat :: "'conn cp_env \<Rightarrow> LauncherHeartbeatRequest \<Rightarrow> 'conn ControlPlaneServiceRaft
    \<Rightarrow> (grpc_error + HeartbeatAck) \<times> 'conn ControlPlaneServiceRaft" where
  "LauncherHeartbeat env req s =
    (if \<not> env_isLeader env
     then (Inr (heartbeat_ack ''Heartbeat forwarded to leader'' (env_now env)),
           spawn (AsyncForwardLauncherHeartbeat req) s)
     else case lhb_resources req of
            None \<Rightarrow> (Inl (Panic ''nil pointer dereference''), s)
          | Some r \<Rightarrow>
              (case env_marshal env (launcherHeartbeatCommand req r) of
                 None \<Rightarrow> (Inr (heartbeat_ack ''Heartbeat received'' (env_now env)), s)
               | Some data \<Rightarrow> (Inr (heartbeat_ack ''Heartbeat received'' (env_now env)),
                               spawn (AsyncPropose data) s)))"

text \<open>One of the spawned tasks runs, at whatever position it stands.\<close>

definition run_task :: "'conn cp_env \<Rightarrow> ('conn \<Rightarrow> ProxyHeartbeat \<Rightarrow> string + HeartbeatAck)
    \<Rightarrow> ('conn \<Rightarrow> LauncherHeartbeatRequest \<Rightarrow> string + HeartbeatAck) \<Rightarrow> nat
    \<Rightarrow> 'conn ControlPlaneServiceRaft \<Rightarrow> 'conn ControlPlaneServiceRaft" where
  "run_task env hbc lhbc i s =
    (if i < length (cp_tasks s)
     then let s' = s\<lparr>cp_tasks := take i (cp_tasks s) @ drop (Suc i) (cp_tasks s)\<rparr>
          in case cp_tasks s ! i of
               AsyncPropose data \<Rightarrow> snd (Propose env data s')
             | AsyncForwardHeartbeat req \<Rightarrow> forwardHeartbeat env (\<lambda>c. hbc c req) s'
             | AsyncForwardLauncherHeartbeat req \<Rightarrow> forwardLauncherHeartbeat env (\<lambda>c. lhbc c req) s'
     else s)"

subsection \<open>Committed commands\<close>

lemma valid_GetAllProxies:
  assumes "fsm_inv fsm" "map_order ord (st_proxies (fsm_state fsm))"
    and "st_proxies (fsm_state fsm) k = Some e" "card (dom (st_proxies (fsm_state fsm))) \<le> 256"
  shows "valid_proxy_set (GetAllProxies ord fsm)"
proof -
  let ?m = "st_proxies (fsm_state fsm)"
  have "map px_proxy_id (map_values ord ?m) = ord"
    using assms by (intro keyed_map_values) (auto simp: fsm_inv_def state_inv_def map_order_def)
  moreover have "length (map_values ord ?m) \<le> 256" "map_values ord ?m \<noteq> []"
    using assms(2-4) map_order_values [OF assms(2)] by (auto simp: ran_def)
  ultimately show ?thesis
    using assms(2) by (simp add: valid_proxy_set_def GetAllProxies_def map_order_def)
qed

text \<open>
  Every \<open>CreateNamespace\<close> command of the service carries the hash of its namespace.
  \<open>raft_commits\<close> states what hashicorp/raft documents of a successful \<open>Apply\<close>: the entry,
  possibly among others, has been applied to the local state machine.  \<open>codec_ok\<close> is the
  round trip of protobuf.
\<close>

definition service_command :: "Command \<Rightarrow> bool" where
  "service_command cmd \<longleftrightarrow> (\<forall>c. cmd_type cmd = COMMAND_TYPE_CREATE_NAMESPACE \<and> cmd_payload cmd = PCreateNamespace c
     \<longrightarrow> cn_partition_id c = HashNamespace (cn_namespace c))"

definition partition_inv :: "AdminStateMachine \<Rightarrow> bool" where
  "partition_inv fsm \<longleftrightarrow>
    (\<forall>k e. st_namespaces (fsm_state fsm) k = Some e \<longrightarrow> ns_partition_id e = HashNamespace k)"

definition service_log :: "(bytes \<Rightarrow> Command option) \<Rightarrow> timed_entry list \<Rightarrow> bool" where
  "service_log unmarshal es \<longleftrightarrow>
    (\<forall>x \<in> set es. \<forall>cmd. unmarshal (log_data (snd (snd x))) = Some cmd \<longrightarrow> service_command cmd)"

definition raft_commits :: "(bytes \<Rightarrow> Command option) \<Rightarrow> (bytes \<Rightarrow> AdminStateMachine \<Rightarrow> bool \<times> AdminStateMachine) \<Rightarrow> bool" where
  "raft_commits unmarshal apply_data \<longleftrightarrow> (\<forall>data fsm fsm'. apply_data data fsm = (True, fsm') \<longrightarrow>
     (\<exists>pre t u e post. log_data e = data \<and> fsm' = replay unmarshal (pre @ (t, u, e) # post) fsm
        \<and> service_log unmarshal (pre @ post)))"

definition codec_ok :: "(Command \<Rightarrow> bytes option) \<Rightarrow> (bytes \<Rightarrow> Command option) \<Rightarrow> bool" where
  "codec_ok marshal unmarshal \<longleftrightarrow> (\<forall>cmd data. marshal cmd = Some data \<longrightarrow> unmarshal data = Some cmd)"

lemma dispatch_partition_inv:
  assumes "service_command cmd" "partition_inv fsm"
  shows "partition_inv (snd (dispatch now cmd fsm))"
proof -
  have "partition_inv (snd (applyCreateNamespace now c fsm))"
    if "cn_partition_id c = HashNamespace (cn_namespace c)" for c
    using assms(2) that
    by (auto simp: partition_inv_def applyCreateNamespace_def Let_def split: option.splits if_splits)
  moreover have "st_namespaces (fsm_state (snd (applyRegisterProxy now c1 fsm))) = st_namespaces (fsm_state fsm)"
    "st_namespaces (fsm_state (snd (applyRegisterLauncher now c2 fsm))) = st_namespaces (fsm_state fsm)"
    "st_namespaces (fsm_state (snd (applyAssignPattern now c3 fsm))) = st_namespaces (fsm_state fsm)"
    "st_namespaces (fsm_state (snd (applyUpdateProxyStatus c4 fsm))) = st_namespaces (fsm_state fsm)"
    "st_namespaces (fsm_state (snd (applyUpdateLauncherStatus c5 fsm))) = st_namespaces (fsm_state fsm)"
    for c1 c2 c3 c4 c5
    by (simp_all add: handler_defs Let_def split: option.split)
  ultimately show ?thesis
    using assms unfolding dispatch_def
    by (cases "cmd_type cmd"; cases "cmd_payload cmd") (auto simp: service_command_def partition_inv_def)
qed

lemma apply_entry_partition_inv:
  assumes "service_log unmarshal [x]" "partition_inv fsm"
  shows "partition_inv (apply_entry unmarshal x fsm)"
proof -
  obtain t u e where x: "x = (t, u, e)" by (cases x)
  show ?thesis
  proof (cases "unmarshal (log_data e)")
    case (Some cmd)
    have "partition_inv (mark_applied t e fsm)" using assms(2) by (simp add: partition_inv_def mark_applied_def)
    then have "partition_inv (snd (dispatch u cmd (mark_applied t e fsm)))"
      using assms(1) Some x by (intro dispatch_partition_inv) (auto simp: service_log_def)
    then show ?thesis
      using Apply_Some(2) [of unmarshal e cmd t u fsm, OF Some] by (simp add: x partition_inv_def apply_entry_def)
  qed (use assms(2) in \<open>simp add: x apply_entry_def Apply_None\<close>)
qed

lemma replay_partition_inv:
  "service_log unmarshal es \<Longrightarrow> partition_inv fsm \<Longrightarrow> partition_inv (replay unmarshal es fsm)"
proof (induction es arbitrary: fsm)
  case (Cons x es)
  from Cons.prems(1) have "service_log unmarshal [x]" "service_log unmarshal es"
    by (auto simp: service_log_def)
  then show ?case by (simp add: Cons.IH Cons.prems(2) apply_entry_partition_inv)
qed simp

lemma handler_dom_mono:
  "dom (st_proxies (fsm_state fsm)) \<subseteq> dom (st_proxies (fsm_state (snd (dispatch now cmd fsm))))"
  "dom (st_namespaces (fsm_state fsm)) \<subseteq> dom (st_namespaces (fsm_state (snd (dispatch now cmd fsm))))"
  using dispatch_cases [of now cmd fsm]
  by (elim disjE exE; auto simp: handler_defs Let_def split: option.split)+

lemma apply_entry_dom_mono:
  "dom (st_proxies (fsm_state fsm)) \<subseteq> dom (st_proxies (fsm_state (apply_entry unmarshal x fsm)))
   \<and> dom (st_namespaces (fsm_state fsm)) \<subseteq> dom (st_namespaces (fsm_state (apply_entry unmarshal x fsm)))"
proof -
  obtain t u e where x: "x = (t, u, e)" by (cases x)
  show ?thesis
  proof (cases "unmarshal (log_data e)")
    case (Some cmd)
    then show ?thesis
      using Apply_Some(2) [of unmarshal e cmd t u fsm] handler_dom_mono [of "mark_applied t e fsm" u cmd]
      by (simp add: x apply_entry_def mark_applied_def)
  qed (simp add: x apply_entry_def Apply_None)
qed

lemma replay_dom_mono:
  "dom (st_proxies (fsm_state fsm)) \<subseteq> dom (st_proxies (fsm_state (replay unmarshal es fsm)))
   \<and> dom (st_namespaces (fsm_state fsm)) \<subseteq> dom (st_namespaces (fsm_state (replay unmarshal es fsm)))"
proof (induction es arbitrary: fsm)
  case (Cons x es)
  show ?case
    using apply_entry_dom_mono [of fsm unmarshal x] Cons.IH [of "apply_entry unmarshal x fsm"]
    unfolding replay_simps by - (elim conjE, intro conjI; erule (1) subset_trans)
qed simp

lemma proposeCommand_ok:
  assumes "proposeCommand env cmd s = (Inr u, s')" "raft_commits unmarshal (env_raftApply env)"
    and "codec_ok (env_marshal env) unmarshal"
  shows "\<exists>pre t h e post. unmarshal (log_data e) = Some cmd \<and> service_log unmarshal (pre @ post)
    \<and> cp_fsm s' = replay unmarshal (pre @ (t, h, e) # post) (cp_fsm s)"
proof -
  obtain data where data: "env_marshal env cmd = Some data"
    using assms(1) by (auto simp: proposeCommand_def split: option.splits)
  then have "env_raftApply env data (cp_fsm s) = (True, cp_fsm s')"
    using assms(1) by (auto simp: proposeCommand_def Propose_def Let_def split: prod.splits if_splits sum.splits)
  then show ?thesis
    using assms(2,3) data unfolding raft_commits_def codec_ok_def by metis
qed

lemma commit_inv:
  assumes "unmarshal (log_data e) = Some cmd" "service_log unmarshal (pre @ post)" "service_command cmd"
    and "fsm_inv fsm" "partition_inv fsm"
  shows "fsm_inv (replay unmarshal (pre @ (t, h, e) # post) fsm)"
    and "partition_inv (replay unmarshal (pre @ (t, h, e) # post) fsm)"
proof -
  have "service_log unmarshal (pre @ (t, h, e) # post)"
    using assms(1-3) by (auto simp: service_log_def)
  with assms(4,5) show "fsm_inv (replay unmarshal (pre @ (t, h, e) # post) fsm)"
    "partition_inv (replay unmarshal (pre @ (t, h, e) # post) fsm)"
    by (auto simp del: replay_simps intro: replay_inv replay_partition_inv)
qed

lemma replay_last_proxy:
  assumes "unmarshal (log_data e) = Some cmd"
    and "cmd_type cmd = COMMAND_TYPE_REGISTER_PROXY" "cmd_payload cmd = PRegisterProxy c"
  shows "rp_proxy_id c \<in> dom (st_proxies (fsm_state (replay unmarshal (pre @ (t, h, e) # post) fsm)))"
proof -
  let ?f = "apply_entry unmarshal (t, h, e) (replay unmarshal pre fsm)"
  have "rp_proxy_id c \<in> dom (st_proxies (fsm_state ?f))"
    using Apply_Some(2) [of unmarshal e cmd t h, OF assms(1)] assms(2,3)
    by (simp add: apply_entry_def dispatch_def applyRegisterProxy_def Let_def)
  then show ?thesis using replay_dom_mono [of ?f unmarshal post] by auto
qed

lemma replay_last_namespace:
  assumes "unmarshal (log_data e) = Some cmd"
    and "cmd_type cmd = COMMAND_TYPE_CREATE_NAMESPACE" "cmd_payload cmd = PCreateNamespace c"
  shows "cn_namespace c \<in> dom (st_namespaces (fsm_state (replay unmarshal (pre @ (t, h, e) # post) fsm)))"
proof -
  let ?f = "apply_entry unmarshal (t, h, e) (replay unmarshal pre fsm)"
  have "cn_namespace c \<in> dom (st_namespaces (fsm_state ?f))"
    using Apply_Some(2) [of unmarshal e cmd t h, OF assms(1)] assms(2,3)
    by (simp add: apply_entry_def dispatch_def applyCreateNamespace_def Let_def split: option.split)
  then show ?thesis using replay_dom_mono [of ?f unmarshal post] by auto
qed


subsection \<open>Properties\<close>

text \<open>
  C4: A proxy that registers with the leader is told exactly the namespaces whose partition
  it owns: those in the replicated state for which the partition manager, given the
  proxies registered when the entry committed, names this proxy.  Raft may commit other
  entries of the service before and after the registration; at most 256 proxies exist.
\<close>

theorem registration_delivers_owned_namespaces:
  assumes "env_isLeader env" "raft_commits unmarshal (env_raftApply env)"
    and "codec_ok (env_marshal env) unmarshal"
    and "fsm_inv (cp_fsm s)" "partition_inv (cp_fsm s)"
    and "RegisterProxy env client pord nord req s = (Inr ack, s')"
    and "map_order pord (st_proxies (fsm_state (cp_fsm s')))"
    and "map_order nord (st_namespaces (fsm_state (cp_fsm s')))"
    and "card (dom (st_proxies (fsm_state (cp_fsm s')))) \<le> 256"
  shows "na_namespace ` set (pra_initial_namespaces ack) =
    {n \<in> dom (st_namespaces (fsm_state (cp_fsm s'))).
       GetProxyForPartitionFromSet (HashNamespace n) (GetAllProxies pord (cp_fsm s')) = Inr (reg_proxy_id req)}"
proof -
  let ?fsm = "cp_fsm s'" let ?ns = "st_namespaces (fsm_state ?fsm)"
  let ?ps = "GetAllProxies pord ?fsm" and ?cmd = "registerProxyCommand (env_now env) req"
  obtain u where p: "proposeCommand env ?cmd s = (Inr u, s')"
    and ack: "pra_initial_namespaces ack =
      getNamespacesForRanges nord (ComputeRangesFromProxySet (reg_proxy_id req) ?ps) ?fsm"
    using assms(1,6) by (auto simp: RegisterProxy_def computePartitionRanges_def Let_def split: prod.splits sum.splits)
  obtain pre t h e post where c: "unmarshal (log_data e) = Some ?cmd" "service_log unmarshal (pre @ post)"
    "?fsm = replay unmarshal (pre @ (t, h, e) # post) (cp_fsm s)"
    using proposeCommand_ok [OF p assms(2,3)] by blast
  have inv: "fsm_inv ?fsm" "partition_inv ?fsm"
    using commit_inv [OF c(1,2) _ assms(4,5), of t h] by (simp_all add: c(3) service_command_def registerProxyCommand_def del: replay_simps)
  have "reg_proxy_id req \<in> dom (st_proxies (fsm_state ?fsm))"
    using replay_last_proxy [of unmarshal e ?cmd _ pre t h post "cp_fsm s"] c(1)
    by (simp add: c(3) registerProxyCommand_def del: replay_simps)
  then have v: "valid_proxy_set ?ps" using valid_GetAllProxies [OF inv(1) assms(7) _ assms(9)] by auto
  have "na_namespace ` set (pra_initial_namespaces ack) =
      {ns_name e |e. e \<in> ran ?ns \<and> (\<exists>r \<in> set (ComputeRangesFromProxySet (reg_proxy_id req) ?ps). in_range r (ns_partition_id e))}"
    unfolding ack getNamespacesForRanges_def using map_order_values(1) [OF assms(8)]
    by (auto simp: in_range_def image_iff) blast
  also have "\<dots> = {n \<in> dom ?ns. \<exists>r \<in> set (ComputeRangesFromProxySet (reg_proxy_id req) ?ps). in_range r (HashNamespace n)}"
    using inv by (fastforce simp: ran_def fsm_inv_def state_inv_def partition_inv_def dest: keyedD)
  finally show ?thesis
    using pm.owner_ranges [OF v] HashNamespace_range by simp
qed


lemma forward_fsm: "cp_fsm (snd (forward rpc env client s)) = cp_fsm s"
  by (auto simp: forward_def GetConnection_def split: option.split sum.split)

text \<open>
  A node that is not the leader never changes its state machine from a request; it
  forwards the request or schedules its forwarding.
\<close>

theorem follower_never_writes:
  assumes "\<not> env_isLeader env"
  shows "cp_fsm (snd (RegisterProxy env c1 pord nord r1 s)) = cp_fsm s
    \<and> cp_fsm (snd (CreateNamespace env c2 pord r2 s)) = cp_fsm s
    \<and> cp_fsm (snd (RegisterLauncher env c3 r3 s)) = cp_fsm s
    \<and> cp_fsm (snd (Heartbeat env r4 s)) = cp_fsm s
    \<and> cp_fsm (snd (LauncherHeartbeat env r5 s)) = cp_fsm s"
  using assms by (simp add: RegisterProxy_def CreateNamespace_def RegisterLauncher_def Heartbeat_def
      LauncherHeartbeat_def forwardRegisterProxy_def forwardCreateNamespace_def
      forwardRegisterLauncher_def spawn_def forward_fsm)

definition demo_registration :: ProxyRegistration where
  "demo_registration = \<lparr>reg_proxy_id = ''p1'', reg_address = ''a'', reg_region = ''r'',
     reg_version = ''v'', reg_capabilities = [], reg_metadata = Map.empty\<rparr>"

definition demo_creation :: CreateNamespaceRequest where
  "demo_creation = \<lparr>cnr_namespace = ''orders'', cnr_requesting_proxy = ''p1'', cnr_config = None,
     cnr_principal = ''alice''\<rparr>"

text \<open>A one-node cluster: committing is applying, and one command is encodable.\<close>

definition demo_unmarshal :: "Command \<Rightarrow> bytes \<Rightarrow> Command option" where
  "demo_unmarshal cmd = (\<lambda>_. Some cmd)"

definition demo_env :: "Command \<Rightarrow> unit cp_env" where
  "demo_env cmd = \<lparr>env_isLeader = True, env_leaderWithID = ''admin-01:8990'', env_now = 7,
     env_raftApply = (\<lambda>data fsm. (True, snd (Apply (demo_unmarshal cmd) 7 7
        \<lparr>log_index = 1, log_term = 1, log_data = data\<rparr> fsm))),
     env_marshal = (\<lambda>c. if c = cmd then Some ''x'' else None),
     env_dial = (\<lambda>_. Some ())\<rparr>"

definition demo_orders :: NamespaceEntry where
  "demo_orders = \<lparr>ns_name = ''orders'', ns_description = [], ns_partition_id = HashNamespace ''orders'',
     ns_assigned_proxy = ''p1'', ns_config = Map.empty, ns_created_by = ''alice'',
     ns_created_at = 1, ns_updated_at = 1\<rparr>"

definition demo_service :: "unit ControlPlaneServiceRaft" where
  "demo_service = \<lparr>cp_fsm = (NewAdminStateMachine None None)\<lparr>fsm_state :=
       (fsm_state (NewAdminStateMachine None None))\<lparr>st_namespaces := [''orders'' \<mapsto> demo_orders],
         st_proxies := [''p1'' \<mapsto> new_proxy_entry ''p1'']\<rparr>\<rparr>,
     cp_conns = Map.empty, cp_proposals = Some [], cp_forwarded = Some [], cp_tasks = []\<rparr>"

lemma demo_env_ok:
  "raft_commits (demo_unmarshal cmd) (env_raftApply (demo_env cmd))"
  "codec_ok (env_marshal (demo_env cmd)) (demo_unmarshal cmd)"
  "env_isLeader (demo_env cmd)" "env_now (demo_env cmd) = 7"
proof -
  have "\<exists>pre t u e post. log_data e = data \<and> fsm' = replay (demo_unmarshal cmd) (pre @ (t, u, e) # post) fsm
      \<and> service_log (demo_unmarshal cmd) (pre @ post)"
    if "env_raftApply (demo_env cmd) data fsm = (True, fsm')" for data fsm fsm'
    using that
    by (intro exI [of _ "[]"] exI [of _ 7] exI [of _ "\<lparr>log_index = 1, log_term = 1, log_data = data\<rparr>"])
      (simp add: demo_env_def apply_entry_def service_log_def)
  then show "raft_commits (demo_unmarshal cmd) (env_raftApply (demo_env cmd))"
    by (auto simp: raft_commits_def)
qed (simp_all add: demo_env_def codec_ok_def demo_unmarshal_def)

lemma demo_service_inv: "fsm_inv (cp_fsm demo_service)" "partition_inv (cp_fsm demo_service)"
  by (auto simp: demo_service_def fsm_inv_def state_inv_def partition_inv_def keyed_def demo_orders_def
      new_proxy_entry_def NewAdminStateMachine_def int64_def)

lemma single_proxy_owner:
  "px_proxy_id e = k \<Longrightarrow> GetProxyForPartitionFromSet (HashNamespace n) [e] = Inr k"
  using HashNamespace_range [of n]
  by (simp add: GetProxyForPartitionFromSet_owner owner_index_def sorted_proxy_ids_def)

theorem registration_delivers_owned_namespaces_witness:
  "\<exists>ack s'. RegisterProxy (demo_env (registerProxyCommand 7 demo_registration)) (\<lambda>_. Inl [])
       [''p1''] [''orders''] demo_registration demo_service = (Inr ack, s')
     \<and> na_namespace ` set (pra_initial_namespaces ack) = {''orders''}"
proof -
  let ?cmd = "registerProxyCommand 7 demo_registration"
  obtain ack s' where r: "RegisterProxy (demo_env ?cmd) (\<lambda>_. Inl []) [''p1''] [''orders'']
      demo_registration demo_service = (Inr ack, s')"
    and s': "cp_fsm s' = snd (Apply (demo_unmarshal ?cmd) 7 7 \<lparr>log_index = 1, log_term = 1, log_data = ''x''\<rparr> (cp_fsm demo_service))"
    by (simp add: RegisterProxy_def proposeCommand_def Propose_def demo_env_def Let_def)
  obtain e where p: "st_proxies (fsm_state (cp_fsm s')) = [''p1'' \<mapsto> e]" "px_proxy_id e = ''p1''"
    and n: "st_namespaces (fsm_state (cp_fsm s')) = [''orders'' \<mapsto> demo_orders]"
    by (simp add: s' Apply_def demo_unmarshal_def registerProxyCommand_def dispatch_def applyRegisterProxy_def
        mark_applied_def demo_service_def demo_registration_def new_proxy_entry_def Let_def)
  have "na_namespace ` set (pra_initial_namespaces ack) =
    {n \<in> dom (st_namespaces (fsm_state (cp_fsm s'))).
       GetProxyForPartitionFromSet (HashNamespace n) (GetAllProxies [''p1''] (cp_fsm s')) = Inr (reg_proxy_id demo_registration)}"
    using registration_delivers_owned_namespaces [OF demo_env_ok(3,1,2) demo_service_inv r] p n
    by (simp add: map_order_def)
  also have "\<dots> = {''orders''}"
    using p(2) by (auto simp: n p(1) GetAllProxies_def single_proxy_owner demo_registration_def)
  finally show ?thesis using r by blast
qed


theorem follower_never_writes_witness:
  "cp_fsm (snd (Heartbeat ((demo_env demo_command)\<lparr>env_isLeader := False\<rparr>)
      \<lparr>hb_proxy_id = ''p1'', hb_resources = None, hb_timestamp = 3\<rparr> demo_service)) = cp_fsm demo_service"
  using follower_never_writes [of "(demo_env demo_command)\<lparr>env_isLeader := False\<rparr>"] by simp

lemma first_index_append:
  "x \<notin> set xs \<Longrightarrow> first_index x (xs @ x # ys) = Some (length xs)"
  by (induction xs) auto

lemma SplitHost_plain:
  assumes "set host \<inter> {CHR '':'', CHR ''['', CHR '']''} = {}" "set port \<inter> {CHR '':'', CHR ''['', CHR '']''} = {}"
  shows "SplitHost (host @ CHR '':'' # port) = Some host"
proof -
  have "last_index (CHR '':'') (host @ CHR '':'' # port) = Some (length host)"
    using assms(2) first_index_append [of "CHR '':''" "rev port" "rev host"]
    by (simp add: last_index_def)
  moreover have "hd (host @ CHR '':'' # port) \<noteq> CHR ''[''" using assms(1) by (cases host) auto
  ultimately show ?thesis using assms by (auto simp: SplitHost_def)
qed

text \<open>
  When the leader's Raft address is a plain \<open>host:port\<close>, a follower forwards to the
  control-plane port 8980 of the same host.
\<close>

theorem leader_address_same_host:
  assumes "env_leaderWithID env = host @ CHR '':'' # port"
    and "set host \<inter> {CHR '':'', CHR ''['', CHR '']''} = {}" "set port \<inter> {CHR '':'', CHR ''['', CHR '']''} = {}"
  shows "GetLeaderAddr env = host @ '':8980''"
  using assms by (simp add: GetLeaderAddr_def Let_def SplitHost_plain)

theorem leader_address_same_host_witness: "GetLeaderAddr (demo_env demo_command) = ''admin-01:8980''"
  using leader_address_same_host [of "demo_env demo_command" "''admin-01''" "''8990''"]
  by (simp add: demo_env_def)

end
