(* ===== verification/Work_Queue.thy ===== *)
theory Work_Queue
  imports Prism_Prelude
begin

text \<open>
  The delay queue of the process manager (\<open>pkg/procmgr/workqueue.go\<close>): a binary min-heap of
  work items ordered by the instant they become ready, kept in a slice and maintained by
  \<open>container/heap\<close>, whose \<open>up\<close>, \<open>down\<close>, \<open>Fix\<close>, \<open>Push\<close> and \<open>Pop\<close> are written out with the
  queue's own \<open>Less\<close>, \<open>Swap\<close>, \<open>Push\<close> and \<open>Pop\<close>.  The one-place notification channel is a
  boolean.  The abstract queue is a finite map from process identifiers to instants.

  Jitter and exponential backoff compute on \<open>float64\<close>; rounding is an argument \<open>fl\<close>, and so
  is the result \<open>oob\<close> of converting a float that does not fit \<open>int64\<close>, which the Go
  specification leaves to the implementation.
\<close>

subsection \<open>The heap\<close>

record workItem =
  wi_id :: string
  wi_readyAt :: go_time
  wi_priority :: int
  wi_index :: int

type_synonym workItemHeap = "workItem list"

definition heap_less :: "workItemHeap \<Rightarrow> nat \<Rightarrow> nat \<Rightarrow> bool" where
  "heap_less h i j \<longleftrightarrow> wi_readyAt (h ! i) < wi_readyAt (h ! j)"

definition heap_swap :: "nat \<Rightarrow> nat \<Rightarrow> workItemHeap \<Rightarrow> workItemHeap" where
  "heap_swap i j h = h[i := (h ! j)\<lparr>wi_index := int i\<rparr>, j := (h ! i)\<lparr>wi_index := int j\<rparr>]"

function heap_up :: "nat \<Rightarrow> workItemHeap \<Rightarrow> workItemHeap" where
  "heap_up j h =
    (let i = (j - 1) div 2
     in if i = j \<or> \<not> heap_less h j i then h else heap_up i (heap_swap i j h))"
  by pat_completeness auto
termination by (relation "measure fst") auto

function heap_down :: "nat \<Rightarrow> nat \<Rightarrow> workItemHeap \<Rightarrow> nat \<times> workItemHeap" where
  "heap_down i n h =
    (let j1 = 2 * i + 1
     in if j1 \<ge> n then (i, h)
        else let j = (if j1 + 1 < n \<and> heap_less h (j1 + 1) j1 then j1 + 1 else j1)
             in if \<not> heap_less h j i then (i, h) else heap_down j n (heap_swap i j h))"
  by pat_completeness auto
termination by (relation "measure (\<lambda>(i, n, h). n - i)") (auto simp: Let_def split: if_splits)

declare heap_up.simps [simp del] heap_down.simps [simp del]

definition heap_Fix :: "nat \<Rightarrow> workItemHeap \<Rightarrow> workItemHeap" where
  "heap_Fix i h =
    (let (i', h') = heap_down i (length h) h in if i' > i then h' else heap_up i h')"

definition heap_Push :: "workItem \<Rightarrow> workItemHeap \<Rightarrow> workItemHeap" where
  "heap_Push item h =
    (let h' = h @ [item\<lparr>wi_index := int (length h)\<rparr>] in heap_up (length h' - 1) h')"

definition heap_Pop :: "workItemHeap \<Rightarrow> workItem \<times> workItemHeap" where
  "heap_Pop h =
    (let n = length h - 1;
         h' = snd (heap_down 0 n (heap_swap 0 n h))
     in ((last h')\<lparr>wi_index := -1\<rparr>, butlast h'))"

subsection \<open>The queue\<close>

record workQueue =
  wq_items :: workItemHeap
  wq_notifyCh :: bool

definition NewWorkQueue :: workQueue where
  "NewWorkQueue = \<lparr>wq_items = [], wq_notifyCh = False\<rparr>"

definition wq_notify :: "workQueue \<Rightarrow> workQueue" where
  "wq_notify wq = wq\<lparr>wq_notifyCh := True\<rparr>"

definition Enqueue :: "go_time \<Rightarrow> string \<Rightarrow> duration \<Rightarrow> workQueue \<Rightarrow> workQueue" where
  "Enqueue now pid delay wq =
    (let readyAt = now + delay; items = wq_items wq
     in case first_index pid (map wi_id items) of
          Some k \<Rightarrow>
            wq_notify (if readyAt < wi_readyAt (items ! k)
              then wq\<lparr>wq_items := heap_Fix (nat (wi_index (items ! k)))
                     (items[k := (items ! k)\<lparr>wi_readyAt := readyAt\<rparr>])\<rparr>
              else wq)
        | None \<Rightarrow>
            wq_notify (wq\<lparr>wq_items :=
              heap_Push \<lparr>wi_id = pid, wi_readyAt = readyAt, wi_priority = 0, wi_index = 0\<rparr> items\<rparr>))"

definition Dequeue :: "go_time \<Rightarrow> workQueue \<Rightarrow> string option \<times> workQueue" where
  "Dequeue now wq =
    (case wq_items wq of
       [] \<Rightarrow> (None, wq)
     | item # _ \<Rightarrow>
         if now < wi_readyAt item then (None, wq)
         else (Some (wi_id item), wq\<lparr>wq_items := snd (heap_Pop (wq_items wq))\<rparr>))"

definition wq_Len :: "workQueue \<Rightarrow> nat" where
  "wq_Len wq = length (wq_items wq)"

subsection \<open>Delays\<close>

definition float_to_int64 :: "(real \<Rightarrow> int) \<Rightarrow> real \<Rightarrow> int" where
  "float_to_int64 oob x =
    (let t = (if x \<ge> 0 then \<lfloor>x\<rfloor> else \<lceil>x\<rceil>)
     in if - (2 ^ 63) \<le> t \<and> t < 2 ^ 63 then t else oob x)"

text \<open>\<open>rnd\<close> is the value \<open>Float64\<close> draws, in the half-open unit interval.\<close>

definition Jitter :: "(real \<Rightarrow> real) \<Rightarrow> (real \<Rightarrow> int) \<Rightarrow> real \<Rightarrow> duration \<Rightarrow> real \<Rightarrow> duration" where
  "Jitter fl oob rnd d jitterFraction =
    (if jitterFraction \<le> 0 then d
     else let f = (if jitterFraction > 1 then 1 else jitterFraction);
              jitter = fl (rnd * f);
              multiplier = fl (fl (1 + fl (jitter * 2)) - f)
          in float_to_int64 oob (fl (fl (of_int d) * multiplier)))"

definition backoff_delay :: "(real \<Rightarrow> real) \<Rightarrow> (real \<Rightarrow> int) \<Rightarrow> int \<Rightarrow> duration \<Rightarrow> duration \<Rightarrow> duration" where
  "backoff_delay fl oob attempt baseDelay maxDelay =
    (let a = (if attempt < 0 then 0 else attempt);
         multiplier = fl (2 ^ nat a);
         delay = float_to_int64 oob (fl (fl (of_int baseDelay) * multiplier))
     in if delay > maxDelay then maxDelay else delay)"

definition ExponentialBackoff :: "(real \<Rightarrow> real) \<Rightarrow> (real \<Rightarrow> int) \<Rightarrow> real \<Rightarrow> int \<Rightarrow> duration \<Rightarrow> duration \<Rightarrow> duration" where
  "ExponentialBackoff fl oob rnd attempt baseDelay maxDelay =
    Jitter fl oob rnd (backoff_delay fl oob attempt baseDelay maxDelay) (1 / 4)"

subsection \<open>Heap order\<close>

definition parent :: "nat \<Rightarrow> nat" where "parent k = (k - 1) div 2"

abbreviation key :: "workItemHeap \<Rightarrow> nat \<Rightarrow> go_time" where "key h k \<equiv> wi_readyAt (h ! k)"

lemma parent_less: "0 < k \<Longrightarrow> parent k < k"
  by (auto simp: parent_def)

lemma parent_eq_iff: "0 < k \<Longrightarrow> parent k = i \<longleftrightarrow> k = 2 * i + 1 \<or> k = 2 * i + 2"
  by (auto simp: parent_def)

lemma heap_up_unfold:
  "heap_up j h = (if parent j = j \<or> \<not> heap_less h j (parent j) then h
     else heap_up (parent j) (heap_swap (parent j) j h))"
  by (subst heap_up.simps) (simp add: parent_def Let_def)

definition heap_on :: "nat \<Rightarrow> workItemHeap \<Rightarrow> bool" where
  "heap_on n h \<longleftrightarrow> (\<forall>k. 0 < k \<and> k < n \<longrightarrow> key h (parent k) \<le> key h k)"

text \<open>Heap order broken only between a node and its parent, or between a node and its children.\<close>

definition up_ok :: "nat \<Rightarrow> workItemHeap \<Rightarrow> bool" where
  "up_ok j h \<longleftrightarrow> (\<forall>k. 0 < k \<and> k < length h \<and> k \<noteq> j \<longrightarrow> key h (parent k) \<le> key h k)
    \<and> (\<forall>k. 0 < k \<and> k < length h \<and> parent k = j \<and> 0 < j \<longrightarrow> key h (parent j) \<le> key h k)"

definition down_ok :: "nat \<Rightarrow> nat \<Rightarrow> workItemHeap \<Rightarrow> bool" where
  "down_ok i n h \<longleftrightarrow> (\<forall>k. 0 < k \<and> k < n \<and> parent k \<noteq> i \<longrightarrow> key h (parent k) \<le> key h k)
    \<and> (\<forall>k. 0 < k \<and> k < n \<and> parent k = i \<and> 0 < i \<longrightarrow> key h (parent i) \<le> key h k)"

lemma length_heap_swap [simp]: "length (heap_swap i j h) = length h"
  by (simp add: heap_swap_def)

lemma key_heap_swap:
  "i < length h \<Longrightarrow> j < length h \<Longrightarrow>
    key (heap_swap i j h) k = (if k = i then key h j else if k = j then key h i else key h k)"
  by (auto simp: heap_swap_def nth_list_update)

lemma up_ok_swap:
  assumes "up_ok j h" "j < length h" "0 < j" and lt: "key h j < key h (parent j)"
  shows "up_ok (parent j) (heap_swap (parent j) j h)"
proof -
  obtain i where pi: "parent j = i" by blast
  have ij: "i < j" using parent_less [OF assms(3)] pi by simp
  then have i: "i < length h" using assms(2) by simp
  let ?h = "heap_swap i j h"
  note K = key_heap_swap [OF i assms(2)]
  have a: "key h (parent k) \<le> key h k" if "0 < k" "k < length h" "k \<noteq> j" for k
    using assms(1) that by (simp add: up_ok_def)
  have b: "key h i \<le> key h k" if "0 < k" "k < length h" "parent k = j" for k
    using assms(1,3) that pi by (simp add: up_ok_def)
  have "key ?h (parent k) \<le> key ?h k" if "0 < k" "k < length h" "k \<noteq> i" for k
    using a [of k] b [of k] that lt pi by (auto simp: K split: if_splits)
  moreover have "key ?h (parent i) \<le> key ?h k" if "0 < k" "k < length h" "parent k = i" "0 < i" for k
    using a [of i] a [of k] that i ij parent_less [OF \<open>0 < i\<close>] by (auto simp: K)
  ultimately show ?thesis by (auto simp: up_ok_def pi)
qed

lemma heap_up_correct: "up_ok j h \<Longrightarrow> j < length h \<Longrightarrow> heap_on (length h) (heap_up j h)"
proof (induction j arbitrary: h rule: less_induct)
  case (less j)
  show ?case
  proof (cases "parent j = j \<or> \<not> heap_less h j (parent j)")
    case True
    have "key h (parent k) \<le> key h k" if "0 < k" "k < length h" for k
      using less.prems True that parent_less [of k] by (cases "k = j") (auto simp: up_ok_def heap_less_def)
    then show ?thesis using True by (simp add: heap_up_unfold [of j] heap_on_def)
  next
    case False
    then have "0 < j" by (auto simp: parent_def)
    then have "up_ok (parent j) (heap_swap (parent j) j h)"
      using False less.prems by (intro up_ok_swap) (auto simp: heap_less_def)
    then show ?thesis
      using less.IH [of "parent j" "heap_swap (parent j) j h"] parent_less [OF \<open>0 < j\<close>] less.prems(2) False
      by (simp add: heap_up_unfold [of j])
  qed
qed

text \<open>The child that \<open>down\<close> compares with: the smaller one.\<close>

definition min_child :: "nat \<Rightarrow> workItemHeap \<Rightarrow> nat \<Rightarrow> nat" where
  "min_child n h i = (if 2 * i + 2 < n \<and> heap_less h (2 * i + 2) (2 * i + 1) then 2 * i + 2 else 2 * i + 1)"

lemma heap_down_unfold:
  "heap_down i n h =
    (if 2 * i + 1 \<ge> n \<or> \<not> heap_less h (min_child n h i) i then (i, h)
     else heap_down (min_child n h i) n (heap_swap i (min_child n h i) h))"
  by (subst heap_down.simps) (simp add: Let_def min_child_def)

lemma min_child_props:
  assumes "2 * i + 1 < n" "j = min_child n h i"
  shows "j < n" "0 < j" "parent j = i" "i < j"
    and "\<And>k. 0 < k \<Longrightarrow> k < n \<Longrightarrow> parent k = i \<Longrightarrow> key h j \<le> key h k"
proof -
  have j: "j = 2 * i + 1 \<or> j = 2 * i + 2" "j < n" using assms by (auto simp: min_child_def)
  then show "j < n" "0 < j" "parent j = i" "i < j" by (auto simp: parent_eq_iff)
  fix k assume "0 < k" "k < n" "parent k = i"
  then have "k = 2 * i + 1 \<or> k = 2 * i + 2" "k < n" using parent_eq_iff by blast+
  then show "key h j \<le> key h k" by (auto simp: assms(2) min_child_def heap_less_def)
qed

lemma down_ok_swap:
  assumes "down_ok i n h" "n \<le> length h" "j < n" "parent j = i" "0 < j" and lt: "key h j < key h i"
    and least: "\<And>k. 0 < k \<Longrightarrow> k < n \<Longrightarrow> parent k = i \<Longrightarrow> key h j \<le> key h k"
  shows "down_ok j n (heap_swap i j h)"
proof -
  have ij: "i < j" using parent_less [OF assms(5)] assms(4) by simp
  have l: "i < length h" "j < length h" using ij assms(2,3) by auto
  let ?h = "heap_swap i j h"
  note K = key_heap_swap [OF l]
  have a: "key h (parent k) \<le> key h k" if "0 < k" "k < n" "parent k \<noteq> i" for k
    using assms(1) that by (simp add: down_ok_def)
  have b: "key h (parent i) \<le> key h k" if "0 < k" "k < n" "parent k = i" "0 < i" for k
    using assms(1) that by (simp add: down_ok_def)
  have "key ?h (parent k) \<le> key ?h k" if k: "0 < k" "k < n" "parent k \<noteq> j" for k
  proof (cases "parent k = i")
    case True
    then show ?thesis using least [of k] lt k parent_less [of k] by (auto simp: K)
  next
    case False
    have "k = i \<Longrightarrow> key h (parent i) \<le> key h j" using b [of j] assms(3-5) k by simp
    then show ?thesis using a [of k] False k assms(4) by (auto simp: K)
  qed
  moreover have "key ?h (parent j) \<le> key ?h k" if k: "0 < k" "k < n" "parent k = j" for k
  proof -
    have "k \<noteq> i" "k \<noteq> j" using parent_less [of k] k ij by auto
    then show ?thesis using a [of k] k assms(4) ij by (auto simp: K)
  qed
  ultimately show ?thesis by (auto simp: down_ok_def)
qed

lemma down_ok_heap:
  assumes "down_ok i n h" "\<And>k. 0 < k \<Longrightarrow> k < n \<Longrightarrow> parent k = i \<Longrightarrow> key h i \<le> key h k"
  shows "heap_on n h"
  using assms by (auto simp: down_ok_def heap_on_def)

lemma heap_down_correct: "down_ok i n h \<Longrightarrow> n \<le> length h \<Longrightarrow> heap_on n (snd (heap_down i n h))"
proof (induction "n - i" arbitrary: i h rule: less_induct)
  case less
  define j where j: "j = min_child n h i"
  note eq = heap_down_unfold [of i n h, folded j]
  show ?case
  proof (cases "2 * i + 1 \<ge> n \<or> \<not> heap_less h j i")
    case True
    have "heap_on n h"
    proof (rule down_ok_heap [OF less.prems(1)])
      fix k assume k: "0 < k" "k < n" "parent k = i"
      then have "2 * i + 1 < n" by (auto simp: parent_eq_iff)
      then show "key h i \<le> key h k" using min_child_props(5) [OF _ j k] True by (simp add: heap_less_def)
    qed
    then show ?thesis by (simp only: eq True if_True snd_conv)
  next
    case False
    then have jn: "j < n" "0 < j" "parent j = i" "i < j" "key h j < key h i"
      using min_child_props(1-4) [OF _ j] by (auto simp: heap_less_def)
    have "down_ok j n (heap_swap i j h)"
      by (rule down_ok_swap) (use False less.prems jn min_child_props(5) [OF _ j] in auto)
    then have "heap_on n (snd (heap_down j n (heap_swap i j h)))"
      using less.hyps [of j "heap_swap i j h"] less.prems(2) jn by simp
    then show ?thesis by (simp only: eq False if_False)
  qed
qed

subsection \<open>Contents and positions\<close>

abbreviation entry :: "workItem \<Rightarrow> string \<times> go_time" where "entry x \<equiv> (wi_id x, wi_readyAt x)"

definition content :: "workItemHeap \<Rightarrow> (string \<times> go_time) multiset" where
  "content h = mset (map entry h)"

definition indexed :: "workItemHeap \<Rightarrow> bool" where
  "indexed h \<longleftrightarrow> (\<forall>k < length h. wi_index (h ! k) = int k)"

lemma heap_swap_content:
  assumes "i < length h" "j < length h"
  shows "content (heap_swap i j h) = content h"
proof -
  have "map entry (heap_swap i j h) = (map entry h)[i := map entry h ! j, j := map entry h ! i]"
    using assms by (simp add: heap_swap_def map_update)
  then show ?thesis using assms mset_swap [of j "map entry h" i] by (simp add: content_def)
qed

lemma heap_swap_indexed:
  "i < length h \<Longrightarrow> j < length h \<Longrightarrow> indexed h \<Longrightarrow> indexed (heap_swap i j h)"
  by (auto simp: indexed_def heap_swap_def nth_list_update)

lemma heap_up_keeps:
  "j < length h \<Longrightarrow> length (heap_up j h) = length h \<and> content (heap_up j h) = content h
    \<and> (indexed h \<longrightarrow> indexed (heap_up j h))"
proof (induction j arbitrary: h rule: less_induct)
  case (less j)
  show ?case
  proof (cases "parent j = j \<or> \<not> heap_less h j (parent j)")
    case True
    then show ?thesis by (simp add: heap_up_unfold [of j])
  next
    case False
    then have p: "parent j < j" using parent_less by (cases "0 < j") (auto simp: parent_def)
    then show ?thesis
      using less.IH [of "parent j" "heap_swap (parent j) j h"] False less.prems
        heap_swap_content [of "parent j" h j] heap_swap_indexed
      by (simp add: heap_up_unfold [of j])
  qed
qed

lemma heap_down_keeps:
  "i < n \<Longrightarrow> n \<le> length h \<Longrightarrow> length (snd (heap_down i n h)) = length h
    \<and> content (snd (heap_down i n h)) = content h
    \<and> (indexed h \<longrightarrow> indexed (snd (heap_down i n h)))
    \<and> (\<forall>k \<ge> n. snd (heap_down i n h) ! k = h ! k)"
proof (induction "n - i" arbitrary: i h rule: less_induct)
  case less
  define j where j: "j = min_child n h i"
  note eq = heap_down_unfold [of i n h, folded j]
  show ?case
  proof (cases "2 * i + 1 \<ge> n \<or> \<not> heap_less h j i")
    case True
    then show ?thesis by (simp only: eq if_True) simp
  next
    case False
    then have jn: "i < j" "j < n" using min_child_props(1,4) [OF _ j] by auto
    have l: "i < length h" "j < length h" using jn less.prems by auto
    have "heap_swap i j h ! k = h ! k" if "n \<le> k" for k using that jn by (simp add: heap_swap_def)
    then show ?thesis
      using less.hyps [of j "heap_swap i j h"] jn less.prems heap_swap_content [OF l] heap_swap_indexed [OF l]
      by (simp only: eq False if_False) simp
  qed
qed

lemma heap_on_up_ok:
  assumes "heap_on (length h) h" "j < length h" "t \<le> key h j"
  shows "up_ok j (h[j := (h ! j)\<lparr>wi_readyAt := t\<rparr>])"
proof -
  let ?h = "h[j := (h ! j)\<lparr>wi_readyAt := t\<rparr>]"
  have K: "key ?h k = (if k = j then t else key h k)" for k using assms(2) by (simp add: nth_list_update)
  have a: "key h (parent k) \<le> key h k" if "0 < k" "k < length h" for k
    using assms(1) that by (simp add: heap_on_def)
  have "key ?h (parent k) \<le> key ?h k" if "0 < k" "k < length h" "k \<noteq> j" for k
    using a [of k] that assms(3) by (auto simp: K)
  moreover have "key ?h (parent j) \<le> key ?h k" if k: "0 < k" "k < length h" "parent k = j" "0 < j" for k
  proof -
    have "k \<noteq> j" "parent j \<noteq> j" using parent_less [of k] parent_less [of j] k by auto
    then show ?thesis using a [of k] a [of j] k assms(2) by (auto simp: K)
  qed
  ultimately show ?thesis by (auto simp: up_ok_def)
qed

lemma heap_Fix_decrease:
  assumes "heap_on (length h) h" "j < length h" "t < key h j"
  defines "h' \<equiv> h[j := (h ! j)\<lparr>wi_readyAt := t\<rparr>]"
  shows "heap_on (length h) (heap_Fix j h')" "content (heap_Fix j h') = content h'"
    "indexed h' \<Longrightarrow> indexed (heap_Fix j h')" "length (heap_Fix j h') = length h"
proof -
  have K: "key h' k = (if k = j then t else key h k)" for k
    using assms(2) by (simp add: nth_list_update h'_def)
  have l: "length h' = length h" by (simp add: h'_def)
  have "\<not> heap_less h' (min_child (length h) h' j) j" if "2 * j + 1 < length h"
  proof -
    let ?c = "min_child (length h) h' j"
    note c = min_child_props(1-4) [OF that refl, of h']
    have "key h j \<le> key h ?c" using assms(1) c by (metis heap_on_def)
    then show ?thesis using assms(3) c(4) by (simp add: heap_less_def K)
  qed
  then have "heap_down j (length h) h' = (j, h')"
    using heap_down_unfold [of j "length h" h'] by (cases "2 * j + 1 < length h") auto
  then have fx: "heap_Fix j h' = heap_up j h'" by (simp add: heap_Fix_def l)
  have "up_ok j h'" unfolding h'_def by (rule heap_on_up_ok) (use assms in auto)
  then show "heap_on (length h) (heap_Fix j h')" "content (heap_Fix j h') = content h'"
    "indexed h' \<Longrightarrow> indexed (heap_Fix j h')" "length (heap_Fix j h') = length h"
    using heap_up_correct [of j h'] heap_up_keeps [of j h'] assms(2) fx l by auto
qed

lemma heap_Push_correct:
  assumes "heap_on (length h) h"
  shows "heap_on (Suc (length h)) (heap_Push x h)" "content (heap_Push x h) = add_mset (entry x) (content h)"
    "indexed h \<Longrightarrow> indexed (heap_Push x h)" "length (heap_Push x h) = Suc (length h)"
proof -
  let ?h = "h @ [x\<lparr>wi_index := int (length h)\<rparr>]"
  have p: "heap_Push x h = heap_up (length h) ?h" by (simp add: heap_Push_def Let_def)
  have "up_ok (length h) ?h"
  proof -
    have "key ?h (parent k) \<le> key ?h k" if "0 < k" "k < length h" for k
      using assms that parent_less [of k] by (simp add: heap_on_def nth_append)
    moreover have "\<not> (0 < k \<and> k < length ?h \<and> parent k = length h)" for k
      using parent_less [of k] by auto
    ultimately show ?thesis by (auto simp: up_ok_def)
  qed
  then show "heap_on (Suc (length h)) (heap_Push x h)" using heap_up_correct [of "length h" ?h] p by simp
  have "indexed ?h" if "indexed h" using that by (auto simp: indexed_def nth_append less_Suc_eq)
  then show "content (heap_Push x h) = add_mset (entry x) (content h)"
    "indexed h \<Longrightarrow> indexed (heap_Push x h)" "length (heap_Push x h) = Suc (length h)"
    using heap_up_keeps [of "length h" ?h] p by (auto simp: content_def)
qed

lemma heap_swap_0_down_ok:
  assumes "heap_on (length h) h" "length h = Suc n"
  shows "down_ok 0 n (heap_swap 0 n h)"
proof -
  have l: "0 < length h" "n < length h" using assms(2) by auto
  have "key (heap_swap 0 n h) (parent k) \<le> key (heap_swap 0 n h) k" if "0 < k" "k < n" "parent k \<noteq> 0" for k
    using assms that parent_less [of k] by (simp add: key_heap_swap [OF l] heap_on_def)
  then show ?thesis by (simp add: down_ok_def)
qed

lemma content_snoc: "xs \<noteq> [] \<Longrightarrow> content xs = add_mset (entry (last xs)) (content (butlast xs))"
  by (cases xs rule: rev_cases) (simp_all add: content_def)

lemma heap_Pop_correct:
  assumes "heap_on (length h) h" "length h = Suc n" "indexed h"
  shows "heap_on n (snd (heap_Pop h))" "entry (fst (heap_Pop h)) = entry (hd h)"
    "content h = add_mset (entry (hd h)) (content (snd (heap_Pop h)))"
    "indexed (snd (heap_Pop h))" "length (snd (heap_Pop h)) = n"
proof -
  have l: "0 < length h" "n < length h" using assms(2) by auto
  let ?s = "heap_swap 0 n h"
  let ?d = "snd (heap_down 0 n ?s)"
  have h: "h \<noteq> []" using assms(2) by auto
  have ns: "?s ! n = (hd h)\<lparr>wi_index := int n\<rparr>"
    using l by (simp add: heap_swap_def hd_conv_nth h)
  have d: "length ?d = Suc n \<and> content ?d = content h \<and> indexed ?d \<and> ?d ! n = ?s ! n"
  proof (cases "n = 0")
    case True
    then have "heap_down 0 n ?s = (0, ?s)" using heap_down_unfold [of 0 n ?s] by simp
    then show ?thesis
      using assms(2) heap_swap_content [OF l] heap_swap_indexed [OF l assms(3)] by simp
  next
    case False
    then show ?thesis
      using heap_down_keeps [of 0 n ?s] heap_swap_content [OF l] heap_swap_indexed [OF l assms(3)] assms(2)
      by simp
  qed
  then have "?d \<noteq> []" by auto
  moreover have "last ?d = (hd h)\<lparr>wi_index := int n\<rparr>" using last_conv_nth [OF calculation] d ns by simp
  ultimately have ne: "?d \<noteq> []" "last ?d = (hd h)\<lparr>wi_index := int n\<rparr>" by auto
  have P: "heap_Pop h = ((last ?d)\<lparr>wi_index := -1\<rparr>, butlast ?d)"
    by (simp add: heap_Pop_def Let_def assms(2))
  show "entry (fst (heap_Pop h)) = entry (hd h)" using P ne by simp
  show "content h = add_mset (entry (hd h)) (content (snd (heap_Pop h)))"
    using content_snoc [OF ne(1)] d P ne by simp
  show "indexed (snd (heap_Pop h))" "length (snd (heap_Pop h)) = n"
    using d P by (auto simp: indexed_def nth_butlast)
  have "heap_on n ?d"
    using heap_down_correct [OF heap_swap_0_down_ok [OF assms(1,2)]] assms(2) by simp
  then show "heap_on n (snd (heap_Pop h))"
    using d P by (auto simp: heap_on_def nth_butlast less_trans [OF parent_less])
qed

subsection \<open>Refinement of a finite map\<close>

definition wq_inv :: "workQueue \<Rightarrow> bool" where
  "wq_inv wq \<longleftrightarrow> heap_on (length (wq_items wq)) (wq_items wq) \<and> indexed (wq_items wq)
    \<and> distinct (map wi_id (wq_items wq))"

definition wq_abs :: "workQueue \<Rightarrow> (string \<rightharpoonup> go_time)" where
  "wq_abs wq = map_of (map entry (wq_items wq))"

lemma ids_content: "mset (map wi_id h) = image_mset fst (content h)"
  by (simp add: content_def multiset.map_comp o_def)

lemma distinct_ids_cong: "content h = content h' \<Longrightarrow> distinct (map wi_id h) = distinct (map wi_id h')"
  by (metis ids_content mset_eq_imp_distinct_iff)

lemma map_of_content:
  assumes "distinct (map wi_id h)"
  shows "map_of (map entry h) k = Some t \<longleftrightarrow> (k, t) \<in># content h"
  using assms by (subst map_of_eq_Some_iff) (auto simp: content_def o_def)

lemma wq_abs_iff: "wq_inv wq \<Longrightarrow> wq_abs wq k = Some t \<longleftrightarrow> (k, t) \<in># content (wq_items wq)"
  unfolding wq_abs_def by (rule map_of_content) (simp add: wq_inv_def)

lemma finite_wq_abs: "finite (dom (wq_abs wq))"
  by (simp add: wq_abs_def finite_dom_map_of)

lemma heap_hd_least:
  assumes "heap_on (length h) h" "k < length h"
  shows "key h 0 \<le> key h k"
  using assms(2)
proof (induction k rule: less_induct)
  case (less k)
  show ?case
  proof (cases "k = 0")
    case False
    then have "key h 0 \<le> key h (parent k)" using less.IH [of "parent k"] parent_less [of k] less.prems by auto
    also have "\<dots> \<le> key h k" using assms(1) False less.prems by (simp add: heap_on_def)
    finally show ?thesis .
  qed simp
qed

lemma nth_in_content: "k < length h \<Longrightarrow> entry (h ! k) \<in># content h"
  by (simp add: content_def)

lemma wq_inv_notify [simp]: "wq_inv (wq_notify wq) = wq_inv wq" "wq_abs (wq_notify wq) = wq_abs wq"
  by (simp_all add: wq_inv_def wq_abs_def wq_notify_def)

lemma content_cong:
  assumes "content h = content h'" "distinct (map wi_id h)"
  shows "distinct (map wi_id h')" "map_of (map entry h) = map_of (map entry h')"
proof -
  show d: "distinct (map wi_id h')" using assms distinct_ids_cong by blast
  show "map_of (map entry h) = map_of (map entry h')"
  proof
    fix k
    show "map_of (map entry h) k = map_of (map entry h') k"
      using map_of_content [OF assms(2), of k] map_of_content [OF d, of k] assms(1)
      by (metis not_None_eq)
  qed
qed

lemma map_of_update_nth:
  "distinct (map fst xs) \<Longrightarrow> k < length xs \<Longrightarrow> fst (xs ! k) = a \<Longrightarrow>
    map_of (xs[k := (a, t)]) = (map_of xs)(a \<mapsto> t)"
proof (induction xs arbitrary: k)
  case (Cons x xs)
  show ?case
  proof (cases k)
    case (Suc k')
    then have "fst (xs ! k') = a" "k' < length xs" "a \<in> fst ` set xs"
      using Cons.prems nth_mem by (auto simp: image_iff)
    moreover from this have "fst x \<noteq> a" using Cons.prems(1) by auto
    ultimately show ?thesis using Cons Suc by (auto simp: fun_eq_iff)
  qed (use Cons.prems in auto)
qed simp

lemma Enqueue_refines:
  assumes "wq_inv wq"
  shows "wq_inv (Enqueue now pid d wq) \<and> wq_abs (Enqueue now pid d wq) =
    (wq_abs wq)(pid \<mapsto> (case wq_abs wq pid of None \<Rightarrow> now + d | Some t \<Rightarrow> min t (now + d)))"
proof -
  let ?h = "wq_items wq"
  have inv: "heap_on (length ?h) ?h" "indexed ?h" "distinct (map wi_id ?h)" using assms by (auto simp: wq_inv_def)
  show ?thesis
  proof (cases "first_index pid (map wi_id ?h)")
    case None
    let ?x = "\<lparr>wi_id = pid, wi_readyAt = now + d, wi_priority = 0, wi_index = 0\<rparr>"
    let ?wq = "wq\<lparr>wq_items := heap_Push ?x ?h\<rparr>"
    note P = heap_Push_correct [OF inv(1), of ?x]
    have c: "content (?x # ?h) = content (heap_Push ?x ?h)" using P(2) by (simp add: content_def)
    have "distinct (map wi_id (?x # ?h))" using None inv(3) by simp
    note cc = content_cong [OF c this]
    have "wq_inv ?wq" using P inv(2) cc(1) by (simp add: wq_inv_def)
    moreover have "wq_abs ?wq = (wq_abs wq)(pid \<mapsto> now + d)" using cc(2) by (simp add: wq_abs_def)
    moreover have "wq_abs wq pid = None" using None by (auto simp: wq_abs_def map_of_eq_None_iff)
    ultimately show ?thesis using None by (simp add: Enqueue_def Let_def del: first_index_None)
  next
    case (Some k)
    then have k: "k < length ?h" "wi_id (?h ! k) = pid" using first_index_SomeD by fastforce+
    let ?t = "key ?h k"
    have abs: "wq_abs wq pid = Some ?t" using wq_abs_iff [OF assms] nth_in_content [OF k(1)] k(2) by simp
    show ?thesis
    proof (cases "now + d < ?t")
      case True
      let ?h' = "?h[k := (?h ! k)\<lparr>wi_readyAt := now + d\<rparr>]"
      let ?wq = "wq\<lparr>wq_items := heap_Fix k ?h'\<rparr>"
      note F = heap_Fix_decrease [OF inv(1) k(1) True]
      have "map wi_id ?h' = map wi_id ?h" using k(1) by (simp add: map_update list_update_same_conv)
      then have "distinct (map wi_id ?h')" using inv(3) by simp
      note cc = content_cong [OF F(2) [symmetric] this]
      have "indexed ?h'" using inv(2) k(1) by (auto simp: indexed_def nth_list_update)
      then have "wq_inv ?wq" using F cc(1) by (simp add: wq_inv_def)
      moreover have "wq_abs ?wq = (wq_abs wq)(pid \<mapsto> now + d)"
        using cc(2) map_of_update_nth [of "map entry ?h" k pid "now + d"] k inv(3)
        by (simp add: wq_abs_def map_update o_def)
      moreover have "nat (wi_index (?h ! k)) = k" using inv(2) k(1) by (simp add: indexed_def)
      ultimately show ?thesis using abs Some True by (simp add: Enqueue_def Let_def min_def)
    next
      case False
      then show ?thesis using assms abs Some by (auto simp: Enqueue_def Let_def min_def)
    qed
  qed
qed

lemma Dequeue_None:
  assumes "wq_inv wq" "Dequeue now wq = (None, wq')"
  shows "wq' = wq" "wq_abs wq k = Some t \<Longrightarrow> now < t"
proof -
  let ?h = "wq_items wq"
  show "wq' = wq" using assms(2) by (auto simp: Dequeue_def split: list.splits if_splits)
  assume "wq_abs wq k = Some t"
  then have "(k, t) \<in># content ?h" using wq_abs_iff [OF assms(1)] by simp
  then obtain i where i: "i < length ?h" "key ?h i = t" by (auto simp: content_def in_set_conv_nth)
  then have "now < key ?h 0" using assms(2) by (auto simp: Dequeue_def split: list.splits if_splits)
  then show "now < t" using heap_hd_least [of ?h i] assms(1) i by (simp add: wq_inv_def)
qed

lemma Dequeue_Some:
  assumes "wq_inv wq" "Dequeue now wq = (Some k, wq')"
  shows "wq_inv wq'" "wq_abs wq' = (wq_abs wq)(k := None)"
    "\<exists>t. wq_abs wq k = Some t \<and> t \<le> now \<and> (\<forall>k' t'. wq_abs wq k' = Some t' \<longrightarrow> t \<le> t')"
proof -
  let ?h = "wq_items wq"
  obtain x xs where h: "?h = x # xs" "\<not> now < wi_readyAt x" "k = wi_id x"
    "wq' = wq\<lparr>wq_items := snd (heap_Pop ?h)\<rparr>"
    using assms(2) by (auto simp: Dequeue_def split: list.splits if_splits)
  have inv: "heap_on (length ?h) ?h" "indexed ?h" "distinct (map wi_id ?h)" using assms by (auto simp: wq_inv_def)
  note P = heap_Pop_correct [OF inv(1) _ inv(2), of "length xs"]
  have c: "content ?h = content (x # snd (heap_Pop ?h))" using P(3) h(1) by (simp add: content_def)
  note cc = content_cong [OF c inv(3)]
  show "wq_inv wq'" using P cc(1) h by (simp add: wq_inv_def)
  show "wq_abs wq' = (wq_abs wq)(k := None)"
  proof -
    have "map_of (map entry (snd (heap_Pop ?h))) k = None"
      using cc(1) h(3) by (auto simp: map_of_eq_None_iff)
    then show ?thesis using cc(2) h(3,4) by (auto simp: wq_abs_def)
  qed
  have "key ?h 0 \<le> t'" if "wq_abs wq k' = Some t'" for k' t'
  proof -
    have "(k', t') \<in># content ?h" using that wq_abs_iff [OF assms(1)] by simp
    then obtain i where "i < length ?h" "key ?h i = t'" by (auto simp: content_def in_set_conv_nth)
    then show ?thesis using heap_hd_least [OF inv(1)] by metis
  qed
  then show "\<exists>t. wq_abs wq k = Some t \<and> t \<le> now \<and> (\<forall>k' t'. wq_abs wq k' = Some t' \<longrightarrow> t \<le> t')"
    using h by (auto simp: wq_abs_def)
qed

subsection \<open>The interface the process manager relies on\<close>

text \<open>
  Enqueueing keeps the earlier of two instants for a process; dequeueing returns a process
  whose instant is minimal and has come, or reports that none has.
\<close>

locale delay_queue =
  fixes enq :: "int \<Rightarrow> 'k \<Rightarrow> int \<Rightarrow> 'q \<Rightarrow> 'q"
    and deq :: "int \<Rightarrow> 'q \<Rightarrow> 'k option \<times> 'q"
    and abs :: "'q \<Rightarrow> ('k \<rightharpoonup> int)"
    and inv :: "'q \<Rightarrow> bool"
  assumes finite_abs: "finite (dom (abs q))"
    and enq_inv: "inv q \<Longrightarrow> inv (enq now k d q)"
    and enq_abs: "inv q \<Longrightarrow>
      abs (enq now k d q) = (abs q)(k \<mapsto> (case abs q k of None \<Rightarrow> now + d | Some t \<Rightarrow> min t (now + d)))"
    and deq_None: "inv q \<Longrightarrow> deq now q = (None, q') \<Longrightarrow> q' = q \<and> (\<forall>k t. abs q k = Some t \<longrightarrow> now < t)"
    and deq_Some: "inv q \<Longrightarrow> deq now q = (Some k, q') \<Longrightarrow>
      inv q' \<and> abs q' = (abs q)(k := None)
      \<and> (\<exists>t. abs q k = Some t \<and> t \<le> now \<and> (\<forall>k' t'. abs q k' = Some t' \<longrightarrow> t \<le> t'))"
begin

lemma deq_ready: "inv q \<Longrightarrow> abs q k = Some t \<Longrightarrow> t \<le> now \<Longrightarrow> \<exists>k' q'. deq now q = (Some k', q')"
  using deq_None [of q now] by (cases "deq now q"; cases "fst (deq now q)") fastforce+

lemma enq_then_deq:
  assumes "inv q" "now + d \<le> later"
  shows "\<exists>k' q'. deq later (enq now k d q) = (Some k', q')"
proof (rule deq_ready)
  show "inv (enq now k d q)" using assms(1) by (rule enq_inv)
  show "abs (enq now k d q) k = Some (case abs q k of None \<Rightarrow> now + d | Some t \<Rightarrow> min t (now + d))"
    using enq_abs [OF assms(1)] by simp
  show "(case abs q k of None \<Rightarrow> now + d | Some t \<Rightarrow> min t (now + d)) \<le> later"
    using assms(2) by (auto simp: min_def split: option.split)
qed

end

interpretation wq: delay_queue Enqueue Dequeue wq_abs wq_inv
proof unfold_locales
  show "finite (dom (wq_abs q))" for q by (rule finite_wq_abs)
  show "wq_inv q \<Longrightarrow> wq_inv (Enqueue now k d q)" for q now k d using Enqueue_refines by blast
  show "wq_inv q \<Longrightarrow> wq_abs (Enqueue now k d q) =
      (wq_abs q)(k \<mapsto> (case wq_abs q k of None \<Rightarrow> now + d | Some t \<Rightarrow> min t (now + d)))" for q now k d
    using Enqueue_refines by blast
  show "wq_inv q \<Longrightarrow> Dequeue now q = (None, q') \<Longrightarrow> q' = q \<and> (\<forall>k t. wq_abs q k = Some t \<longrightarrow> now < t)"
    for q now q' using Dequeue_None by blast
  show "wq_inv q \<Longrightarrow> Dequeue now q = (Some k, q') \<Longrightarrow> wq_inv q' \<and> wq_abs q' = (wq_abs q)(k := None)
      \<and> (\<exists>t. wq_abs q k = Some t \<and> t \<le> now \<and> (\<forall>k' t'. wq_abs q k' = Some t' \<longrightarrow> t \<le> t'))"
    for q now k q' using Dequeue_Some by blast
qed

text \<open>
  The loop of \<open>processWorkQueue\<close>: dequeue until nothing is ready.  Every iteration removes
  an item, so one more than the number of items is enough fuel.
\<close>

fun drain_ready :: "nat \<Rightarrow> go_time \<Rightarrow> workQueue \<Rightarrow> string list \<times> workQueue" where
  "drain_ready 0 now wq = ([], wq)"
| "drain_ready (Suc fuel) now wq =
    (case Dequeue now wq of
       (None, wq') \<Rightarrow> ([], wq')
     | (Some k, wq') \<Rightarrow> (let (ks, wq'') = drain_ready fuel now wq' in (k # ks, wq'')))"

lemma drain_ready_correct:
  assumes "wq_inv wq" "card (dom (wq_abs wq)) < fuel" "drain_ready fuel now wq = (ks, wq')"
  shows "wq_inv wq' \<and> distinct ks \<and> set ks = {k. \<exists>t. wq_abs wq k = Some t \<and> t \<le> now}
    \<and> sorted (map (\<lambda>k. the (wq_abs wq k)) ks)
    \<and> wq_abs wq' = (\<lambda>k. if k \<in> set ks then None else wq_abs wq k)"
  using assms
proof (induction fuel arbitrary: wq ks wq')
  case (Suc fuel)
  show ?case
  proof (cases "fst (Dequeue now wq)")
    case None
    then have d: "Dequeue now wq = (None, wq)" using wq.deq_None [OF Suc.prems(1)] by (metis prod.collapse)
    then have "ks = []" "wq' = wq" using Suc.prems(3) by auto
    moreover have "now < t" if "wq_abs wq k = Some t" for k t using wq.deq_None [OF Suc.prems(1) d] that by blast
    ultimately show ?thesis using Suc.prems(1) by fastforce
  next
    case (Some k)
    then obtain wq1 where d: "Dequeue now wq = (Some k, wq1)" by (metis prod.collapse)
    obtain ks' where r: "drain_ready fuel now wq1 = (ks', wq')" "ks = k # ks'"
      using Suc.prems(3) d by (auto split: prod.splits)
    note D = wq.deq_Some [OF Suc.prems(1) d]
    then obtain t where t: "wq_abs wq k = Some t" "t \<le> now" "\<And>k' t'. wq_abs wq k' = Some t' \<Longrightarrow> t \<le> t'" by blast
    have c: "card (dom (wq_abs wq1)) < fuel"
    proof -
      have "dom (wq_abs wq1) = dom (wq_abs wq) - {k}" using D by auto
      then show ?thesis
        using Suc.prems(2) wq.finite_abs [of wq] t(1) by (simp add: card_Diff_singleton domI)
          (metis card_gt_0_iff domI empty_iff less_Suc_eq_le Suc_pred less_eq_Suc_le)
    qed
    have IH: "wq_inv wq'" "distinct ks'" "set ks' = {k. \<exists>t. wq_abs wq1 k = Some t \<and> t \<le> now}"
      "sorted (map (\<lambda>k. the (wq_abs wq1 k)) ks')" "wq_abs wq' = (\<lambda>k. if k \<in> set ks' then None else wq_abs wq1 k)"
      using Suc.IH [OF _ c r(1)] D by simp_all
    have k: "k \<notin> set ks'" using IH(3) D by auto
    have m: "map (\<lambda>k. the (wq_abs wq1 k)) ks' = map (\<lambda>k. the (wq_abs wq k)) ks'"
      using k D by (auto simp: fun_upd_def)
    have "t \<le> the (wq_abs wq k')" if "k' \<in> set ks'" for k'
      using t(3) [of k'] that IH(3) D by (auto split: if_splits)
    moreover have "sorted (map (\<lambda>k. the (wq_abs wq k)) ks')" using IH(4) by (simp only: m)
    moreover have "set ks = {k. \<exists>t. wq_abs wq k = Some t \<and> t \<le> now}"
      using IH(3) t(1,2) D r(2) by (auto split: if_splits)
    moreover have "wq_abs wq' = (\<lambda>k. if k \<in> set ks then None else wq_abs wq k)"
      using IH(5) D r(2) by (auto simp: fun_eq_iff)
    ultimately show ?thesis using IH(1,2) k t(1) r(2) by simp
  qed
qed simp



subsection \<open>Delay arithmetic\<close>

text \<open>
  What IEEE rounding promises here: it is monotone and exact on the multiples of a quarter
  by a power of two whose mantissa fits 53 bits.
\<close>

definition float_ok :: "(real \<Rightarrow> real) \<Rightarrow> bool" where
  "float_ok fl \<longleftrightarrow> mono fl \<and> (\<forall>n k. \<bar>n\<bar> \<le> 2 ^ 53 \<longrightarrow> fl (of_int n * 2 ^ k / 4) = of_int n * 2 ^ k / 4)"

lemma float_exact: "float_ok fl \<Longrightarrow> \<bar>n\<bar> \<le> 2 ^ 53 \<Longrightarrow> fl (of_int n * 2 ^ k / 4) = of_int n * 2 ^ k / 4"
  by (simp add: float_ok_def)

lemma float_between:
  assumes "float_ok fl" "\<bar>m\<bar> \<le> 2 ^ 53" "\<bar>n\<bar> \<le> 2 ^ 53" "of_int m / 4 \<le> x" "x \<le> of_int n / 4"
  shows "of_int m / 4 \<le> fl x" "fl x \<le> of_int n / 4"
proof -
  have mono: "mono fl" using assms(1) by (simp add: float_ok_def)
  have "fl (of_int m / 4) \<le> fl x" "fl x \<le> fl (of_int n / 4)"
    using monoD [OF mono assms(4)] monoD [OF mono assms(5)] by auto
  then show "of_int m / 4 \<le> fl x" "fl x \<le> of_int n / 4"
    using float_exact [OF assms(1,2), of 0] float_exact [OF assms(1,3), of 0] by simp_all
qed

lemma jitter_quarter_bounds:
  assumes fl: "float_ok fl" and "0 \<le> rnd" "rnd < 1" "0 \<le> d" "d \<le> 2 ^ 50"
  shows "\<lfloor>3 * real_of_int d / 4\<rfloor> \<le> Jitter fl oob rnd d (1 / 4)"
    "Jitter fl oob rnd d (1 / 4) \<le> \<lfloor>5 * real_of_int d / 4\<rfloor>"
proof -
  define j where "j = fl (rnd * (1 / 4))"
  define t where "t = fl (1 + fl (j * 2))"
  define m where "m = fl (t - 1 / 4)"
  define y where "y = fl (of_int d * m)"
  have j: "0 \<le> j" "j \<le> 1 / 4"
    using float_between [OF fl, of 0 1 "rnd * (1 / 4)"] assms(2,3) by (simp_all add: j_def)
  have "0 \<le> fl (j * 2)" "fl (j * 2) \<le> 2 / 4"
    using float_between [OF fl, of 0 2 "j * 2"] j by simp_all
  then have t: "1 \<le> t" "t \<le> 6 / 4"
    using float_between [OF fl, of 4 6 "1 + fl (j * 2)"] by (simp_all add: t_def)
  have m: "3 / 4 \<le> m" "m \<le> 5 / 4"
    using float_between [OF fl, of 3 5 "t - 1 / 4"] t by (simp_all add: m_def)
  have "3 * real_of_int d / 4 \<le> of_int d * m" "of_int d * m \<le> 5 * real_of_int d / 4"
    using m assms(4) mult_left_mono [OF m(1), of "real_of_int d"] mult_left_mono [OF m(2), of "real_of_int d"]
    by auto
  then have y: "3 * real_of_int d / 4 \<le> y" "y \<le> 5 * real_of_int d / 4"
    using float_between [OF fl, of "3 * d" "5 * d" "of_int d * m"] assms(4,5) by (simp_all add: y_def)
  have "fl (of_int d) = of_int d" using float_exact [OF fl, of d 2] assms(4,5) by simp
  then have J: "Jitter fl oob rnd d (1 / 4) = float_to_int64 oob y"
    by (simp add: Jitter_def Let_def y_def m_def t_def j_def)
  have "0 \<le> y" using y(1) assms(4) by simp
  moreover have b: "\<lfloor>y\<rfloor> \<le> \<lfloor>5 * real_of_int d / 4\<rfloor>" "\<lfloor>3 * real_of_int d / 4\<rfloor> \<le> \<lfloor>y\<rfloor>" using y by (auto intro: floor_mono)
  moreover have "\<lfloor>y\<rfloor> < 2 ^ 63"
  proof -
    have "y < 2 ^ 63" using y(2) assms(5) by simp
    then show ?thesis by (simp add: floor_less_iff)
  qed
  moreover have "0 \<le> \<lfloor>y\<rfloor>" using \<open>0 \<le> y\<close> by simp
  ultimately have "Jitter fl oob rnd d (1 / 4) = \<lfloor>y\<rfloor>" using J by (simp add: float_to_int64_def Let_def)
  then show "\<lfloor>3 * real_of_int d / 4\<rfloor> \<le> Jitter fl oob rnd d (1 / 4)"
    "Jitter fl oob rnd d (1 / 4) \<le> \<lfloor>5 * real_of_int d / 4\<rfloor>"
    using b by simp_all
qed

lemma backoff_product:
  assumes "float_ok fl" "0 < base" "base \<le> 2 ^ 53" "0 \<le> attempt"
  shows "fl (fl (of_int base) * fl (2 ^ nat attempt)) = of_int (base * 2 ^ nat attempt)"
  using float_exact [OF assms(1), of base 2] float_exact [OF assms(1), of 1 "nat attempt + 2"]
    float_exact [OF assms(1), of base "nat attempt + 2"] assms(2,3)
  by (simp add: power_add)

lemma backoff_delay_exact:
  assumes "float_ok fl" "0 < base" "base \<le> 2 ^ 53" "0 \<le> attempt" "base * 2 ^ nat attempt < 2 ^ 63"
  shows "backoff_delay fl oob attempt base cap = min (base * 2 ^ nat attempt) cap"
proof -
  have "0 \<le> base * 2 ^ nat attempt" using assms(2) by simp
  then show ?thesis
    using backoff_product [OF assms(1-4)] assms(4,5)
    by (simp add: backoff_delay_def Let_def float_to_int64_def min_def del: of_int_mult)
qed

lemma NewWorkQueue_inv: "wq_inv NewWorkQueue" "wq_abs NewWorkQueue = Map.empty"
  by (simp_all add: wq_inv_def wq_abs_def NewWorkQueue_def heap_on_def indexed_def)

subsection \<open>Properties\<close>

text \<open>
  C9: \<open>Enqueue\<close> keeps the queue well formed (heap order, correct indices, one item per
  process) and refines the map update: a new process gets its instant, a process already
  queued keeps the earlier of the two.
\<close>

theorem enqueue_keeps_earliest:
  assumes "wq_inv wq"
  shows "wq_inv (Enqueue now pid d wq) \<and> wq_abs (Enqueue now pid d wq) =
    (wq_abs wq)(pid \<mapsto> (case wq_abs wq pid of None \<Rightarrow> now + d | Some t \<Rightarrow> min t (now + d)))"
  using wq.enq_inv [OF assms] wq.enq_abs [OF assms] by blast

theorem enqueue_keeps_earliest_witness:
  "wq_inv (Enqueue 5 ''b'' 10 NewWorkQueue) \<and> wq_abs (Enqueue 5 ''b'' 10 NewWorkQueue) = [''b'' \<mapsto> 15]"
  using enqueue_keeps_earliest [OF NewWorkQueue_inv(1), of 5 "''b''" 10] NewWorkQueue_inv(2) by simp

text \<open>
  C8: Draining the queue at an instant, as the consumer does, ends within one step more than
  there are items; it returns every process that is ready and no other, each once, in the
  order of their instants, and leaves exactly the rest queued.
\<close>

theorem drain_returns_ready:
  assumes "wq_inv wq" "card (dom (wq_abs wq)) < fuel" "drain_ready fuel now wq = (ks, wq')"
  shows "wq_inv wq' \<and> distinct ks \<and> set ks = {k. \<exists>t. wq_abs wq k = Some t \<and> t \<le> now}
    \<and> sorted (map (\<lambda>k. the (wq_abs wq k)) ks)
    \<and> wq_abs wq' = (\<lambda>k. if k \<in> set ks then None else wq_abs wq k)"
  using assms by (rule drain_ready_correct)

theorem drain_returns_ready_witness:
  "set (fst (drain_ready 2 20 (Enqueue 5 ''b'' 10 NewWorkQueue))) = {''b''}"
proof -
  let ?q = "Enqueue 5 ''b'' 10 NewWorkQueue"
  have q: "wq_inv ?q" "wq_abs ?q = [''b'' \<mapsto> 15]"
    using wq.enq_inv [OF NewWorkQueue_inv(1)] wq.enq_abs [OF NewWorkQueue_inv(1), of 5 "''b''" 10]
      NewWorkQueue_inv(2) by simp_all
  obtain ks q' where d: "drain_ready 2 20 ?q = (ks, q')" by fastforce
  have "set ks = {k. \<exists>t. wq_abs ?q k = Some t \<and> t \<le> 20}"
    using drain_returns_ready [OF q(1) _ d] by (simp add: q(2))
  then show ?thesis using d by (auto simp: q(2))
qed


lemma float_ok_id: "float_ok (\<lambda>x. x)"
  by (simp add: float_ok_def mono_def)


text \<open>
  Beyond that range the cap is lost.  Where converting a float that is too large gives the
  least \<open>int64\<close>, as on amd64, the delay before jitter is that value: from 34 consecutive
  failures on, a base delay of one second gives a negative delay instead of the cap.
\<close>

theorem backoff_overflow:
  assumes "float_ok fl" "0 < base" "base \<le> 2 ^ 53" "0 \<le> attempt" "2 ^ 63 \<le> base * 2 ^ nat attempt"
    and "\<And>x. x \<ge> 2 ^ 63 \<Longrightarrow> oob x = - (2 ^ 63)" "0 \<le> cap"
  shows "backoff_delay fl oob attempt base cap = - (2 ^ 63)"
proof -
  have "real_of_int (base * 2 ^ nat attempt) \<ge> real_of_int (2 ^ 63)" using assms(5) by (simp only: of_int_le_iff)
  then have "oob (real_of_int (base * 2 ^ nat attempt)) = - (2 ^ 63)" using assms(6) by simp
  moreover have "0 \<le> base * 2 ^ nat attempt" using assms(2) by simp
  ultimately show ?thesis
    using backoff_product [OF assms(1-4)] assms(4,5,7)
    by (simp add: backoff_delay_def Let_def float_to_int64_def del: of_int_mult)
qed

theorem backoff_overflow_witness:
  "backoff_delay (\<lambda>x. x) (\<lambda>_. - (2 ^ 63)) 34 1000000000 5000000000 = - (2 ^ 63)"
  using backoff_overflow [OF float_ok_id, of 1000000000 34 "\<lambda>_. - (2 ^ 63)" 5000000000] by simp

end
