(* ===== verification/Proc_Manager.thy ===== *)
theory Proc_Manager
  imports Work_Queue
begin

text \<open>
  The process manager (\<open>pkg/procmgr/types.go\<close> and \<open>manager.go\<close>), with its concurrency.  The
  status objects live in a store addressed by naturals, because workers keep a pointer to
  the status they started on while the map from identifiers to statuses may change.  Every
  critical section under \<open>pm.mu\<close> is one function on the manager; between two of them a
  goroutine is at a program point recorded in its entry of \<open>pm_workers\<close> (or in
  \<open>pm_consumer\<close>), and \<open>pm_step\<close> runs one section of one goroutine.  A one-place channel is a
  boolean.  The clock \<open>pm_clock\<close> only moves forward and starts after the zero time.  The
  process-specific configuration is a type parameter.  The calls on the metrics collector
  are kept in order whatever collector is installed, log lines are left out, and the result
  of a call into the syncer is part of the action that returns from it.  The readings of
  the clock inside one section are one reading, error counters do not overflow, and the
  \<open>default\<close> branch of \<open>executeSync\<close> is absent because \<open>State\<close> returns only the five states.
\<close>

subsection \<open>Types\<close>

datatype ProcessState =
    ProcessStateStarting
  | ProcessStateSyncing
  | ProcessStateTerminating
  | ProcessStateTerminated
  | ProcessStateFinished

datatype UpdateType =
    UpdateTypeCreate
  | UpdateTypeUpdate
  | UpdateTypeSync
  | UpdateTypeTerminate
  | UpdateTypeOther int

datatype sync_error = ContextCanceled | ContextDeadlineExceeded | NoSyncerConfigured | SyncerError string

record TerminateOptions =
  to_CompletedCh :: "nat option"
  to_Evict :: bool
  to_GracePeriodSecs :: "int option"
  to_StatusFunc :: "nat option"

record 'c ProcessUpdate =
  pu_ID :: string
  pu_UpdateType :: UpdateType
  pu_StartTime :: go_time
  pu_Config :: "'c option"
  pu_TerminateOptions :: "TerminateOptions option"

text \<open>\<open>ps_ctx\<close> is \<open>None\<close> while no context exists, and otherwise tells whether it was cancelled.\<close>

record 'c processStatus =
  ps_ctx :: "bool option"
  ps_working :: bool
  ps_pending :: "'c ProcessUpdate option"
  ps_active :: "'c ProcessUpdate option"
  ps_syncedAt :: go_time
  ps_startedAt :: go_time
  ps_terminatingAt :: go_time
  ps_terminatedAt :: go_time
  ps_finishedAt :: go_time
  ps_gracePeriod :: int
  ps_evicted :: bool
  ps_finished :: bool
  ps_errorCount :: int
  ps_lastError :: "sync_error option"
  ps_restartCount :: int
  ps_consecutiveFails :: int

definition new_processStatus :: "'c processStatus" where
  "new_processStatus = \<lparr>ps_ctx = None, ps_working = False, ps_pending = None, ps_active = None,
     ps_syncedAt = 0, ps_startedAt = 0, ps_terminatingAt = 0, ps_terminatedAt = 0, ps_finishedAt = 0,
     ps_gracePeriod = 0, ps_evicted = False, ps_finished = False, ps_errorCount = 0,
     ps_lastError = None, ps_restartCount = 0, ps_consecutiveFails = 0\<rparr>"

definition State :: "'c processStatus \<Rightarrow> ProcessState" where
  "State ps =
    (if ps_finishedAt ps \<noteq> 0 then ProcessStateFinished
     else if ps_terminatedAt ps \<noteq> 0 then ProcessStateTerminated
     else if ps_terminatingAt ps \<noteq> 0 then ProcessStateTerminating
     else if ps_syncedAt ps \<noteq> 0 then ProcessStateSyncing
     else ProcessStateStarting)"

definition IsTerminating :: "'c processStatus \<Rightarrow> bool" where
  "IsTerminating ps \<longleftrightarrow> ps_terminatingAt ps \<noteq> 0"

definition IsTerminated :: "'c processStatus \<Rightarrow> bool" where
  "IsTerminated ps \<longleftrightarrow> ps_terminatedAt ps \<noteq> 0"

definition IsFinished :: "'c processStatus \<Rightarrow> bool" where
  "IsFinished ps \<longleftrightarrow> ps_finishedAt ps \<noteq> 0"

definition Healthy :: "'c processStatus \<Rightarrow> bool" where
  "Healthy ps \<longleftrightarrow> ps_errorCount ps < 5 \<and> State ps = ProcessStateSyncing"

record ProcessStatus =
  pst_State :: ProcessState
  pst_Healthy :: bool
  pst_LastSync :: go_time
  pst_ErrorCount :: int
  pst_LastError :: "sync_error option"
  pst_RestartCount :: int

datatype pm_metric =
    ProcessStateTransition string ProcessState ProcessState
  | ProcessSyncDuration string UpdateType duration "sync_error option"
  | ProcessTerminationDuration string duration
  | ProcessError string string
  | ProcessRestart string
  | WorkQueueDepth nat
  | WorkQueueAdd string duration
  | WorkQueueRetry string
  | WorkQueueBackoffDuration string duration

datatype 'c worker_pc =
    WWait
  | WReceived
  | WExecute nat "'c ProcessUpdate" ProcessState
  | WSyncing nat "'c ProcessUpdate" go_time
  | WTerminating nat "'c ProcessUpdate" int go_time
  | WTerminated nat "'c ProcessUpdate" go_time
  | WComplete "sync_error option"
  | WSignal "nat option"
  | WExit

datatype consumer_pc = CWait | CLoop | CItem string | CSignal nat | CExit

record 'c worker =
  wk_id :: string
  wk_chan :: nat
  wk_pc :: "'c worker_pc"

record 'c ProcessManager =
  pm_processUpdates :: "string \<rightharpoonup> nat"
  pm_processStatuses :: "string \<rightharpoonup> nat"
  pm_mem :: "nat \<Rightarrow> 'c processStatus"
  pm_next :: nat
  pm_chans :: "nat \<Rightarrow> bool"
  pm_nextChan :: nat
  pm_hasSyncer :: bool
  pm_resyncInterval :: duration
  pm_backOffPeriod :: duration
  pm_workQueue :: workQueue
  pm_metrics :: "pm_metric list"
  pm_shutdown :: bool
  pm_workers :: "'c worker list"
  pm_consumer :: consumer_pc
  pm_closed :: "nat list"
  pm_panicked :: bool
  pm_clock :: go_time

text \<open>The floating-point environment of the delay computations.\<close>

record delay_env =
  de_fl :: "real \<Rightarrow> real"
  de_oob :: "real \<Rightarrow> int"
  de_rnd :: real

datatype Option =
    WithSyncer bool
  | WithResyncInterval duration
  | WithBackOffPeriod duration
  | WithMetricsCollector

fun apply_option :: "Option \<Rightarrow> 'c ProcessManager \<Rightarrow> 'c ProcessManager" where
  "apply_option (WithSyncer present) pm = pm\<lparr>pm_hasSyncer := present\<rparr>"
| "apply_option (WithResyncInterval d) pm = pm\<lparr>pm_resyncInterval := d\<rparr>"
| "apply_option (WithBackOffPeriod d) pm = pm\<lparr>pm_backOffPeriod := d\<rparr>"
| "apply_option WithMetricsCollector pm = pm"

definition NewProcessManager :: "go_time \<Rightarrow> Option list \<Rightarrow> 'c ProcessManager" where
  "NewProcessManager now opts = fold apply_option opts
    \<lparr>pm_processUpdates = Map.empty, pm_processStatuses = Map.empty,
     pm_mem = (\<lambda>_. new_processStatus), pm_next = 0, pm_chans = (\<lambda>_. False), pm_nextChan = 0,
     pm_hasSyncer = False, pm_resyncInterval = 30000000000, pm_backOffPeriod = 5000000000,
     pm_workQueue = NewWorkQueue, pm_metrics = [], pm_shutdown = False, pm_workers = [],
     pm_consumer = CWait, pm_closed = [], pm_panicked = False, pm_clock = now\<rparr>"

subsection \<open>Helpers on the store\<close>

definition set_status :: "nat \<Rightarrow> 'c processStatus \<Rightarrow> 'c ProcessManager \<Rightarrow> 'c ProcessManager" where
  "set_status a ps pm = pm\<lparr>pm_mem := (pm_mem pm)(a := ps)\<rparr>"

definition emit :: "pm_metric \<Rightarrow> 'c ProcessManager \<Rightarrow> 'c ProcessManager" where
  "emit m pm = pm\<lparr>pm_metrics := pm_metrics pm @ [m]\<rparr>"

definition signal_chan :: "nat \<Rightarrow> 'c ProcessManager \<Rightarrow> 'c ProcessManager" where
  "signal_chan ch pm = pm\<lparr>pm_chans := (pm_chans pm)(ch := True)\<rparr>"

definition set_pc :: "nat \<Rightarrow> 'c worker_pc \<Rightarrow> 'c ProcessManager \<Rightarrow> 'c ProcessManager" where
  "set_pc w pc pm = pm\<lparr>pm_workers := (pm_workers pm)[w := (pm_workers pm ! w)\<lparr>wk_pc := pc\<rparr>]\<rparr>"

text \<open>Closing a closed channel panics, which ends the whole program.\<close>

definition close_chan :: "nat \<Rightarrow> 'c ProcessManager \<Rightarrow> 'c ProcessManager" where
  "close_chan ch pm = (if ch \<in> set (pm_closed pm) then pm\<lparr>pm_panicked := True\<rparr>
     else pm\<lparr>pm_closed := pm_closed pm @ [ch]\<rparr>)"

definition ctx_done :: "'c ProcessManager \<Rightarrow> 'c processStatus \<Rightarrow> bool" where
  "ctx_done pm ps \<longleftrightarrow> ps_ctx ps = None \<or> ps_ctx ps = Some True \<or> pm_shutdown pm"

subsection \<open>Submitting updates\<close>

definition cancel_ctx :: "'c processStatus \<Rightarrow> 'c processStatus" where
  "cancel_ctx ps = ps\<lparr>ps_ctx := map_option (\<lambda>_. True) (ps_ctx ps)\<rparr>"

definition handleTerminationRequest ::
  "go_time \<Rightarrow> TerminateOptions option \<Rightarrow> 'c processStatus \<Rightarrow> 'c processStatus" where
  "handleTerminationRequest now opts status =
    (let alreadyTerminating = IsTerminating status;
         s1 = (if ps_terminatingAt status = 0 then status\<lparr>ps_terminatingAt := now\<rparr> else status);
         s2 = (case opts of
             Some o' \<Rightarrow>
               (case to_GracePeriodSecs o' of
                  Some gracePeriod \<Rightarrow>
                    let s = (if ps_gracePeriod s1 = 0 \<or> gracePeriod < ps_gracePeriod s1
                             then (let s' = s1\<lparr>ps_gracePeriod := gracePeriod\<rparr>
                                   in if \<not> alreadyTerminating then cancel_ctx s' else s')
                             else s1)
                    in if to_Evict o' then s\<lparr>ps_evicted := True\<rparr> else s
                | None \<Rightarrow> if ps_gracePeriod s1 = 0 then s1\<lparr>ps_gracePeriod := 10\<rparr> else s1)
           | None \<Rightarrow> if ps_gracePeriod s1 = 0 then s1\<lparr>ps_gracePeriod := 10\<rparr> else s1)
     in if \<not> alreadyTerminating then cancel_ctx s2 else s2)"

definition get_or_create_status :: "string \<Rightarrow> 'c ProcessManager \<Rightarrow> nat \<times> 'c ProcessManager" where
  "get_or_create_status pid pm =
    (case pm_processStatuses pm pid of
       Some a \<Rightarrow> (a, pm)
     | None \<Rightarrow> (pm_next pm, pm\<lparr>pm_processStatuses := (pm_processStatuses pm)(pid \<mapsto> pm_next pm),
                pm_mem := (pm_mem pm)(pm_next pm := new_processStatus),
                pm_next := Suc (pm_next pm)\<rparr>))"

definition get_or_create_worker :: "string \<Rightarrow> 'c ProcessManager \<Rightarrow> nat \<times> 'c ProcessManager" where
  "get_or_create_worker pid pm =
    (case pm_processUpdates pm pid of
       Some ch \<Rightarrow> (ch, pm)
     | None \<Rightarrow> (pm_nextChan pm, pm\<lparr>pm_processUpdates := (pm_processUpdates pm)(pid \<mapsto> pm_nextChan pm),
                pm_chans := (pm_chans pm)(pm_nextChan pm := False),
                pm_nextChan := Suc (pm_nextChan pm),
                pm_workers := pm_workers pm @ [\<lparr>wk_id = pid, wk_chan = pm_nextChan pm, wk_pc = WWait\<rparr>]\<rparr>))"

definition UpdateProcess :: "'c ProcessUpdate \<Rightarrow> 'c ProcessManager \<Rightarrow> 'c ProcessManager" where
  "UpdateProcess update pm =
    (let now = pm_clock pm;
         upd = (if pu_StartTime update = 0 then update\<lparr>pu_StartTime := now\<rparr> else update);
         (a, pm1) = get_or_create_status (pu_ID upd) pm;
         status = pm_mem pm1 a
     in if IsFinished status then pm1
        else let status1 = (if pu_UpdateType upd = UpdateTypeTerminate
                            then handleTerminationRequest now (pu_TerminateOptions upd) status else status);
                 pm2 = set_status a (status1\<lparr>ps_pending := Some upd\<rparr>) pm1;
                 (ch, pm3) = get_or_create_worker (pu_ID upd) pm2
             in signal_chan ch pm3)"

subsection \<open>The work queue consumer\<close>

definition consumer_dequeue :: "'c ProcessManager \<Rightarrow> 'c ProcessManager" where
  "consumer_dequeue pm =
    (case Dequeue (pm_clock pm) (pm_workQueue pm) of
       (None, wq) \<Rightarrow> pm\<lparr>pm_workQueue := wq, pm_consumer := CWait\<rparr>
     | (Some pid, wq) \<Rightarrow>
         emit (WorkQueueDepth (wq_Len wq)) (emit (WorkQueueRetry pid)
           (pm\<lparr>pm_workQueue := wq, pm_consumer := CItem pid\<rparr>)))"

definition consumer_item :: "string \<Rightarrow> 'c ProcessManager \<Rightarrow> 'c ProcessManager" where
  "consumer_item pid pm =
    (case pm_processStatuses pm pid of
       None \<Rightarrow> pm\<lparr>pm_consumer := CLoop\<rparr>
     | Some a \<Rightarrow>
         (case pm_processUpdates pm pid of
            None \<Rightarrow> pm\<lparr>pm_consumer := CLoop\<rparr>
          | Some ch \<Rightarrow>
              (let status = pm_mem pm a;
                   status' = (case ps_pending status of
                       Some _ \<Rightarrow> status
                     | None \<Rightarrow> status\<lparr>ps_pending := Some \<lparr>pu_ID = pid, pu_UpdateType = UpdateTypeSync,
                         pu_StartTime = pm_clock pm,
                         pu_Config = (case ps_active status of None \<Rightarrow> None | Some u \<Rightarrow> pu_Config u),
                         pu_TerminateOptions = None\<rparr>\<rparr>)
               in set_status a status' (pm\<lparr>pm_consumer := CSignal ch\<rparr>))))"

subsection \<open>The worker of a process\<close>

definition processUpdate :: "nat \<Rightarrow> 'c ProcessManager \<Rightarrow> 'c ProcessManager" where
  "processUpdate w pm =
    (case pm_processStatuses pm (wk_id (pm_workers pm ! w)) of
       None \<Rightarrow> set_pc w WExit pm
     | Some a \<Rightarrow>
         (let status = pm_mem pm a
          in if IsFinished status then set_pc w WExit pm
             else if ps_working status then set_pc w WWait pm
             else case ps_pending status of
                    None \<Rightarrow> set_pc w WWait pm
                  | Some update \<Rightarrow>
                      (let status' = status\<lparr>ps_active := Some update, ps_pending := None, ps_working := True,
                             ps_ctx := (if ctx_done pm status then Some False else ps_ctx status)\<rparr>
                       in set_pc w (WExecute a update (State status')) (set_status a status' pm))))"

text \<open>\<open>executeSync\<close> up to the call into the syncer.\<close>

definition executeSync :: "nat \<Rightarrow> nat \<Rightarrow> 'c ProcessUpdate \<Rightarrow> ProcessState \<Rightarrow> 'c ProcessManager \<Rightarrow> 'c ProcessManager" where
  "executeSync w a update state pm =
    (let terminating = WTerminating a update (ps_gracePeriod (pm_mem pm a)) (pm_clock pm)
     in if \<not> pm_hasSyncer pm then set_pc w (WComplete (Some NoSyncerConfigured)) pm
        else case state of
               ProcessStateTerminating \<Rightarrow> set_pc w terminating pm
             | ProcessStateTerminated \<Rightarrow> set_pc w (WTerminated a update (pm_clock pm)) pm
             | ProcessStateFinished \<Rightarrow> set_pc w (WComplete None) pm
             | _ \<Rightarrow> if IsTerminating (pm_mem pm a) then set_pc w terminating pm
                    else set_pc w (WSyncing a update (pm_clock pm)) pm)"

definition record_transition :: "string \<Rightarrow> 'c processStatus \<Rightarrow> 'c processStatus \<Rightarrow> 'c ProcessManager \<Rightarrow> 'c ProcessManager" where
  "record_transition pid old new pm =
    (if State new \<noteq> State old then emit (ProcessStateTransition pid (State old) (State new)) pm else pm)"

definition fail_status :: "sync_error \<Rightarrow> 'c processStatus \<Rightarrow> 'c processStatus" where
  "fail_status e status = status\<lparr>ps_errorCount := ps_errorCount status + 1, ps_lastError := Some e\<rparr>"

definition syncProcess :: "nat \<Rightarrow> nat \<Rightarrow> 'c ProcessUpdate \<Rightarrow> go_time \<Rightarrow> bool \<Rightarrow> sync_error option
    \<Rightarrow> 'c ProcessManager \<Rightarrow> 'c ProcessManager" where
  "syncProcess w a update startTime terminal err pm =
    (let pid = wk_id (pm_workers pm ! w); now = pm_clock pm; status = pm_mem pm a;
         pm1 = emit (ProcessSyncDuration pid (pu_UpdateType update) (now - startTime) err) pm;
         (status1, pm2) = (case err of
             Some e \<Rightarrow> (fail_status e status, emit (ProcessError pid ''sync_error'') pm1)
           | None \<Rightarrow> (status\<lparr>ps_errorCount := 0, ps_lastError := None, ps_syncedAt := now,
                      ps_startedAt := (if ps_startedAt status = 0 then now else ps_startedAt status)\<rparr>, pm1));
         status2 = (if terminal
             then status1\<lparr>ps_terminatingAt := now,
                    ps_gracePeriod := (if ps_gracePeriod status1 = 0 then 10 else ps_gracePeriod status1)\<rparr>
             else status1)
     in set_pc w (WComplete err) (record_transition pid status status2 (set_status a status2 pm2)))"

definition syncTerminating :: "nat \<Rightarrow> nat \<Rightarrow> 'c ProcessUpdate \<Rightarrow> go_time \<Rightarrow> sync_error option
    \<Rightarrow> 'c ProcessManager \<Rightarrow> 'c ProcessManager" where
  "syncTerminating w a update startTime err pm =
    (let pid = wk_id (pm_workers pm ! w); now = pm_clock pm; status = pm_mem pm a;
         pm1 = emit (ProcessTerminationDuration pid (now - startTime)) pm;
         (status1, pm2) = (case err of
             Some e \<Rightarrow> (fail_status e status, emit (ProcessError pid ''termination_error'') pm1)
           | None \<Rightarrow>
               (status\<lparr>ps_terminatedAt := now, ps_errorCount := 0, ps_lastError := None,
                  ps_pending := Some \<lparr>pu_ID = pid, pu_UpdateType = UpdateTypeSync, pu_StartTime = now,
                    pu_Config = pu_Config update, pu_TerminateOptions = None\<rparr>\<rparr>,
                case pu_TerminateOptions update of
                  Some o' \<Rightarrow> (case to_CompletedCh o' of
                      Some ch \<Rightarrow> close_chan ch pm1 | None \<Rightarrow> pm1)
                | None \<Rightarrow> pm1))
     in set_pc w (WComplete err) (record_transition pid status status1 (set_status a status1 pm2)))"

definition syncTerminated :: "nat \<Rightarrow> nat \<Rightarrow> 'c ProcessUpdate \<Rightarrow> sync_error option
    \<Rightarrow> 'c ProcessManager \<Rightarrow> 'c ProcessManager" where
  "syncTerminated w a update err pm =
    (let pid = wk_id (pm_workers pm ! w); now = pm_clock pm; status = pm_mem pm a;
         (status1, pm1) = (case err of
             Some e \<Rightarrow> (fail_status e status, emit (ProcessError pid ''cleanup_error'') pm)
           | None \<Rightarrow> (status\<lparr>ps_finishedAt := now, ps_finished := True, ps_errorCount := 0,
                      ps_lastError := None\<rparr>, pm))
     in set_pc w (WComplete err) (record_transition pid status status1 (set_status a status1 pm1)))"

definition retry_delay :: "delay_env \<Rightarrow> 'c ProcessManager \<Rightarrow> sync_error option \<Rightarrow> 'c processStatus \<Rightarrow> duration" where
  "retry_delay env pm syncErr status =
    (case syncErr of
       Some e \<Rightarrow>
         if e = ContextCanceled \<or> e = ContextDeadlineExceeded
         then Jitter (de_fl env) (de_oob env) (de_rnd env) 1000000000 (1 / 2)
         else ExponentialBackoff (de_fl env) (de_oob env) (de_rnd env) (ps_consecutiveFails status)
                1000000000 (pm_backOffPeriod pm)
     | None \<Rightarrow>
         if State status = ProcessStateTerminated then 0
         else Jitter (de_fl env) (de_oob env) (de_rnd env) (pm_resyncInterval pm) (de_fl env (1 / 10)))"

definition completeWork :: "delay_env \<Rightarrow> nat \<Rightarrow> sync_error option \<Rightarrow> 'c ProcessManager \<Rightarrow> 'c ProcessManager" where
  "completeWork env w syncErr pm =
    (let pid = wk_id (pm_workers pm ! w)
     in case pm_processStatuses pm pid of
          None \<Rightarrow> set_pc w WWait pm
        | Some a \<Rightarrow>
            (let status = (pm_mem pm a)\<lparr>ps_working := False\<rparr>
             in if IsFinished status then set_pc w WWait (set_status a status pm)
                else let status' = status\<lparr>ps_consecutiveFails :=
                           (case syncErr of Some _ \<Rightarrow> ps_consecutiveFails status + 1 | None \<Rightarrow> 0)\<rparr>;
                         delay = retry_delay env pm syncErr status';
                         wq = Enqueue (pm_clock pm) pid delay (pm_workQueue pm);
                         pm1 = emit (WorkQueueDepth (wq_Len wq)) (emit (WorkQueueAdd pid delay)
                           ((set_status a status' pm)\<lparr>pm_workQueue := wq\<rparr>));
                         pm2 = (case syncErr of Some _ \<Rightarrow> emit (WorkQueueBackoffDuration pid delay) pm1 | None \<Rightarrow> pm1)
                     in if ps_pending status' \<noteq> None
                        then set_pc w (WSignal (pm_processUpdates pm pid)) pm2
                        else set_pc w WWait pm2))"

subsection \<open>Queries, reconciliation and shutdown\<close>

definition status_view :: "'c processStatus \<Rightarrow> ProcessStatus" where
  "status_view status = \<lparr>pst_State = State status, pst_Healthy = Healthy status,
     pst_LastSync = ps_syncedAt status, pst_ErrorCount = ps_errorCount status,
     pst_LastError = ps_lastError status, pst_RestartCount = ps_restartCount status\<rparr>"

definition GetProcessStatus :: "string \<Rightarrow> 'c ProcessManager \<Rightarrow> ProcessStatus option" where
  "GetProcessStatus pid pm = map_option (\<lambda>a. status_view (pm_mem pm a)) (pm_processStatuses pm pid)"

definition IsProcessTerminated :: "string \<Rightarrow> 'c ProcessManager \<Rightarrow> bool" where
  "IsProcessTerminated pid pm =
    (case pm_processStatuses pm pid of None \<Rightarrow> False | Some a \<Rightarrow> IsTerminated (pm_mem pm a))"

definition IsProcessFinished :: "string \<Rightarrow> 'c ProcessManager \<Rightarrow> bool" where
  "IsProcessFinished pid pm =
    (case pm_processStatuses pm pid of None \<Rightarrow> False | Some a \<Rightarrow> IsFinished (pm_mem pm a))"

fun sync_known_loop :: "string list \<Rightarrow> string list \<Rightarrow> 'c ProcessManager \<Rightarrow> (string \<rightharpoonup> ProcessStatus)
    \<Rightarrow> (string \<rightharpoonup> ProcessStatus) \<times> 'c ProcessManager" where
  "sync_known_loop desiredIDs [] pm result = (result, pm)"
| "sync_known_loop desiredIDs (pid # ord) pm result =
    (case pm_processStatuses pm pid of
       None \<Rightarrow> sync_known_loop desiredIDs ord pm result
     | Some a \<Rightarrow>
         (let status = pm_mem pm a; orphan = pid \<notin> set desiredIDs
          in if IsFinished status
             then sync_known_loop desiredIDs ord
                    (if orphan then pm\<lparr>pm_processStatuses := (pm_processStatuses pm)(pid := None),
                                      pm_processUpdates := (pm_processUpdates pm)(pid := None)\<rparr> else pm) result
             else let status' = (if orphan \<and> \<not> IsTerminating status
                                 then handleTerminationRequest (pm_clock pm) None status else status)
                  in sync_known_loop desiredIDs ord (set_status a status' pm)
                       (result(pid \<mapsto> status_view status'))))"

definition SyncKnownProcesses :: "string list \<Rightarrow> string list \<Rightarrow> 'c ProcessManager
    \<Rightarrow> (string \<rightharpoonup> ProcessStatus) \<times> 'c ProcessManager" where
  "SyncKnownProcesses ord desiredIDs pm = sync_known_loop desiredIDs ord pm Map.empty"

definition terminate_request :: "string \<Rightarrow> 'c ProcessUpdate" where
  "terminate_request pid = \<lparr>pu_ID = pid, pu_UpdateType = UpdateTypeTerminate, pu_StartTime = 0,
     pu_Config = None, pu_TerminateOptions = None\<rparr>"

definition Shutdown :: "string list \<Rightarrow> 'c ProcessManager \<Rightarrow> 'c ProcessManager" where
  "Shutdown ord pm = fold (\<lambda>pid. UpdateProcess (terminate_request pid)) ord (pm\<lparr>pm_shutdown := True\<rparr>)"

text \<open>The wait group of \<open>Shutdown\<close>: it returns \<open>nil\<close> once every goroutine has left its loop.\<close>

definition all_stopped :: "'c ProcessManager \<Rightarrow> bool" where
  "all_stopped pm \<longleftrightarrow> pm_consumer pm = CExit \<and> (\<forall>wk \<in> set (pm_workers pm). wk_pc wk = WExit)"

record ProcessHealth =
  ph_State :: ProcessState
  ph_Healthy :: bool
  ph_Uptime :: duration
  ph_LastSync :: go_time
  ph_ErrorCount :: int
  ph_RestartCount :: int

record HealthCheck =
  hc_TotalProcesses :: nat
  hc_RunningProcesses :: nat
  hc_TerminatingProcesses :: nat
  hc_FailedProcesses :: nat
  hc_WorkQueueDepth :: nat
  hc_Processes :: "string \<rightharpoonup> ProcessHealth"

definition process_health :: "go_time \<Rightarrow> 'c processStatus \<Rightarrow> ProcessHealth" where
  "process_health now status = \<lparr>ph_State = State status, ph_Healthy = Healthy status,
     ph_Uptime = (if ps_startedAt status \<noteq> 0
       then (if ps_finishedAt status = 0 then now else ps_finishedAt status) - ps_startedAt status else 0),
     ph_LastSync = ps_syncedAt status, ph_ErrorCount = ps_errorCount status,
     ph_RestartCount = ps_restartCount status\<rparr>"

definition Health :: "string list \<Rightarrow> 'c ProcessManager \<Rightarrow> HealthCheck" where
  "Health ord pm =
    (let ss = map (pm_mem pm) (map_values ord (pm_processStatuses pm))
     in \<lparr>hc_TotalProcesses = length ss,
         hc_RunningProcesses = length (filter (\<lambda>s. State s = ProcessStateSyncing) ss),
         hc_TerminatingProcesses = length (filter (\<lambda>s. State s = ProcessStateTerminating) ss),
         hc_FailedProcesses = length (filter (\<lambda>s. ps_errorCount s > 5) ss),
         hc_WorkQueueDepth = wq_Len (pm_workQueue pm),
         hc_Processes = (\<lambda>pid. map_option (\<lambda>a. process_health (pm_clock pm) (pm_mem pm a)) (pm_processStatuses pm pid))\<rparr>)"

subsection \<open>Steps\<close>

datatype 'c action =
    AUpdate "'c ProcessUpdate"
  | ASyncKnown "string list" "string list"
  | AShutdownCancel
  | ATick int
  | AReceive nat
  | AProcess nat
  | AExecute nat
  | AReturn nat bool "sync_error option"
  | AComplete nat
  | ASignal nat
  | AWorkerExit nat
  | ANotified
  | ATicker
  | ADequeue
  | AItem
  | AConsumerSignal
  | AConsumerExit

text \<open>
  One action, or \<open>None\<close> when its goroutine is not at that point.  A worker waits on the
  shutdown context and on its channel at once, so at \<open>WWait\<close> it may exit after shutdown even
  when a signal is there; the ticker of the consumer may fire at any time.
\<close>

definition worker_step :: "delay_env \<Rightarrow> nat \<Rightarrow> 'c action \<Rightarrow> 'c ProcessManager \<Rightarrow> 'c ProcessManager option" where
  "worker_step env w act pm =
    (if w < length (pm_workers pm)
     then let ch = wk_chan (pm_workers pm ! w)
          in case (act, wk_pc (pm_workers pm ! w)) of
               (AReceive _, WWait) \<Rightarrow>
                 if pm_chans pm ch then Some (set_pc w WReceived (pm\<lparr>pm_chans := (pm_chans pm)(ch := False)\<rparr>)) else None
             | (AWorkerExit _, WWait) \<Rightarrow> if pm_shutdown pm then Some (set_pc w WExit pm) else None
             | (AProcess _, WReceived) \<Rightarrow> Some (processUpdate w pm)
             | (AExecute _, WExecute a u st) \<Rightarrow> Some (executeSync w a u st pm)
             | (AReturn _ terminal err, WSyncing a u t) \<Rightarrow> Some (syncProcess w a u t terminal err pm)
             | (AReturn _ _ err, WTerminating a u _ t) \<Rightarrow> Some (syncTerminating w a u t err pm)
             | (AReturn _ _ err, WTerminated a u _) \<Rightarrow> Some (syncTerminated w a u err pm)
             | (AComplete _, WComplete err) \<Rightarrow> Some (completeWork env w err pm)
             | (ASignal _, WSignal c) \<Rightarrow>
                 Some (set_pc w WWait (case c of Some ch' \<Rightarrow> signal_chan ch' pm | None \<Rightarrow> pm))
             | _ \<Rightarrow> None
     else None)"

definition consumer_step :: "'c action \<Rightarrow> 'c ProcessManager \<Rightarrow> 'c ProcessManager option" where
  "consumer_step act pm =
    (case (act, pm_consumer pm) of
       (ANotified, CWait) \<Rightarrow>
         if wq_notifyCh (pm_workQueue pm)
         then Some (pm\<lparr>pm_workQueue := (pm_workQueue pm)\<lparr>wq_notifyCh := False\<rparr>, pm_consumer := CLoop\<rparr>) else None
     | (ATicker, CWait) \<Rightarrow> Some (pm\<lparr>pm_consumer := CLoop\<rparr>)
     | (AConsumerExit, CWait) \<Rightarrow> if pm_shutdown pm then Some (pm\<lparr>pm_consumer := CExit\<rparr>) else None
     | (ADequeue, CLoop) \<Rightarrow> Some (consumer_dequeue pm)
     | (AItem, CItem pid) \<Rightarrow> Some (consumer_item pid pm)
     | (AConsumerSignal, CSignal ch) \<Rightarrow> Some (signal_chan ch (pm\<lparr>pm_consumer := CLoop\<rparr>))
     | _ \<Rightarrow> None)"

definition pm_step :: "delay_env \<Rightarrow> 'c action \<Rightarrow> 'c ProcessManager \<Rightarrow> 'c ProcessManager option" where
  "pm_step env act pm =
    (if pm_panicked pm then None else case act of
       AUpdate u \<Rightarrow> Some (UpdateProcess u pm)
     | ASyncKnown ord desired \<Rightarrow> Some (snd (SyncKnownProcesses ord desired pm))
     | AShutdownCancel \<Rightarrow> Some (pm\<lparr>pm_shutdown := True\<rparr>)
     | ATick d \<Rightarrow> if d \<ge> 0 then Some (pm\<lparr>pm_clock := pm_clock pm + d\<rparr>) else None
     | AReceive w \<Rightarrow> worker_step env w act pm
     | AProcess w \<Rightarrow> worker_step env w act pm
     | AExecute w \<Rightarrow> worker_step env w act pm
     | AReturn w _ _ \<Rightarrow> worker_step env w act pm
     | AComplete w \<Rightarrow> worker_step env w act pm
     | ASignal w \<Rightarrow> worker_step env w act pm
     | AWorkerExit w \<Rightarrow> worker_step env w act pm
     | _ \<Rightarrow> consumer_step act pm)"

fun pm_run :: "delay_env \<Rightarrow> 'c action list \<Rightarrow> 'c ProcessManager \<Rightarrow> 'c ProcessManager option" where
  "pm_run env [] pm = Some pm"
| "pm_run env (act # acts) pm =
    (case pm_step env act pm of None \<Rightarrow> None | Some pm' \<Rightarrow> pm_run env acts pm')"

inductive reachable :: "'c ProcessManager \<Rightarrow> bool" where
  init: "0 < now \<Longrightarrow> reachable (NewProcessManager now opts)"
| step: "reachable pm \<Longrightarrow> pm_step env act pm = Some pm' \<Longrightarrow> reachable pm'"

subsection \<open>Progress of a status\<close>

fun rank :: "ProcessState \<Rightarrow> nat" where
  "rank ProcessStateStarting = 0"
| "rank ProcessStateSyncing = 1"
| "rank ProcessStateTerminating = 2"
| "rank ProcessStateTerminated = 3"
| "rank ProcessStateFinished = 4"

definition status_le :: "'c processStatus \<Rightarrow> 'c processStatus \<Rightarrow> bool" where
  "status_le s s' \<longleftrightarrow> (ps_syncedAt s \<noteq> 0 \<longrightarrow> ps_syncedAt s' \<noteq> 0)
     \<and> (ps_terminatingAt s \<noteq> 0 \<longrightarrow> ps_terminatingAt s' \<noteq> 0)
     \<and> (ps_terminatedAt s \<noteq> 0 \<longrightarrow> ps_terminatedAt s' \<noteq> 0)
     \<and> (ps_finishedAt s \<noteq> 0 \<longrightarrow> ps_finishedAt s' \<noteq> 0)"

definition good_status :: "'c processStatus \<Rightarrow> bool" where
  "good_status s \<longleftrightarrow> (ps_finishedAt s \<noteq> 0 \<longrightarrow> ps_terminatedAt s \<noteq> 0)
     \<and> (ps_terminatedAt s \<noteq> 0 \<longrightarrow> ps_terminatingAt s \<noteq> 0)
     \<and> (ps_finished s \<longleftrightarrow> ps_finishedAt s \<noteq> 0)"

lemma status_le_refl [simp, intro]: "status_le s s"
  by (simp add: status_le_def)

lemma status_le_trans [trans]: "status_le s t \<Longrightarrow> status_le t u \<Longrightarrow> status_le s u"
  by (auto simp: status_le_def)

lemma status_le_rank: "status_le s s' \<Longrightarrow> rank (State s) \<le> rank (State s')"
  by (auto simp: status_le_def State_def)

lemma handleTerminationRequest_fields [simp]:
  "ps_syncedAt (handleTerminationRequest now opts s) = ps_syncedAt s"
  "ps_terminatedAt (handleTerminationRequest now opts s) = ps_terminatedAt s"
  "ps_finishedAt (handleTerminationRequest now opts s) = ps_finishedAt s"
  "ps_finished (handleTerminationRequest now opts s) = ps_finished s"
  "ps_pending (handleTerminationRequest now opts s) = ps_pending s"
  "ps_active (handleTerminationRequest now opts s) = ps_active s"
  "ps_working (handleTerminationRequest now opts s) = ps_working s"
  "ps_terminatingAt (handleTerminationRequest now opts s)
     = (if ps_terminatingAt s = 0 then now else ps_terminatingAt s)"
  by (auto simp: handleTerminationRequest_def cancel_ctx_def Let_def split: option.splits)

subsection \<open>Frames and steps\<close>

lemmas store_updates [simp] = set_status_def emit_def set_pc_def signal_chan_def

lemma close_chan_fields [simp]:
  "pm_mem (close_chan ch pm) = pm_mem pm"
  "pm_next (close_chan ch pm) = pm_next pm"
  "pm_workers (close_chan ch pm) = pm_workers pm"
  "pm_processStatuses (close_chan ch pm) = pm_processStatuses pm"
  "pm_processUpdates (close_chan ch pm) = pm_processUpdates pm"
  "pm_chans (close_chan ch pm) = pm_chans pm"
  "pm_nextChan (close_chan ch pm) = pm_nextChan pm"
  "pm_metrics (close_chan ch pm) = pm_metrics pm"
  "pm_clock (close_chan ch pm) = pm_clock pm"
  "pm_consumer (close_chan ch pm) = pm_consumer pm"
  by (simp_all add: close_chan_def)

lemma record_transition_fields [simp]:
  "pm_mem (record_transition pid s s' pm) = pm_mem pm"
  "pm_next (record_transition pid s s' pm) = pm_next pm"
  "pm_workers (record_transition pid s s' pm) = pm_workers pm"
  "pm_processStatuses (record_transition pid s s' pm) = pm_processStatuses pm"
  "pm_processUpdates (record_transition pid s s' pm) = pm_processUpdates pm"
  "pm_chans (record_transition pid s s' pm) = pm_chans pm"
  "pm_nextChan (record_transition pid s s' pm) = pm_nextChan pm"
  "pm_metrics (record_transition pid s s' pm) = pm_metrics pm
     @ (if State s' \<noteq> State s then [ProcessStateTransition pid (State s) (State s')] else [])"
  "pm_clock (record_transition pid s s' pm) = pm_clock pm"
  "pm_consumer (record_transition pid s s' pm) = pm_consumer pm"
  "pm_hasSyncer (record_transition pid s s' pm) = pm_hasSyncer pm"
  "pm_shutdown (record_transition pid s s' pm) = pm_shutdown pm"
  "pm_panicked (record_transition pid s s' pm) = pm_panicked pm"
  "pm_closed (record_transition pid s s' pm) = pm_closed pm"
  "pm_workQueue (record_transition pid s s' pm) = pm_workQueue pm"
  by (simp_all add: record_transition_def)

text \<open>The actions of a step, one case per section of code.\<close>

lemma pm_step_cases [consumes 1, case_names Update SyncKnown ShutdownCancel Tick Receive WorkerExit
    Process Execute Sync Terminating Terminated Complete Signal Notified Ticker ConsumerExit Dequeue Item ConsumerSignal]:
  assumes "pm_step env act pm = Some pm'"
  obtains (Update) u where "act = AUpdate u" "pm' = UpdateProcess u pm"
  | (SyncKnown) ord desired where "act = ASyncKnown ord desired" "pm' = snd (SyncKnownProcesses ord desired pm)"
  | (ShutdownCancel) "act = AShutdownCancel" "pm' = pm\<lparr>pm_shutdown := True\<rparr>"
  | (Tick) d where "act = ATick d" "0 \<le> d" "pm' = pm\<lparr>pm_clock := pm_clock pm + d\<rparr>"
  | (Receive) w where "act = AReceive w" "w < length (pm_workers pm)" "wk_pc (pm_workers pm ! w) = WWait"
      "pm_chans pm (wk_chan (pm_workers pm ! w))"
      "pm' = set_pc w WReceived (pm\<lparr>pm_chans := (pm_chans pm)(wk_chan (pm_workers pm ! w) := False)\<rparr>)"
  | (WorkerExit) w where "act = AWorkerExit w" "w < length (pm_workers pm)" "wk_pc (pm_workers pm ! w) = WWait"
      "pm_shutdown pm" "pm' = set_pc w WExit pm"
  | (Process) w where "act = AProcess w" "w < length (pm_workers pm)" "wk_pc (pm_workers pm ! w) = WReceived"
      "pm' = processUpdate w pm"
  | (Execute) w a u st where "act = AExecute w" "w < length (pm_workers pm)"
      "wk_pc (pm_workers pm ! w) = WExecute a u st" "pm' = executeSync w a u st pm"
  | (Sync) w a u t terminal err where "act = AReturn w terminal err" "w < length (pm_workers pm)"
      "wk_pc (pm_workers pm ! w) = WSyncing a u t" "pm' = syncProcess w a u t terminal err pm"
  | (Terminating) w a u g t terminal err where "act = AReturn w terminal err" "w < length (pm_workers pm)"
      "wk_pc (pm_workers pm ! w) = WTerminating a u g t" "pm' = syncTerminating w a u t err pm"
  | (Terminated) w a u t terminal err where "act = AReturn w terminal err" "w < length (pm_workers pm)"
      "wk_pc (pm_workers pm ! w) = WTerminated a u t" "pm' = syncTerminated w a u err pm"
  | (Complete) w err where "act = AComplete w" "w < length (pm_workers pm)"
      "wk_pc (pm_workers pm ! w) = WComplete err" "pm' = completeWork env w err pm"
  | (Signal) w c where "act = ASignal w" "w < length (pm_workers pm)" "wk_pc (pm_workers pm ! w) = WSignal c"
      "pm' = set_pc w WWait (case c of Some ch' \<Rightarrow> signal_chan ch' pm | None \<Rightarrow> pm)"
  | (Notified) "act = ANotified" "pm_consumer pm = CWait"
      "pm' = pm\<lparr>pm_workQueue := (pm_workQueue pm)\<lparr>wq_notifyCh := False\<rparr>, pm_consumer := CLoop\<rparr>"
  | (Ticker) "act = ATicker" "pm_consumer pm = CWait" "pm' = pm\<lparr>pm_consumer := CLoop\<rparr>"
  | (ConsumerExit) "act = AConsumerExit" "pm_consumer pm = CWait" "pm_shutdown pm" "pm' = pm\<lparr>pm_consumer := CExit\<rparr>"
  | (Dequeue) "act = ADequeue" "pm_consumer pm = CLoop" "pm' = consumer_dequeue pm"
  | (Item) pid where "act = AItem" "pm_consumer pm = CItem pid" "pm' = consumer_item pid pm"
  | (ConsumerSignal) ch where "act = AConsumerSignal" "pm_consumer pm = CSignal ch"
      "pm' = signal_chan ch (pm\<lparr>pm_consumer := CLoop\<rparr>)"
proof -
  have "\<not> pm_panicked pm" using assms by (auto simp: pm_step_def split: if_splits)
  note step = assms [unfolded pm_step_def if_not_P [OF this]]
  show ?thesis
  proof (cases act)
    case (AUpdate u) then show ?thesis using step that(1) by (auto split: if_splits)
  next
    case (ASyncKnown ord desired) then show ?thesis using step that(2) by (auto split: if_splits)
  next
    case AShutdownCancel then show ?thesis using step that(3) by (auto split: if_splits)
  next
    case (ATick d) then show ?thesis using step that(4) by (auto split: if_splits)
  next
    case (AReceive w) then show ?thesis using step that(5) [of w]
      by (auto simp: worker_step_def Let_def split: if_splits worker_pc.splits)
  next
    case (AWorkerExit w) then show ?thesis using step that(6) [of w]
      by (auto simp: worker_step_def Let_def split: if_splits worker_pc.splits)
  next
    case (AProcess w) then show ?thesis using step that(7) [of w]
      by (auto simp: worker_step_def Let_def split: if_splits worker_pc.splits)
  next
    case (AExecute w) then show ?thesis using step that(8) [of w]
      by (auto simp: worker_step_def Let_def split: if_splits worker_pc.splits)
  next
    case (AComplete w) then show ?thesis using step that(12) [of w]
      by (auto simp: worker_step_def Let_def split: if_splits worker_pc.splits)
  next
    case (ASignal w) then show ?thesis using step that(13) [of w]
      by (auto simp: worker_step_def Let_def split: if_splits worker_pc.splits)
  next
    case (AReturn w terminal err) then show ?thesis using step that(9-11) [of w]
      by (auto simp: worker_step_def Let_def split: if_splits worker_pc.splits)
  next
    case ANotified then show ?thesis using step that(14) by (auto simp: consumer_step_def split: if_splits consumer_pc.splits)
  next
    case ATicker then show ?thesis using step that(15) by (auto simp: consumer_step_def split: if_splits consumer_pc.splits)
  next
    case AConsumerExit then show ?thesis using step that(16) by (auto simp: consumer_step_def split: if_splits consumer_pc.splits)
  next
    case ADequeue then show ?thesis using step that(17) by (auto simp: consumer_step_def split: if_splits consumer_pc.splits)
  next
    case AItem then show ?thesis using step that(18) by (auto simp: consumer_step_def split: if_splits consumer_pc.splits)
  next
    case AConsumerSignal then show ?thesis using step that(19) by (auto simp: consumer_step_def split: if_splits consumer_pc.splits)
  qed
qed
subsection \<open>The lifecycle invariant\<close>

fun pc_ok :: "'c ProcessManager \<Rightarrow> 'c worker_pc \<Rightarrow> bool" where
  "pc_ok pm (WExecute a u st) \<longleftrightarrow> a < pm_next pm \<and> st \<noteq> ProcessStateFinished \<and> rank st \<le> rank (State (pm_mem pm a))"
| "pc_ok pm (WSyncing a u t) \<longleftrightarrow> a < pm_next pm"
| "pc_ok pm (WTerminating a u g t) \<longleftrightarrow> a < pm_next pm \<and> ps_terminatingAt (pm_mem pm a) \<noteq> 0"
| "pc_ok pm (WTerminated a u t) \<longleftrightarrow> a < pm_next pm \<and> ps_terminatedAt (pm_mem pm a) \<noteq> 0"
| "pc_ok pm _ \<longleftrightarrow> True"

definition statuses_allocated :: "'c ProcessManager \<Rightarrow> bool" where
  "statuses_allocated pm \<longleftrightarrow> (\<forall>pid a. pm_processStatuses pm pid = Some a \<longrightarrow> a < pm_next pm)"

definition lifecycle_inv :: "'c ProcessManager \<Rightarrow> bool" where
  "lifecycle_inv pm \<longleftrightarrow> 0 < pm_clock pm \<and> statuses_allocated pm
     \<and> (\<forall>a < pm_next pm. good_status (pm_mem pm a))
     \<and> (\<forall>wk \<in> set (pm_workers pm). pc_ok pm (wk_pc wk))"

text \<open>What one section does to the store: it allocates, and moves statuses forward.\<close>

definition store_le :: "'c ProcessManager \<Rightarrow> 'c ProcessManager \<Rightarrow> bool" where
  "store_le pm pm' \<longleftrightarrow> pm_next pm \<le> pm_next pm'
     \<and> (\<forall>a < pm_next pm. status_le (pm_mem pm a) (pm_mem pm' a))"

lemma pc_ok_mono: "pc_ok pm pc \<Longrightarrow> store_le pm pm' \<Longrightarrow> pc_ok pm' pc"
proof (cases pc)
  case (WExecute a u st)
  then show "pc_ok pm pc \<Longrightarrow> store_le pm pm' \<Longrightarrow> pc_ok pm' pc"
    by (auto simp: store_le_def dest!: spec [of _ a] status_le_rank)
qed (auto simp: store_le_def status_le_def)

lemma store_leI:
  assumes "pm_next pm \<le> pm_next pm'" "\<And>b. b < pm_next pm \<Longrightarrow> b \<noteq> a \<Longrightarrow> pm_mem pm' b = pm_mem pm b"
    "a < pm_next pm \<Longrightarrow> status_le (pm_mem pm a) (pm_mem pm' a)"
  shows "store_le pm pm'"
proof -
  have "status_le (pm_mem pm b) (pm_mem pm' b)" if "b < pm_next pm" for b
    using assms that by (cases "b = a") auto
  then show ?thesis using assms(1) by (simp add: store_le_def)
qed

text \<open>A section that keeps the clock, changes the status at one address and moves one worker.\<close>

lemma lifecycle_invI:
  assumes inv: "lifecycle_inv pm" and clock: "pm_clock pm \<le> pm_clock pm'"
    and alloc: "statuses_allocated pm'" and le: "store_le pm pm'"
    and good: "\<And>a. a < pm_next pm' \<Longrightarrow> pm_mem pm' a = pm_mem pm a \<and> a < pm_next pm \<or> good_status (pm_mem pm' a)"
    and workers: "\<And>wk. wk \<in> set (pm_workers pm') \<Longrightarrow> wk \<in> set (pm_workers pm) \<or> pc_ok pm' (wk_pc wk)"
  shows "lifecycle_inv pm'"
  unfolding lifecycle_inv_def
proof (intro conjI allI ballI impI)
  show "good_status (pm_mem pm' a)" if "a < pm_next pm'" for a
    using good [OF that] inv by (auto simp: lifecycle_inv_def)
  show "pc_ok pm' (wk_pc wk)" if "wk \<in> set (pm_workers pm')" for wk
    using workers [OF that] inv le by (auto simp: lifecycle_inv_def intro: pc_ok_mono)
qed (use inv clock alloc in \<open>auto simp: lifecycle_inv_def\<close>)

lemma set_update_worker: "wk \<in> set (ws[w := x]) \<Longrightarrow> wk \<in> set ws \<or> wk = x"
  using set_update_subset_insert by fastforce

lemma good_statusD:
  "good_status s \<Longrightarrow> rank (State s) \<ge> 3 \<Longrightarrow> ps_terminatedAt s \<noteq> 0"
  "good_status s \<Longrightarrow> rank (State s) \<ge> 2 \<Longrightarrow> ps_terminatingAt s \<noteq> 0"
  by (auto simp: good_status_def State_def split: if_splits)

definition moves_worker :: "nat \<Rightarrow> 'c ProcessManager \<Rightarrow> 'c ProcessManager \<Rightarrow> bool" where
  "moves_worker w pm pm' \<longleftrightarrow> pm_workers pm' = pm_workers pm
     \<or> w < length (pm_workers pm) \<and> pm_workers pm' = (pm_workers pm)[w := pm_workers pm' ! w]
       \<and> pc_ok pm' (wk_pc (pm_workers pm' ! w))"

lemma moves_workerD:
  "moves_worker w pm pm' \<Longrightarrow> wk \<in> set (pm_workers pm') \<Longrightarrow> wk \<in> set (pm_workers pm) \<or> pc_ok pm' (wk_pc wk)"
  unfolding moves_worker_def by (metis set_update_worker)

lemma lifecycle_worker_step:
  assumes inv: "lifecycle_inv pm" and a: "a < pm_next pm"
    and frame: "pm_clock pm' = pm_clock pm" "pm_next pm' = pm_next pm" "pm_processStatuses pm' = pm_processStatuses pm"
    and mem: "\<And>b. b \<noteq> a \<Longrightarrow> pm_mem pm' b = pm_mem pm b" "status_le (pm_mem pm a) (pm_mem pm' a)"
      "good_status (pm_mem pm' a)"
    and workers: "moves_worker w pm pm'"
  shows "lifecycle_inv pm' \<and> store_le pm pm'"
proof -
  have le: "store_le pm pm'" using frame mem by (intro store_leI [of _ _ a]) auto
  have "pm_mem pm' b = pm_mem pm b \<and> b < pm_next pm \<or> good_status (pm_mem pm' b)" if "b < pm_next pm'" for b
    using mem frame that by (cases "b = a") auto
  then have "lifecycle_inv pm'"
    by (intro lifecycle_invI [OF inv _ _ le])
       (use inv frame workers in \<open>auto simp: lifecycle_inv_def statuses_allocated_def dest: moves_workerD\<close>)
  then show ?thesis using le by blast
qed

lemma lifecycle_quiet_step:
  assumes inv: "lifecycle_inv pm"
    and frame: "pm_clock pm \<le> pm_clock pm'" "pm_next pm' = pm_next pm"
      "pm_processStatuses pm' = pm_processStatuses pm" "pm_mem pm' = pm_mem pm"
    and workers: "moves_worker w pm pm'"
  shows "lifecycle_inv pm' \<and> store_le pm pm'"
proof -
  have le: "store_le pm pm'" using frame by (simp add: store_le_def)
  have "lifecycle_inv pm'"
    by (rule lifecycle_invI [OF inv _ _ le])
       (use inv frame workers in \<open>auto simp: lifecycle_inv_def statuses_allocated_def dest: moves_workerD\<close>)
  then show ?thesis using le by blast
qed

lemma lifecycle_invD:
  assumes "lifecycle_inv pm"
  shows "0 < pm_clock pm"
    "pm_processStatuses pm pid = Some a \<Longrightarrow> a < pm_next pm"
    "a < pm_next pm \<Longrightarrow> good_status (pm_mem pm a)"
    "w < length (pm_workers pm) \<Longrightarrow> wk_pc (pm_workers pm ! w) = pc \<Longrightarrow> pc_ok pm pc"
  using assms by (auto simp: lifecycle_inv_def statuses_allocated_def)

lemma processUpdate_inv:
  assumes inv: "lifecycle_inv pm" and w: "w < length (pm_workers pm)"
  shows "lifecycle_inv (processUpdate w pm) \<and> store_le pm (processUpdate w pm)"
proof (cases "pm_processStatuses pm (wk_id (pm_workers pm ! w))")
  case None
  then show ?thesis
    using w by (intro lifecycle_quiet_step [OF inv, where w = w]) (auto simp: processUpdate_def moves_worker_def)
next
  case (Some a)
  show ?thesis
  proof (cases "IsFinished (pm_mem pm a) \<or> ps_working (pm_mem pm a) \<or> ps_pending (pm_mem pm a) = None")
    case True
    with Some w show ?thesis
      by (intro lifecycle_quiet_step [OF inv, where w = w]) (auto simp: processUpdate_def Let_def moves_worker_def)
  next
    case False
    with Some w show ?thesis
      using lifecycle_invD(2,3) [OF inv]
      by (intro lifecycle_worker_step [OF inv, where a = a and w = w])
         (auto simp: processUpdate_def Let_def status_le_def good_status_def State_def IsFinished_def moves_worker_def)
  qed
qed

lemma executeSync_inv:
  assumes inv: "lifecycle_inv pm" and w: "w < length (pm_workers pm)"
    and pc: "wk_pc (pm_workers pm ! w) = WExecute a u st"
  shows "lifecycle_inv (executeSync w a u st pm) \<and> store_le pm (executeSync w a u st pm)"
proof -
  have ok: "pc_ok pm (WExecute a u st)" by (rule lifecycle_invD(4) [OF inv w pc])
  then have "good_status (pm_mem pm a)" using lifecycle_invD(3) [OF inv] by simp
  then show ?thesis
    using ok w
    by (intro lifecycle_quiet_step [OF inv, where w = w])
       (auto simp: executeSync_def Let_def moves_worker_def IsTerminating_def good_statusD split: ProcessState.splits)
qed

lemma syncProcess_inv:
  assumes inv: "lifecycle_inv pm" and w: "w < length (pm_workers pm)"
    and pc: "wk_pc (pm_workers pm ! w) = WSyncing a u t"
  shows "lifecycle_inv (syncProcess w a u t terminal err pm) \<and> store_le pm (syncProcess w a u t terminal err pm)"
  using lifecycle_invD(4) [OF inv w pc] lifecycle_invD(3) [OF inv, of a] lifecycle_invD(1) [OF inv] w
  by (cases err; cases terminal; intro lifecycle_worker_step [OF inv, where a = a and w = w])
     (simp_all add: syncProcess_def Let_def status_le_def good_status_def fail_status_def moves_worker_def)

lemma syncTerminating_inv:
  assumes inv: "lifecycle_inv pm" and w: "w < length (pm_workers pm)"
    and pc: "wk_pc (pm_workers pm ! w) = WTerminating a u g t"
  shows "lifecycle_inv (syncTerminating w a u t err pm) \<and> store_le pm (syncTerminating w a u t err pm)"
  using lifecycle_invD(4) [OF inv w pc] lifecycle_invD(3) [OF inv, of a] lifecycle_invD(1) [OF inv] w
  by (cases err; intro lifecycle_worker_step [OF inv, where a = a and w = w])
     (simp_all add: syncTerminating_def Let_def status_le_def good_status_def fail_status_def moves_worker_def
       split: option.splits)

lemma syncTerminated_inv:
  assumes inv: "lifecycle_inv pm" and w: "w < length (pm_workers pm)"
    and pc: "wk_pc (pm_workers pm ! w) = WTerminated a u t"
  shows "lifecycle_inv (syncTerminated w a u err pm) \<and> store_le pm (syncTerminated w a u err pm)"
  using lifecycle_invD(4) [OF inv w pc] lifecycle_invD(3) [OF inv, of a] lifecycle_invD(1) [OF inv] w
  by (cases err; intro lifecycle_worker_step [OF inv, where a = a and w = w])
     (simp_all add: syncTerminated_def Let_def status_le_def good_status_def fail_status_def moves_worker_def)

lemma completeWork_inv:
  assumes inv: "lifecycle_inv pm" and w: "w < length (pm_workers pm)"
  shows "lifecycle_inv (completeWork env w err pm) \<and> store_le pm (completeWork env w err pm)"
proof (cases "pm_processStatuses pm (wk_id (pm_workers pm ! w))")
  case None
  then show ?thesis
    using w by (intro lifecycle_quiet_step [OF inv, where w = w]) (auto simp: completeWork_def moves_worker_def)
next
  case (Some a)
  then show ?thesis
    using w lifecycle_invD(2,3) [OF inv]
    by (intro lifecycle_worker_step [OF inv, where a = a and w = w])
       (auto simp: completeWork_def Let_def status_le_def good_status_def moves_worker_def split: option.splits)
qed

lemma consumer_item_inv:
  assumes inv: "lifecycle_inv pm"
  shows "lifecycle_inv (consumer_item pid pm) \<and> store_le pm (consumer_item pid pm)"
proof (cases "pm_processStatuses pm pid")
  case None
  then show ?thesis
    by (intro lifecycle_quiet_step [OF inv, where w = 0]) (auto simp: consumer_item_def moves_worker_def)
next
  case (Some a)
  then show ?thesis
    using lifecycle_invD(2,3) [OF inv]
    by (intro lifecycle_worker_step [OF inv, where a = a and w = 0])
       (auto simp: consumer_item_def Let_def status_le_def good_status_def moves_worker_def split: option.splits)
qed

lemma store_le_trans: "store_le pm pm1 \<Longrightarrow> store_le pm1 pm2 \<Longrightarrow> store_le pm pm2"
  by (auto simp: store_le_def intro: status_le_trans)

lemma get_or_create_status_inv:
  assumes inv: "lifecycle_inv pm" and get: "get_or_create_status pid pm = (a, pm1)"
  shows "lifecycle_inv pm1 \<and> store_le pm pm1 \<and> pm_processStatuses pm1 pid = Some a"
proof (cases "pm_processStatuses pm pid")
  case None
  then have pm1: "a = pm_next pm" "pm1 = pm\<lparr>pm_processStatuses := (pm_processStatuses pm)(pid \<mapsto> a),
      pm_mem := (pm_mem pm)(a := new_processStatus), pm_next := Suc a\<rparr>"
    using get by (auto simp: get_or_create_status_def)
  have le: "store_le pm pm1" using pm1 by (simp add: store_le_def)
  moreover have "statuses_allocated pm1"
    using inv pm1 by (simp add: lifecycle_inv_def statuses_allocated_def less_SucI)
  ultimately have "lifecycle_inv pm1"
    using pm1 by (intro lifecycle_invI [OF inv]) (auto simp: good_status_def new_processStatus_def less_Suc_eq)
  then show ?thesis using le pm1 by simp
qed (use inv get in \<open>auto simp: get_or_create_status_def store_le_def\<close>)

lemma get_or_create_worker_inv:
  assumes inv: "lifecycle_inv pm" and get: "get_or_create_worker pid pm = (ch, pm1)"
  shows "lifecycle_inv pm1 \<and> store_le pm pm1"
proof -
  have eq: "pm_mem pm1 = pm_mem pm" "pm_next pm1 = pm_next pm" "pm_clock pm1 = pm_clock pm"
      "pm_processStatuses pm1 = pm_processStatuses pm"
      "wk \<in> set (pm_workers pm1) \<Longrightarrow> wk \<in> set (pm_workers pm) \<or> wk_pc wk = WWait" for wk
    using get by (auto simp: get_or_create_worker_def split: option.splits)
  have le: "store_le pm pm1" using eq by (simp add: store_le_def)
  have "lifecycle_inv pm1"
    by (rule lifecycle_invI [OF inv _ _ le]) (use eq inv in \<open>fastforce simp: lifecycle_inv_def statuses_allocated_def\<close>)+
  then show ?thesis using le by blast
qed

lemma UpdateProcess_inv:
  assumes inv: "lifecycle_inv pm"
  shows "lifecycle_inv (UpdateProcess u pm) \<and> store_le pm (UpdateProcess u pm)"
proof -
  obtain a pm1 where a: "get_or_create_status (pu_ID u) pm = (a, pm1)" by fastforce
  note one = get_or_create_status_inv [OF inv a]
  define upd where "upd = (if pu_StartTime u = 0 then u\<lparr>pu_StartTime := pm_clock pm\<rparr> else u)"
  define status1 where "status1 = (if pu_UpdateType upd = UpdateTypeTerminate
    then handleTerminationRequest (pm_clock pm) (pu_TerminateOptions upd) (pm_mem pm1 a) else pm_mem pm1 a)"
  define pm2 where "pm2 = set_status a (status1\<lparr>ps_pending := Some upd\<rparr>) pm1"
  obtain ch pm3 where ch: "get_or_create_worker (pu_ID u) pm2 = (ch, pm3)" by fastforce
  have upd: "pu_ID upd = pu_ID u" by (simp add: upd_def)
  have eq: "UpdateProcess u pm = (if IsFinished (pm_mem pm1 a) then pm1 else signal_chan ch pm3)"
    unfolding UpdateProcess_def Let_def upd_def [symmetric] upd a prod.case status1_def [symmetric] pm2_def [symmetric] ch ..
  have "lifecycle_inv pm2 \<and> store_le pm1 pm2"
    using one lifecycle_invD(1) [OF inv] lifecycle_invD(2,3) [of pm1]
    by (intro lifecycle_worker_step [where a = a and w = 0])
       (auto simp: pm2_def status1_def status_le_def good_status_def moves_worker_def)
  with get_or_create_worker_inv [OF _ ch] one
  have "lifecycle_inv pm3 \<and> store_le pm pm3" by (blast intro: store_le_trans)
  moreover from this have "lifecycle_inv (signal_chan ch pm3) \<and> store_le pm3 (signal_chan ch pm3)"
    by (intro lifecycle_quiet_step [where w = 0]) (auto simp: moves_worker_def)
  ultimately show ?thesis using one unfolding eq by (auto intro: store_le_trans simp del: store_updates)
qed

lemma sync_known_loop_inv:
  assumes "lifecycle_inv pm"
  shows "lifecycle_inv (snd (sync_known_loop desired ord pm result))
    \<and> store_le pm (snd (sync_known_loop desired ord pm result))"
  using assms
proof (induction desired ord pm result rule: sync_known_loop.induct)
  case (1 desired pm result)
  then show ?case by (simp add: store_le_def)
next
  case (2 desired pid ord pm result)
  show ?case
  proof (cases "pm_processStatuses pm pid")
    case None
    with 2 show ?thesis by simp
  next
    case (Some a)
    note a = lifecycle_invD(2) [OF "2.prems" Some] lifecycle_invD(3) [OF "2.prems", of a] lifecycle_invD(1) [OF "2.prems"]
    define orphan where "orphan = (pid \<notin> set desired)"
    show ?thesis
    proof (cases "IsFinished (pm_mem pm a)")
      case True
      let ?pm = "if orphan then pm\<lparr>pm_processStatuses := (pm_processStatuses pm)(pid := None),
        pm_processUpdates := (pm_processUpdates pm)(pid := None)\<rparr> else pm"
      have le: "store_le pm ?pm" by (simp add: store_le_def)
      have "lifecycle_inv ?pm"
        by (rule lifecycle_invI [OF "2.prems" _ _ le])
           (use "2.prems" in \<open>auto simp: lifecycle_inv_def statuses_allocated_def split: if_splits\<close>)
      with "2.IH"(2) [OF Some refl refl True] True Some le show ?thesis
        by (auto simp: Let_def orphan_def intro: store_le_trans)
    next
      case False
      define status' where "status' = (if orphan \<and> \<not> IsTerminating (pm_mem pm a)
        then handleTerminationRequest (pm_clock pm) None (pm_mem pm a) else pm_mem pm a)"
      have "lifecycle_inv (set_status a status' pm) \<and> store_le pm (set_status a status' pm)"
        using a by (intro lifecycle_worker_step [OF "2.prems", where a = a and w = 0])
          (auto simp: status'_def status_le_def good_status_def moves_worker_def)
      with "2.IH"(3) [OF Some refl refl False] False Some show ?thesis
        by (auto simp: Let_def orphan_def [symmetric] status'_def [symmetric] fun_upd_def [of result] intro: store_le_trans simp del: store_updates)
    qed
  qed
qed

lemma pm_step_inv:
  assumes inv: "lifecycle_inv pm" and step: "pm_step env act pm = Some pm'"
  shows "lifecycle_inv pm' \<and> store_le pm pm'"
  using step
proof (cases rule: pm_step_cases)
  case (SyncKnown ord desired)
  then show ?thesis using sync_known_loop_inv [OF inv] by (simp add: SyncKnownProcesses_def)
next
  case (Signal w c)
  then show ?thesis
    by (intro lifecycle_quiet_step [OF inv, where w = w]) (auto simp: moves_worker_def split: option.splits)
next
  case Dequeue
  then show ?thesis
    by (intro lifecycle_quiet_step [OF inv, where w = 0])
       (auto simp: moves_worker_def consumer_dequeue_def split: prod.splits option.splits)
next
  case (Receive w)
  then show ?thesis by (intro lifecycle_quiet_step [OF inv, where w = w]) (auto simp: moves_worker_def)
next
  case (WorkerExit w)
  then show ?thesis by (intro lifecycle_quiet_step [OF inv, where w = w]) (auto simp: moves_worker_def)
qed (use inv UpdateProcess_inv [OF inv] processUpdate_inv [OF inv] executeSync_inv [OF inv] syncProcess_inv [OF inv]
      syncTerminating_inv [OF inv] syncTerminated_inv [OF inv] completeWork_inv [OF inv] consumer_item_inv [OF inv]
      lifecycle_quiet_step [OF inv, where w = 0 and pm' = pm'] in \<open>simp_all add: moves_worker_def\<close>)

lemma apply_option_fields [simp]:
  "pm_clock (apply_option opt pm) = pm_clock pm"
  "pm_next (apply_option opt pm) = pm_next pm"
  "pm_mem (apply_option opt pm) = pm_mem pm"
  "pm_workers (apply_option opt pm) = pm_workers pm"
  "pm_processStatuses (apply_option opt pm) = pm_processStatuses pm"
  "pm_processUpdates (apply_option opt pm) = pm_processUpdates pm"
  "pm_metrics (apply_option opt pm) = pm_metrics pm"
  "pm_chans (apply_option opt pm) = pm_chans pm"
  "pm_nextChan (apply_option opt pm) = pm_nextChan pm"
  "pm_consumer (apply_option opt pm) = pm_consumer pm"
  by (cases opt; simp)+

lemma fold_apply_option_fields [simp]:
  "pm_clock (fold apply_option opts pm) = pm_clock pm"
  "pm_next (fold apply_option opts pm) = pm_next pm"
  "pm_mem (fold apply_option opts pm) = pm_mem pm"
  "pm_workers (fold apply_option opts pm) = pm_workers pm"
  "pm_processStatuses (fold apply_option opts pm) = pm_processStatuses pm"
  "pm_processUpdates (fold apply_option opts pm) = pm_processUpdates pm"
  "pm_metrics (fold apply_option opts pm) = pm_metrics pm"
  "pm_chans (fold apply_option opts pm) = pm_chans pm"
  "pm_nextChan (fold apply_option opts pm) = pm_nextChan pm"
  "pm_consumer (fold apply_option opts pm) = pm_consumer pm"
  by (induction opts arbitrary: pm) simp_all

lemma reachable_inv: "reachable pm \<Longrightarrow> lifecycle_inv pm"
proof (induction rule: reachable.induct)
  case (init now opts)
  then show ?case by (simp add: lifecycle_inv_def NewProcessManager_def statuses_allocated_def)
next
  case (step pm env act pm')
  then show ?case using pm_step_inv by blast
qed

lemma pm_run_reachable: "reachable pm \<Longrightarrow> pm_run env acts pm = Some pm' \<Longrightarrow> reachable pm' \<and> store_le pm pm'"
proof (induction acts arbitrary: pm)
  case Nil
  then show ?case by (simp add: store_le_def)
next
  case (Cons act acts)
  then obtain pm1 where step: "pm_step env act pm = Some pm1" "pm_run env acts pm1 = Some pm'"
    by (auto split: option.splits)
  then have "reachable pm1" "store_le pm pm1"
    using Cons.prems(1) reachable.step pm_step_inv reachable_inv by blast+
  then show ?case using Cons.IH step(2) store_le_trans by blast
qed

fun forward :: "pm_metric \<Rightarrow> bool" where
  "forward (ProcessStateTransition pid old new) \<longleftrightarrow> rank old < rank new"
| "forward _ \<longleftrightarrow> True"

definition metrics_forward :: "'c ProcessManager \<Rightarrow> bool" where
  "metrics_forward pm \<longleftrightarrow> (\<forall>m \<in> set (pm_metrics pm). forward m)"

lemma rank_inj: "rank s = rank t \<longleftrightarrow> s = t"
  by (cases s; cases t) auto

lemma forward_transition:
  "status_le s s' \<Longrightarrow> State s' \<noteq> State s \<Longrightarrow> rank (State s) < rank (State s')"
  using status_le_rank [of s s'] rank_inj [of "State s" "State s'"] by (simp add: order_less_le)

lemma metrics_forward_step:
  assumes inv: "lifecycle_inv pm" and fwd: "metrics_forward pm" and step: "pm_step env act pm = Some pm'"
  shows "metrics_forward pm'"
  using step
proof (cases rule: pm_step_cases)
  case (Update u)
  then show ?thesis using fwd
    by (auto simp: metrics_forward_def UpdateProcess_def Let_def get_or_create_status_def get_or_create_worker_def
      split: option.splits if_splits)
next
  case (SyncKnown ord desired)
  have "pm_metrics (snd (sync_known_loop desired ord pm r)) = pm_metrics pm" for r
    by (induction ord arbitrary: pm r) (auto simp: Let_def split: option.splits)
  then show ?thesis using fwd SyncKnown by (simp add: metrics_forward_def SyncKnownProcesses_def)
next
  case (Process w)
  then show ?thesis using fwd by (auto simp: metrics_forward_def processUpdate_def Let_def split: option.splits if_splits)
next
  case (Execute w a u st)
  then show ?thesis using fwd by (auto simp: metrics_forward_def executeSync_def Let_def split: ProcessState.splits if_splits)
next
  case (Sync w a u t terminal err)
  have "0 < pm_clock pm" by (rule lifecycle_invD(1) [OF inv])
  then show ?thesis using fwd unfolding metrics_forward_def Sync(4)
    by (cases err; cases terminal)
       (auto simp: syncProcess_def Let_def fail_status_def intro!: forward_transition simp: status_le_def)
next
  case (Terminating w a u g t terminal err)
  have "0 < pm_clock pm" by (rule lifecycle_invD(1) [OF inv])
  then show ?thesis using fwd unfolding metrics_forward_def Terminating(4)
    by (cases err) (auto simp: syncTerminating_def Let_def fail_status_def intro!: forward_transition
      simp: status_le_def split: option.splits)
next
  case (Terminated w a u t terminal err)
  have "0 < pm_clock pm" by (rule lifecycle_invD(1) [OF inv])
  then show ?thesis using fwd unfolding metrics_forward_def Terminated(4)
    by (cases err) (auto simp: syncTerminated_def Let_def fail_status_def intro!: forward_transition simp: status_le_def)
next
  case (Complete w err)
  then show ?thesis using fwd by (auto simp: metrics_forward_def completeWork_def Let_def split: option.splits if_splits)
next
  case (Signal w c)
  then show ?thesis using fwd by (auto simp: metrics_forward_def split: option.splits)
next
  case Dequeue
  then show ?thesis using fwd by (auto simp: metrics_forward_def consumer_dequeue_def split: prod.splits option.splits)
next
  case (Item pid)
  then show ?thesis using fwd by (auto simp: metrics_forward_def consumer_item_def Let_def split: option.splits)
qed (use fwd in \<open>auto simp: metrics_forward_def\<close>)
end
