(* ===== verification/Proc_Workers.thy ===== *)
theory Proc_Workers
  imports Proc_Manager
begin

text \<open>
  The workers of the process manager (\<open>pkg/procmgr/manager.go\<close>): every managed process has
  one worker goroutine, the working flag follows it, and no pending update is lost, as long
  as \<open>SyncKnownProcesses\<close> removes no finished process.  When it does, the entry may be
  recreated while the old worker is still in its loop; the run of the last section drives
  two workers into the syncer for one process.
\<close>

subsection \<open>One worker per process\<close>

fun busy :: "'c worker_pc \<Rightarrow> bool" where
  "busy (WExecute a u st) \<longleftrightarrow> True"
| "busy (WSyncing a u t) \<longleftrightarrow> True"
| "busy (WTerminating a u g t) \<longleftrightarrow> True"
| "busy (WTerminated a u t) \<longleftrightarrow> True"
| "busy (WComplete err) \<longleftrightarrow> True"
| "busy _ \<longleftrightarrow> False"

fun pc_status :: "'c worker_pc \<Rightarrow> nat option" where
  "pc_status (WExecute a u st) = Some a"
| "pc_status (WSyncing a u t) = Some a"
| "pc_status (WTerminating a u g t) = Some a"
| "pc_status (WTerminated a u t) = Some a"
| "pc_status _ = None"

definition signalled :: "'c ProcessManager \<Rightarrow> nat \<Rightarrow> bool" where
  "signalled pm ch \<longleftrightarrow> pm_chans pm ch \<or> pm_consumer pm = CSignal ch"

text \<open>
  How a worker, its status and its channel agree: the working flag is set exactly while the
  worker is between \<open>processUpdate\<close> and \<open>completeWork\<close>, and a pending update of an unfinished
  process has a signal on its way or a worker that will look at it.
\<close>

definition slot_ok :: "nat \<Rightarrow> 'c processStatus \<Rightarrow> bool \<Rightarrow> bool \<Rightarrow> nat \<Rightarrow> 'c worker_pc \<Rightarrow> bool" where
  "slot_ok a s sig shut ch pc \<longleftrightarrow> (ps_working s \<longleftrightarrow> busy pc)
     \<and> (\<forall>b. pc_status pc = Some b \<longrightarrow> b = a)
     \<and> (\<forall>c. pc = WSignal c \<longrightarrow> c = Some ch)
     \<and> (pc = WExit \<longrightarrow> shut \<or> IsFinished s)
     \<and> (ps_pending s \<noteq> None \<longrightarrow> IsFinished s \<or> sig \<or> shut \<or> pc \<noteq> WWait)"

definition slot :: "'c ProcessManager \<Rightarrow> 'c worker \<Rightarrow> bool" where
  "slot pm wk \<longleftrightarrow> pm_processUpdates pm (wk_id wk) = Some (wk_chan wk)
     \<and> (\<exists>a. pm_processStatuses pm (wk_id wk) = Some a
        \<and> slot_ok a (pm_mem pm a) (signalled pm (wk_chan wk)) (pm_shutdown pm) (wk_chan wk) (wk_pc wk))"

definition worker_inv :: "'c ProcessManager \<Rightarrow> bool" where
  "worker_inv pm \<longleftrightarrow> distinct (map wk_id (pm_workers pm))
     \<and> dom (pm_processStatuses pm) \<subseteq> wk_id ` set (pm_workers pm)
     \<and> dom (pm_processUpdates pm) \<subseteq> wk_id ` set (pm_workers pm)
     \<and> inj_on (pm_processStatuses pm) (dom (pm_processStatuses pm))
     \<and> inj_on (pm_processUpdates pm) (dom (pm_processUpdates pm))
     \<and> (\<forall>pid ch. pm_processUpdates pm pid = Some ch \<longrightarrow> ch < pm_nextChan pm)
     \<and> (\<forall>w < length (pm_workers pm). slot pm (pm_workers pm ! w))"

definition removes_nothing :: "'c action \<Rightarrow> 'c ProcessManager \<Rightarrow> bool" where
  "removes_nothing act pm \<longleftrightarrow> (\<forall>ord desired pid a. act = ASyncKnown ord desired \<longrightarrow> pid \<in> set ord
     \<longrightarrow> pm_processStatuses pm pid = Some a \<longrightarrow> IsFinished (pm_mem pm a) \<longrightarrow> pid \<in> set desired)"

lemma inj_map_eqD: "inj_on m (dom m) \<Longrightarrow> m x = Some v \<Longrightarrow> m y = Some v \<Longrightarrow> x = y"
  by (auto simp: inj_on_def dom_def)

lemma inj_map_upd: "inj_on m (dom m) \<Longrightarrow> v \<notin> ran m \<Longrightarrow> inj_on (m(k \<mapsto> v)) (dom (m(k \<mapsto> v)))"
  by (auto simp: inj_on_def ran_def dom_def)

lemma slot_ok_mono:
  "slot_ok a s sig shut ch pc \<Longrightarrow> (sig \<Longrightarrow> sig') \<Longrightarrow> (shut \<Longrightarrow> shut') \<Longrightarrow> slot_ok a s sig' shut' ch pc"
  by (auto simp: slot_ok_def)

lemma worker_invD:
  assumes "worker_inv pm" "w < length (pm_workers pm)"
  obtains a where "pm_processUpdates pm (wk_id (pm_workers pm ! w)) = Some (wk_chan (pm_workers pm ! w))"
    "pm_processStatuses pm (wk_id (pm_workers pm ! w)) = Some a"
    "slot_ok a (pm_mem pm a) (signalled pm (wk_chan (pm_workers pm ! w))) (pm_shutdown pm)
       (wk_chan (pm_workers pm ! w)) (wk_pc (pm_workers pm ! w))"
  using assms by (auto simp: worker_inv_def slot_def)

lemma worker_inv_status:
  assumes "worker_inv pm" "pm_processStatuses pm pid = Some a"
  obtains w where "w < length (pm_workers pm)" "wk_id (pm_workers pm ! w) = pid"
proof -
  have "pid \<in> wk_id ` set (pm_workers pm)" using assms by (auto simp: worker_inv_def)
  then show thesis using that by (auto simp: in_set_conv_nth)
qed

text \<open>
  The frame rule of the invariant: a step that touches at most the worker \<open>w\<close>, its status and
  its channel only has to re-establish the slot of that worker.
\<close>

lemma worker_inv_frame:
  assumes inv: "worker_inv pm" and w: "w < length (pm_workers pm)"
    and frame: "pm_processStatuses pm' = pm_processStatuses pm" "pm_processUpdates pm' = pm_processUpdates pm"
      "pm_nextChan pm' = pm_nextChan pm" "pm_shutdown pm \<Longrightarrow> pm_shutdown pm'"
    and workers: "pm_workers pm' = (pm_workers pm)[w := wk']" "wk_id wk' = wk_id (pm_workers pm ! w)"
    and mem: "\<And>b. pm_processStatuses pm (wk_id (pm_workers pm ! w)) \<noteq> Some b \<Longrightarrow> pm_mem pm' b = pm_mem pm b"
    and sig: "\<And>ch. ch \<noteq> wk_chan (pm_workers pm ! w) \<Longrightarrow> signalled pm ch \<Longrightarrow> signalled pm' ch"
    and slot: "slot pm' wk'"
  shows "worker_inv pm'"
proof -
  have ids: "map wk_id (pm_workers pm') = map wk_id (pm_workers pm)"
    using workers w by (simp add: map_update list_update_same_conv)
  have "slot pm' (pm_workers pm' ! i)" if i: "i < length (pm_workers pm)" for i
  proof (cases "i = w")
    case True
    then show ?thesis using workers w slot by simp
  next
    case False
    obtain a where a: "pm_processUpdates pm (wk_id (pm_workers pm ! i)) = Some (wk_chan (pm_workers pm ! i))"
      "pm_processStatuses pm (wk_id (pm_workers pm ! i)) = Some a"
      "slot_ok a (pm_mem pm a) (signalled pm (wk_chan (pm_workers pm ! i))) (pm_shutdown pm)
         (wk_chan (pm_workers pm ! i)) (wk_pc (pm_workers pm ! i))"
      using worker_invD [OF inv i] by blast
    obtain b where b: "pm_processUpdates pm (wk_id (pm_workers pm ! w)) = Some (wk_chan (pm_workers pm ! w))"
      "pm_processStatuses pm (wk_id (pm_workers pm ! w)) = Some b" using worker_invD [OF inv w] by blast
    have ne: "wk_id (pm_workers pm ! i) \<noteq> wk_id (pm_workers pm ! w)"
      using inv i w False by (auto simp: worker_inv_def distinct_conv_nth)
    then have "wk_chan (pm_workers pm ! i) \<noteq> wk_chan (pm_workers pm ! w)" "a \<noteq> b"
      using inv a b unfolding worker_inv_def by (metis inj_map_eqD)+
    then show ?thesis
      using a b False workers frame mem [of a] sig [of "wk_chan (pm_workers pm ! i)"]
      by (auto simp: slot_def intro: slot_ok_mono)
  qed
  moreover have "wk_id ` set (pm_workers pm') = wk_id ` set (pm_workers pm)"
    using ids by (metis set_map)
  ultimately show ?thesis
    using inv frame ids workers unfolding worker_inv_def by simp
qed

lemma processUpdate_worker_inv:
  assumes inv: "worker_inv pm" and w: "w < length (pm_workers pm)" and pc: "wk_pc (pm_workers pm ! w) = WReceived"
  shows "worker_inv (processUpdate w pm)"
proof -
  obtain a where a: "pm_processUpdates pm (wk_id (pm_workers pm ! w)) = Some (wk_chan (pm_workers pm ! w))"
    "pm_processStatuses pm (wk_id (pm_workers pm ! w)) = Some a"
    "slot_ok a (pm_mem pm a) (signalled pm (wk_chan (pm_workers pm ! w))) (pm_shutdown pm)
       (wk_chan (pm_workers pm ! w)) WReceived" using worker_invD [OF inv w] pc by metis
  show ?thesis
    by (rule worker_inv_frame [OF inv w, where wk' = "pm_workers (processUpdate w pm) ! w"])
       (use a w in \<open>auto simp: processUpdate_def Let_def slot_def slot_ok_def signalled_def IsFinished_def split: option.splits\<close>)
qed


lemma executeSync_worker_inv:
  assumes inv: "worker_inv pm" and w: "w < length (pm_workers pm)" and pc: "wk_pc (pm_workers pm ! w) = WExecute a u st"
  shows "worker_inv (executeSync w a u st pm)"
proof -
  obtain b where "pm_processUpdates pm (wk_id (pm_workers pm ! w)) = Some (wk_chan (pm_workers pm ! w))"
    "pm_processStatuses pm (wk_id (pm_workers pm ! w)) = Some b"
    "slot_ok b (pm_mem pm b) (signalled pm (wk_chan (pm_workers pm ! w))) (pm_shutdown pm)
       (wk_chan (pm_workers pm ! w)) (WExecute a u st)" using worker_invD [OF inv w] pc by metis
  then show ?thesis
    by (intro worker_inv_frame [OF inv w, where wk' = "pm_workers (executeSync w a u st pm) ! w"])
       (use w in \<open>auto simp: executeSync_def Let_def slot_def slot_ok_def signalled_def split: ProcessState.splits\<close>)
qed

lemma worker_call_slot:
  assumes inv: "worker_inv pm" and w: "w < length (pm_workers pm)"
    and pc: "pc_status (wk_pc (pm_workers pm ! w)) = Some a"
  shows "pm_processUpdates pm (wk_id (pm_workers pm ! w)) = Some (wk_chan (pm_workers pm ! w))"
    "pm_processStatuses pm (wk_id (pm_workers pm ! w)) = Some a"
    "ps_working (pm_mem pm a)"
proof -
  obtain b where b: "pm_processUpdates pm (wk_id (pm_workers pm ! w)) = Some (wk_chan (pm_workers pm ! w))"
    "pm_processStatuses pm (wk_id (pm_workers pm ! w)) = Some b"
    "slot_ok b (pm_mem pm b) (signalled pm (wk_chan (pm_workers pm ! w))) (pm_shutdown pm)
       (wk_chan (pm_workers pm ! w)) (wk_pc (pm_workers pm ! w))" using worker_invD [OF inv w] by metis
  then have "a = b" using pc by (simp add: slot_ok_def)
  then show "pm_processUpdates pm (wk_id (pm_workers pm ! w)) = Some (wk_chan (pm_workers pm ! w))"
    "pm_processStatuses pm (wk_id (pm_workers pm ! w)) = Some a"
    "ps_working (pm_mem pm a)"
    using b pc by (cases "wk_pc (pm_workers pm ! w)"; simp add: slot_ok_def)+
qed

lemma close_chan_shutdown [simp]: "pm_shutdown (close_chan ch pm) = pm_shutdown pm"
  by (simp add: close_chan_def)

text \<open>What the three returns from the syncer have in common.\<close>

definition returned :: "nat \<Rightarrow> nat \<Rightarrow> sync_error option \<Rightarrow> 'c ProcessManager \<Rightarrow> 'c ProcessManager \<Rightarrow> bool" where
  "returned w a err pm pm' \<longleftrightarrow> pm_processStatuses pm' = pm_processStatuses pm
     \<and> pm_processUpdates pm' = pm_processUpdates pm
     \<and> pm_nextChan pm' = pm_nextChan pm \<and> pm_shutdown pm' = pm_shutdown pm
     \<and> pm_chans pm' = pm_chans pm \<and> pm_consumer pm' = pm_consumer pm
     \<and> pm_workers pm' = (pm_workers pm)[w := (pm_workers pm ! w)\<lparr>wk_pc := WComplete err\<rparr>]
     \<and> ps_working (pm_mem pm' a) = ps_working (pm_mem pm a) \<and> (\<forall>b. b \<noteq> a \<longrightarrow> pm_mem pm' b = pm_mem pm b)"

lemma syncProcess_returned: "returned w a err pm (syncProcess w a u t terminal err pm)"
  by (cases err; simp add: returned_def syncProcess_def Let_def fail_status_def)

lemma syncTerminating_returned: "returned w a err pm (syncTerminating w a u t err pm)"
  by (cases err; simp add: returned_def syncTerminating_def Let_def fail_status_def split: option.split)

lemma syncTerminated_returned: "returned w a err pm (syncTerminated w a u err pm)"
  by (cases err; simp add: returned_def syncTerminated_def Let_def fail_status_def)

lemma returned_worker_inv:
  assumes inv: "worker_inv pm" and w: "w < length (pm_workers pm)"
    and pc: "pc_status (wk_pc (pm_workers pm ! w)) = Some a" and ret: "returned w a err pm pm'"
  shows "worker_inv pm'"
  by (rule worker_inv_frame [OF inv w, where wk' = "(pm_workers pm ! w)\<lparr>wk_pc := WComplete err\<rparr>"])
     (use worker_call_slot [OF inv w pc] ret in \<open>auto simp: returned_def slot_def slot_ok_def signalled_def\<close>)

lemma completeWork_worker_inv:
  assumes inv: "worker_inv pm" and w: "w < length (pm_workers pm)" and pc: "wk_pc (pm_workers pm ! w) = WComplete err"
  shows "worker_inv (completeWork env w err pm)"
proof -
  obtain a where "pm_processUpdates pm (wk_id (pm_workers pm ! w)) = Some (wk_chan (pm_workers pm ! w))"
    "pm_processStatuses pm (wk_id (pm_workers pm ! w)) = Some a" using worker_invD [OF inv w] by metis
  then show ?thesis
    by (intro worker_inv_frame [OF inv w, where wk' = "pm_workers (completeWork env w err pm) ! w"])
       (use w in \<open>auto simp: completeWork_def Let_def slot_def slot_ok_def signalled_def IsFinished_def split: option.splits\<close>)
qed

lemma consumer_item_worker_inv:
  assumes inv: "worker_inv pm" and c: "pm_consumer pm = CItem pid"
  shows "worker_inv (consumer_item pid pm)"
proof (cases "pm_processStatuses pm pid")
  case None
  then show ?thesis using inv c
    by (auto simp: consumer_item_def worker_inv_def slot_def signalled_def)
next
  case (Some a)
  then obtain w where w: "w < length (pm_workers pm)" "wk_id (pm_workers pm ! w) = pid"
    using worker_inv_status [OF inv] by blast
  obtain "pm_processUpdates pm pid = Some (wk_chan (pm_workers pm ! w))"
    "slot_ok a (pm_mem pm a) (signalled pm (wk_chan (pm_workers pm ! w))) (pm_shutdown pm)
       (wk_chan (pm_workers pm ! w)) (wk_pc (pm_workers pm ! w))"
    using worker_invD [OF inv w(1)] w Some by (metis option.inject)
  then show ?thesis
    using Some w c
    by (intro worker_inv_frame [OF inv w(1), where wk' = "pm_workers pm ! w"])
       (auto simp: consumer_item_def Let_def slot_def slot_ok_def signalled_def IsFinished_def split: option.splits)
qed

lemma pu_ID_started [simp]: "pu_ID (if b then u\<lparr>pu_StartTime := t\<rparr> else u) = pu_ID u"
  by simp

lemma UpdateProcess_known_worker_inv:
  assumes inv: "worker_inv pm" and a: "pm_processStatuses pm (pu_ID u) = Some a"
  shows "worker_inv (UpdateProcess u pm)"
proof -
  obtain w where w: "w < length (pm_workers pm)" "wk_id (pm_workers pm ! w) = pu_ID u"
    using worker_inv_status [OF inv a] by blast
  obtain "pm_processUpdates pm (pu_ID u) = Some (wk_chan (pm_workers pm ! w))"
    "slot_ok a (pm_mem pm a) (signalled pm (wk_chan (pm_workers pm ! w))) (pm_shutdown pm)
       (wk_chan (pm_workers pm ! w)) (wk_pc (pm_workers pm ! w))"
    using worker_invD [OF inv w(1)] w a by (metis option.inject)
  then show ?thesis
    using w a
    by (intro worker_inv_frame [OF inv w(1), where wk' = "pm_workers pm ! w"])
       (auto simp: UpdateProcess_def get_or_create_status_def get_or_create_worker_def Let_def slot_def slot_ok_def
          signalled_def IsFinished_def)
qed

lemma UpdateProcess_new_worker_inv:
  assumes inv: "worker_inv pm" and alloc: "statuses_allocated pm" and new: "pm_processStatuses pm (pu_ID u) = None"
  shows "worker_inv (UpdateProcess u pm)"
proof -
  have notin: "pu_ID u \<notin> wk_id ` set (pm_workers pm)"
  proof
    assume "pu_ID u \<in> wk_id ` set (pm_workers pm)"
    then obtain i where i: "i < length (pm_workers pm)" "wk_id (pm_workers pm ! i) = pu_ID u"
      by (auto simp: in_set_conv_nth)
    obtain a where "pm_processStatuses pm (wk_id (pm_workers pm ! i)) = Some a"
      using worker_invD [OF inv i(1)] by blast
    then show False using i new by simp
  qed
  then have nou: "pm_processUpdates pm (pu_ID u) = None" using inv by (auto simp: worker_inv_def)
  define pm' where "pm' = UpdateProcess u pm"
  define s where "s = pm_mem pm' (pm_next pm)"
  have pm': "pm_processStatuses pm' = (pm_processStatuses pm)(pu_ID u \<mapsto> pm_next pm)"
    "pm_processUpdates pm' = (pm_processUpdates pm)(pu_ID u \<mapsto> pm_nextChan pm)"
    "pm_nextChan pm' = Suc (pm_nextChan pm)" "pm_shutdown pm' = pm_shutdown pm" "pm_consumer pm' = pm_consumer pm"
    "pm_chans pm' = (pm_chans pm)(pm_nextChan pm := True)"
    "pm_workers pm' = pm_workers pm @ [\<lparr>wk_id = pu_ID u, wk_chan = pm_nextChan pm, wk_pc = WWait\<rparr>]"
    "pm_mem pm' = (pm_mem pm)(pm_next pm := s)" "\<not> ps_working s"
    using new nou by (simp_all add: s_def pm'_def UpdateProcess_def get_or_create_status_def get_or_create_worker_def
      new_processStatus_def IsFinished_def Let_def)
  have "slot pm' (pm_workers pm' ! i)" if i: "i < length (pm_workers pm')" for i
  proof (cases "i < length (pm_workers pm)")
    case True
    then obtain a where a: "pm_processUpdates pm (wk_id (pm_workers pm ! i)) = Some (wk_chan (pm_workers pm ! i))"
      "pm_processStatuses pm (wk_id (pm_workers pm ! i)) = Some a"
      "slot_ok a (pm_mem pm a) (signalled pm (wk_chan (pm_workers pm ! i))) (pm_shutdown pm)
         (wk_chan (pm_workers pm ! i)) (wk_pc (pm_workers pm ! i))"
      using worker_invD [OF inv] by blast
    moreover have "a \<noteq> pm_next pm" using alloc a by (auto simp: statuses_allocated_def)
    moreover have "wk_id (pm_workers pm ! i) \<noteq> pu_ID u" using notin True by (metis imageI nth_mem)
    ultimately show ?thesis
      using True pm' by (auto simp: slot_def nth_append signalled_def elim!: slot_ok_mono)
  next
    case False
    then have "i = length (pm_workers pm)" using i pm' by simp
    then show ?thesis using pm' by (simp add: slot_def slot_ok_def signalled_def)
  qed
  moreover have "inj_on (pm_processStatuses pm') (dom (pm_processStatuses pm'))"
    using inv alloc unfolding pm' worker_inv_def by (intro inj_map_upd) (auto simp: statuses_allocated_def ran_def)
  moreover have "inj_on (pm_processUpdates pm') (dom (pm_processUpdates pm'))"
    using inv unfolding pm' worker_inv_def by (intro inj_map_upd) (auto simp: ran_def)
  ultimately have "worker_inv pm'"
    using inv notin pm' unfolding worker_inv_def by (auto simp: less_SucI)
  then show ?thesis by (simp add: pm'_def)
qed

lemma set_status_worker_inv:
  assumes inv: "worker_inv pm" and a: "pm_processStatuses pm pid = Some a"
    and s: "ps_working s = ps_working (pm_mem pm a)" "ps_pending s = ps_pending (pm_mem pm a)"
      "ps_finishedAt s = ps_finishedAt (pm_mem pm a)"
  shows "worker_inv (set_status a s pm)"
proof -
  obtain w where w: "w < length (pm_workers pm)" "wk_id (pm_workers pm ! w) = pid"
    using worker_inv_status [OF inv a] by blast
  obtain "pm_processUpdates pm pid = Some (wk_chan (pm_workers pm ! w))"
    "slot_ok a (pm_mem pm a) (signalled pm (wk_chan (pm_workers pm ! w))) (pm_shutdown pm)
       (wk_chan (pm_workers pm ! w)) (wk_pc (pm_workers pm ! w))"
    using worker_invD [OF inv w(1)] w a by (metis option.inject)
  then show ?thesis
    using w a s
    by (intro worker_inv_frame [OF inv w(1), where wk' = "pm_workers pm ! w"])
       (auto simp: slot_def slot_ok_def signalled_def IsFinished_def)
qed

lemma sync_known_loop_worker_inv:
  assumes "worker_inv pm"
    and "\<And>pid a. pid \<in> set ord \<Longrightarrow> pm_processStatuses pm pid = Some a \<Longrightarrow> IsFinished (pm_mem pm a) \<Longrightarrow> pid \<in> set desired"
  shows "worker_inv (snd (sync_known_loop desired ord pm result))"
  using assms
proof (induction ord arbitrary: pm result)
  case (Cons pid ord)
  show ?case
  proof (cases "pm_processStatuses pm pid")
    case None
    with Cons show ?thesis by simp
  next
    case (Some a)
    define status' where "status' = (if pid \<notin> set desired \<and> \<not> IsTerminating (pm_mem pm a)
      then handleTerminationRequest (pm_clock pm) None (pm_mem pm a) else pm_mem pm a)"
    have "worker_inv (set_status a status' pm)"
      by (rule set_status_worker_inv [OF Cons.prems(1) Some]) (simp_all add: status'_def)
    moreover have "pid' \<in> set desired" if "pid' \<in> set ord" "pm_processStatuses pm pid' = Some b"
      "IsFinished (pm_mem (set_status a status' pm) b)" for pid' b
      using Cons.prems(2) [of pid' b] that by (auto simp: IsFinished_def status'_def split: if_splits)
    ultimately have "worker_inv (snd (sync_known_loop desired ord (set_status a status' pm) r))" for r
      using Cons.IH [of "set_status a status' pm"] by simp
    moreover have "worker_inv (snd (sync_known_loop desired ord pm r))" for r
      using Cons.IH [OF Cons.prems(1)] Cons.prems(2) by simp
    ultimately show ?thesis
      using Some Cons.prems(2) [OF _ Some] by (simp add: Let_def status'_def)
  qed
qed simp

lemma worker_inv_quiet:
  assumes "worker_inv pm" "pm_processStatuses pm' = pm_processStatuses pm" "pm_processUpdates pm' = pm_processUpdates pm"
    "pm_nextChan pm' = pm_nextChan pm" "pm_workers pm' = pm_workers pm" "pm_mem pm' = pm_mem pm"
    "pm_shutdown pm \<Longrightarrow> pm_shutdown pm'" "\<And>ch. signalled pm ch \<Longrightarrow> signalled pm' ch"
  shows "worker_inv pm'"
proof -
  have "slot pm' wk" if "slot pm wk" for wk
    using that assms unfolding slot_def by (metis slot_ok_mono)
  then show ?thesis using assms by (simp add: worker_inv_def)
qed

lemma worker_move:
  assumes inv: "worker_inv pm" and w: "w < length (pm_workers pm)"
    and pc: "\<not> busy (wk_pc (pm_workers pm ! w))" "\<not> busy pc" "\<And>c. pc \<noteq> WSignal c" "pc = WExit \<Longrightarrow> pm_shutdown pm"
    and chans: "\<And>ch. ch \<noteq> wk_chan (pm_workers pm ! w) \<Longrightarrow> pm_chans pm ch \<Longrightarrow> chs ch"
    and wait: "pc = WWait \<Longrightarrow> chs (wk_chan (pm_workers pm ! w)) \<or> pm_shutdown pm"
  shows "worker_inv (set_pc w pc (pm\<lparr>pm_chans := chs\<rparr>))"
proof -
  obtain a where "pm_processUpdates pm (wk_id (pm_workers pm ! w)) = Some (wk_chan (pm_workers pm ! w))"
    "pm_processStatuses pm (wk_id (pm_workers pm ! w)) = Some a"
    "slot_ok a (pm_mem pm a) (signalled pm (wk_chan (pm_workers pm ! w))) (pm_shutdown pm)
       (wk_chan (pm_workers pm ! w)) (wk_pc (pm_workers pm ! w))" using worker_invD [OF inv w] by metis
  moreover have "pc_status pc = None" using pc by (cases pc) auto
  ultimately show ?thesis
    using w pc chans wait
    by (intro worker_inv_frame [OF inv w, where wk' = "(pm_workers pm ! w)\<lparr>wk_pc := pc\<rparr>"])
       (auto simp: slot_def slot_ok_def signalled_def)
qed

lemma worker_inv_step:
  assumes inv: "worker_inv pm" and life: "lifecycle_inv pm" and keep: "removes_nothing act pm"
    and step: "pm_step env act pm = Some pm'"
  shows "worker_inv pm'"
  using step
proof (cases rule: pm_step_cases)
  case (Update u)
  then show ?thesis
    using UpdateProcess_known_worker_inv [OF inv] UpdateProcess_new_worker_inv [OF inv] life
    by (cases "pm_processStatuses pm (pu_ID u)") (auto simp: lifecycle_inv_def)
next
  case (SyncKnown ord desired)
  then show ?thesis
    using sync_known_loop_worker_inv [OF inv, of ord desired] keep
    by (simp add: removes_nothing_def SyncKnownProcesses_def)
next
  case (Receive w)
  then show ?thesis using worker_move [OF inv, of w WReceived] by simp
next
  case (WorkerExit w)
  then show ?thesis using worker_move [OF inv, of w WExit "pm_chans pm"] by simp
next
  case (Process w)
  then show ?thesis using processUpdate_worker_inv [OF inv] by simp
next
  case (Execute w a u st)
  then show ?thesis using executeSync_worker_inv [OF inv] by simp
next
  case (Sync w a u t terminal err)
  then show ?thesis using returned_worker_inv [OF inv _ _ syncProcess_returned] by simp
next
  case (Terminating w a u g t terminal err)
  then show ?thesis using returned_worker_inv [OF inv _ _ syncTerminating_returned] by simp
next
  case (Terminated w a u t terminal err)
  then show ?thesis using returned_worker_inv [OF inv _ _ syncTerminated_returned] by simp
next
  case (Complete w err)
  then show ?thesis using completeWork_worker_inv [OF inv] by simp
next
  case (Signal w c)
  then have "c = Some (wk_chan (pm_workers pm ! w))"
    using worker_invD [OF inv Signal(2)] by (metis slot_ok_def)
  then show ?thesis using Signal worker_move [OF inv, of w WWait "(pm_chans pm)(wk_chan (pm_workers pm ! w) := True)"] by simp
next
  case (Item pid)
  then show ?thesis using consumer_item_worker_inv [OF inv] by simp
qed (rule worker_inv_quiet [OF inv];
      auto simp: signalled_def consumer_dequeue_def split: prod.splits option.splits)+

inductive reachable_kept :: "'c ProcessManager \<Rightarrow> bool" where
  init: "0 < now \<Longrightarrow> reachable_kept (NewProcessManager now opts)"
| step: "reachable_kept pm \<Longrightarrow> removes_nothing act pm \<Longrightarrow> pm_step env act pm = Some pm' \<Longrightarrow> reachable_kept pm'"

lemma reachable_kept_inv: "reachable_kept pm \<Longrightarrow> reachable pm \<and> worker_inv pm"
proof (induction rule: reachable_kept.induct)
  case (init now opts)
  have "worker_inv (NewProcessManager now opts)" by (simp add: worker_inv_def NewProcessManager_def)
  then show ?case using reachable.init [OF init] by blast
next
  case (step pm act env pm')
  then show ?case using worker_inv_step reachable_inv reachable.step by blast
qed
end
