(* ===== verification/Proc_Properties.thy ===== *)
theory Proc_Properties
  imports Proc_Workers
begin

text \<open>
  What the process manager (\<open>pkg/procmgr\<close>) promises to its callers: the lifecycle of a
  process only moves forward, one worker serves a process and no update is lost, a request to
  terminate ends in the finished state, the grace period only shrinks, and reconciliation
  removes what it should.  Three theorems record where the code falls short: a zero grace
  period, shutdown of an idle manager, and removal of a process whose worker is still running.
\<close>

subsection \<open>Runs and requests\<close>

definition request_grace :: "go_time \<Rightarrow> int \<Rightarrow> 'c processStatus \<Rightarrow> 'c processStatus" where
  "request_grace now g = handleTerminationRequest now
     (Some \<lparr>to_CompletedCh = None, to_Evict = False, to_GracePeriodSecs = Some g, to_StatusFunc = None\<rparr>)"

definition terminate_run :: "nat \<Rightarrow> string \<Rightarrow> 'c action list" where
  "terminate_run w pid = [AUpdate (terminate_request pid), AReceive w, AProcess w, AExecute w, AReturn w False None,
     AComplete w, ASignal w, AReceive w, AProcess w, AExecute w, AReturn w False None, AComplete w]"

definition exit_run :: "nat \<Rightarrow> 'c action list" where
  "exit_run n = map AWorkerExit [0..<n] @ [AConsumerExit]"

definition demo_env :: delay_env where
  "demo_env = \<lparr>de_fl = (\<lambda>x. x), de_oob = (\<lambda>_. 0), de_rnd = 0\<rparr>"

definition demo_update :: "UpdateType \<Rightarrow> string ProcessUpdate" where
  "demo_update ty = \<lparr>pu_ID = ''x'', pu_UpdateType = ty, pu_StartTime = 0, pu_Config = None, pu_TerminateOptions = None\<rparr>"

definition sync_round :: "nat \<Rightarrow> string action list" where
  "sync_round w = [AReceive w, AProcess w, AExecute w, AReturn w False None]"

definition race_run :: "string action list" where
  "race_run = [AUpdate (demo_update UpdateTypeTerminate)] @ sync_round 0 @ [AComplete 0, ASignal 0]
     @ [AReceive 0, AProcess 0, AExecute 0, ATicker, ADequeue, AItem, AConsumerSignal]
     @ [AReturn 0 False None, ASyncKnown [''x''] []]
     @ [AUpdate (demo_update UpdateTypeCreate), AReceive 1, AProcess 1, AExecute 1, AComplete 0]
     @ [AUpdate (demo_update UpdateTypeUpdate), AReceive 0, AProcess 0, AExecute 0]"

lemma request_grace_period:
  "0 < g \<Longrightarrow> 0 \<le> ps_gracePeriod s \<Longrightarrow>
     ps_gracePeriod (request_grace now g s) = (if ps_gracePeriod s = 0 then g else min (ps_gracePeriod s) g)"
  by (auto simp: request_grace_def handleTerminationRequest_def cancel_ctx_def Let_def)

lemma fold_request_grace:
  "\<forall>g \<in> set gs. 0 < g \<Longrightarrow> 0 < ps_gracePeriod s \<Longrightarrow>
     ps_gracePeriod (fold (request_grace now) gs s) = fold min gs (ps_gracePeriod s)"
  by (induction gs arbitrary: s) (simp_all add: request_grace_period min.commute)

text \<open>
  The first request for termination fixes the grace period and the later ones can only
  shorten it: after requests with positive periods the period is their minimum.
\<close>

theorem grace_period_minimum:
  assumes "gs \<noteq> []" "\<forall>g \<in> set gs. 0 < g" "ps_gracePeriod s = 0"
  shows "ps_gracePeriod (fold (request_grace now) gs s) = Min (set gs)"
proof (cases gs)
  case (Cons g gs')
  then have "ps_gracePeriod (request_grace now g s) = g" using assms by (simp add: request_grace_period)
  then show ?thesis using fold_request_grace [of gs' "request_grace now g s" now] assms Cons Min.set_eq_fold [of g gs'] by simp
qed (use assms in simp)

theorem grace_period_minimum_witness:
  "ps_gracePeriod (fold (request_grace 7) [30, 5, 60] (new_processStatus :: string processStatus)) = 5"
  using grace_period_minimum [of "[30, 5, 60]" "new_processStatus :: string processStatus" 7]
  by (simp add: new_processStatus_def)

text \<open>An explicit grace period of zero is taken for an unset one, so a later request raises it.\<close>

theorem grace_period_zero_raised:
  "ps_gracePeriod (request_grace now' 30 (request_grace now 0 (new_processStatus :: 'c processStatus))) = 30"
  by (simp add: request_grace_def handleTerminationRequest_def cancel_ctx_def Let_def new_processStatus_def)

definition ready :: "'c ProcessManager \<Rightarrow> nat \<Rightarrow> string \<Rightarrow> nat \<Rightarrow> 'c worker_pc \<Rightarrow> bool" where
  "ready pm w pid a pc \<longleftrightarrow> \<not> pm_panicked pm \<and> pm_hasSyncer pm \<and> 0 < pm_clock pm \<and> w < length (pm_workers pm)
     \<and> wk_pc (pm_workers pm ! w) = pc \<and> wk_id (pm_workers pm ! w) = pid
     \<and> pm_processStatuses pm pid = Some a \<and> pm_processUpdates pm pid = Some (wk_chan (pm_workers pm ! w))"

lemma pm_run_append: "pm_run env (xs @ ys) pm = (case pm_run env xs pm of None \<Rightarrow> None | Some pm' \<Rightarrow> pm_run env ys pm')"
  by (induction xs arbitrary: pm) (auto split: option.splits)

lemma worker_starts:
  assumes "ready pm w pid a WWait" "pm_chans pm (wk_chan (pm_workers pm ! w))"
    "\<not> IsFinished (pm_mem pm a)" "\<not> ps_working (pm_mem pm a)" "ps_pending (pm_mem pm a) = Some u"
    "IsTerminating (pm_mem pm a)"
  shows "\<exists>pm'. pm_run env [AReceive w, AProcess w, AExecute w] pm = Some pm'
    \<and> ready pm' w pid a (if IsTerminated (pm_mem pm a) then WTerminated a u (pm_clock pm)
         else WTerminating a u (ps_gracePeriod (pm_mem pm a)) (pm_clock pm))
    \<and> ps_finishedAt (pm_mem pm' a) = ps_finishedAt (pm_mem pm a)"
  using assms
  by (simp add: ready_def pm_step_def worker_step_def processUpdate_def executeSync_def Let_def
    State_def IsFinished_def IsTerminated_def IsTerminating_def)

lemma terminating_returns:
  assumes "ready pm w pid a (WTerminating a u g t)" "ps_finishedAt (pm_mem pm a) = 0" "pu_TerminateOptions u = None"
  shows "\<exists>pm'. pm_run env [AReturn w False None, AComplete w, ASignal w] pm = Some pm' \<and> ready pm' w pid a WWait
    \<and> pm_chans pm' (wk_chan (pm_workers pm' ! w)) \<and> \<not> IsFinished (pm_mem pm' a) \<and> \<not> ps_working (pm_mem pm' a)
    \<and> ps_pending (pm_mem pm' a) \<noteq> None \<and> IsTerminated (pm_mem pm' a)
    \<and> (IsTerminating (pm_mem pm a) \<longrightarrow> IsTerminating (pm_mem pm' a))"
  using assms
  by (simp add: ready_def pm_step_def worker_step_def syncTerminating_def completeWork_def record_transition_def
    IsFinished_def IsTerminated_def IsTerminating_def Let_def)

lemma terminated_returns:
  assumes "ready pm w pid a (WTerminated a u t)"
  shows "\<exists>pm'. pm_run env [AReturn w False None, AComplete w] pm = Some pm' \<and> IsProcessFinished pid pm'"
  using assms
  by (simp add: ready_def pm_step_def worker_step_def syncTerminated_def completeWork_def record_transition_def
    IsFinished_def IsProcessFinished_def Let_def)

text \<open>
  C20: a request to terminate an idle process leads, through the two phases of its worker and
  with a syncer that succeeds, to the finished state.
\<close>

theorem terminate_reaches_finished:
  assumes reach: "reachable_kept pm" and run: "\<not> pm_panicked pm" "pm_hasSyncer pm"
    and w: "w < length (pm_workers pm)" "wk_id (pm_workers pm ! w) = pid" "wk_pc (pm_workers pm ! w) = WWait"
    and live: "\<not> IsProcessTerminated pid pm"
  shows "\<exists>pm'. pm_run env (terminate_run w pid) pm = Some pm' \<and> IsProcessFinished pid pm'"
proof -
  obtain a where a: "pm_processUpdates pm pid = Some (wk_chan (pm_workers pm ! w))"
    "pm_processStatuses pm pid = Some a" "\<not> ps_working (pm_mem pm a)"
    using worker_invD [OF _ w(1)] reachable_kept_inv [OF reach] w by (metis slot_ok_def busy.simps(6))
  have inv: "lifecycle_inv pm" using reachable_kept_inv [OF reach] reachable_inv by blast
  have good: "ps_finishedAt (pm_mem pm a) = 0" "ps_terminatedAt (pm_mem pm a) = 0" "0 < pm_clock pm"
    using live a lifecycle_invD(1) [OF inv] lifecycle_invD(3) [OF inv lifecycle_invD(2) [OF inv a(2)]]
    by (auto simp: IsProcessTerminated_def IsTerminated_def good_status_def)
  define pm1 where "pm1 = UpdateProcess (terminate_request pid) pm"
  have pm1: "ready pm1 w pid a WWait" "pm_chans pm1 (wk_chan (pm_workers pm1 ! w))" "\<not> IsFinished (pm_mem pm1 a)"
    "\<not> ps_working (pm_mem pm1 a)" "IsTerminating (pm_mem pm1 a)" "\<not> IsTerminated (pm_mem pm1 a)"
    "ps_pending (pm_mem pm1 a) = Some ((terminate_request pid)\<lparr>pu_StartTime := pm_clock pm\<rparr>)"
    using a good run w
    by (simp_all add: pm1_def ready_def UpdateProcess_def terminate_request_def get_or_create_status_def
      get_or_create_worker_def IsFinished_def IsTerminating_def IsTerminated_def Let_def)
  obtain pm2 where pm2: "pm_run env [AReceive w, AProcess w, AExecute w] pm1 = Some pm2"
    "ready pm2 w pid a (WTerminating a ((terminate_request pid)\<lparr>pu_StartTime := pm_clock pm\<rparr>)
       (ps_gracePeriod (pm_mem pm1 a)) (pm_clock pm1))" "ps_finishedAt (pm_mem pm2 a) = 0"
    using worker_starts [OF pm1(1-4,7,5)] pm1 by (auto simp: IsFinished_def)
  have opts: "pu_TerminateOptions ((terminate_request pid)\<lparr>pu_StartTime := pm_clock pm\<rparr>) = None"
    by (simp add: terminate_request_def)
  obtain pm3 where pm3: "pm_run env [AReturn w False None, AComplete w, ASignal w] pm2 = Some pm3"
    "ready pm3 w pid a WWait" "pm_chans pm3 (wk_chan (pm_workers pm3 ! w))" "\<not> IsFinished (pm_mem pm3 a)"
    "\<not> ps_working (pm_mem pm3 a)" "ps_pending (pm_mem pm3 a) \<noteq> None" "IsTerminated (pm_mem pm3 a)"
    using terminating_returns [OF pm2(2,3) opts] by blast
  have step1: "pm_step env (AUpdate (terminate_request pid)) pm = Some pm1" using run by (simp add: pm_step_def pm1_def)
  then have "reachable pm1" using reachable_kept_inv [OF reach] reachable.step by blast
  then have "reachable pm3" using pm_run_reachable pm2(1) pm3(1) by blast
  then have "good_status (pm_mem pm3 a)"
    using lifecycle_invD(2,3) reachable_inv pm3(2) unfolding ready_def by blast
  then have "IsTerminating (pm_mem pm3 a)" using pm3(7) by (simp add: good_status_def IsTerminated_def IsTerminating_def)
  then obtain u pm4 where pm4: "pm_run env [AReceive w, AProcess w, AExecute w] pm3 = Some pm4"
    "ready pm4 w pid a (WTerminated a u (pm_clock pm3))"
    using worker_starts [OF pm3(2-5)] pm3(6,7) by force
  obtain pm5 where pm5: "pm_run env [AReturn w False None, AComplete w] pm4 = Some pm5" "IsProcessFinished pid pm5"
    using terminated_returns [OF pm4(2)] by blast
  have eq: "terminate_run w pid = [AUpdate (terminate_request pid)] @ [AReceive w, AProcess w, AExecute w]
      @ [AReturn w False None, AComplete w, ASignal w] @ [AReceive w, AProcess w, AExecute w] @ [AReturn w False None, AComplete w]"
    by (simp add: terminate_run_def)
  have "pm_run env [AUpdate (terminate_request pid)] pm = Some pm1" using step1 by simp
  then show ?thesis
    unfolding eq pm_run_append using pm5(2) by (simp only: pm2(1) pm3(1) pm4(1) pm5(1) option.case) blast
qed

lemma UpdateProcess_waiting:
  "pm_panicked (UpdateProcess u pm) = pm_panicked pm" "pm_consumer (UpdateProcess u pm) = pm_consumer pm"
  "pm_shutdown (UpdateProcess u pm) = pm_shutdown pm"
  "\<forall>wk \<in> set (pm_workers pm). wk_pc wk = WWait \<Longrightarrow> \<forall>wk \<in> set (pm_workers (UpdateProcess u pm)). wk_pc wk = WWait"
  by (auto simp: UpdateProcess_def get_or_create_status_def get_or_create_worker_def Let_def split: option.splits)

lemma UpdateProcess_terminated:
  assumes "statuses_allocated pm" "pm_processStatuses pm pid = Some a"
  shows "pm_processStatuses (UpdateProcess u pm) pid = Some a"
    "ps_terminatedAt (pm_mem (UpdateProcess u pm) a) = ps_terminatedAt (pm_mem pm a)"
    "statuses_allocated (UpdateProcess u pm)"
  using assms
  by (auto simp: UpdateProcess_def get_or_create_status_def get_or_create_worker_def statuses_allocated_def Let_def
    less_SucI split: option.splits)

lemma exit_run_workers:
  assumes "\<not> pm_panicked pm" "pm_shutdown pm" "\<forall>wk \<in> set (pm_workers pm). wk_pc wk = WWait"
    "n \<le> length (pm_workers pm)"
  shows "\<exists>pm'. pm_run env (map AWorkerExit [0..<n]) pm = Some pm' \<and> \<not> pm_panicked pm' \<and> pm_shutdown pm'
    \<and> pm_consumer pm' = pm_consumer pm \<and> pm_mem pm' = pm_mem pm \<and> pm_processStatuses pm' = pm_processStatuses pm
    \<and> length (pm_workers pm') = length (pm_workers pm)
    \<and> (\<forall>i < length (pm_workers pm). wk_pc (pm_workers pm' ! i) = (if i < n then WExit else WWait))"
  using assms(4)
proof (induction n)
  case 0
  then show ?case using assms by simp
next
  case (Suc n)
  then obtain pm1 where pm1: "pm_run env (map AWorkerExit [0..<n]) pm = Some pm1" "\<not> pm_panicked pm1" "pm_shutdown pm1"
    "pm_consumer pm1 = pm_consumer pm" "pm_mem pm1 = pm_mem pm" "pm_processStatuses pm1 = pm_processStatuses pm"
    "length (pm_workers pm1) = length (pm_workers pm)"
    "\<forall>i < length (pm_workers pm). wk_pc (pm_workers pm1 ! i) = (if i < n then WExit else WWait)" by auto
  then have "pm_step env (AWorkerExit n) pm1 = Some (set_pc n WExit pm1)"
    using Suc.prems by (simp add: pm_step_def worker_step_def)
  then have "pm_run env (map AWorkerExit [0..<Suc n]) pm = Some (set_pc n WExit pm1)"
    using pm1(1) by (simp add: pm_run_append)
  then show ?case using pm1 Suc.prems by (auto simp: nth_list_update less_Suc_eq)
qed

lemma Shutdown_waiting:
  assumes "\<forall>wk \<in> set (pm_workers pm). wk_pc wk = WWait" "statuses_allocated pm"
  shows "pm_panicked (Shutdown ord pm) = pm_panicked pm" "pm_consumer (Shutdown ord pm) = pm_consumer pm"
    "pm_shutdown (Shutdown ord pm)" "\<forall>wk \<in> set (pm_workers (Shutdown ord pm)). wk_pc wk = WWait"
    "pm_processStatuses pm pid = Some a \<Longrightarrow> pm_processStatuses (Shutdown ord pm) pid = Some a
       \<and> ps_terminatedAt (pm_mem (Shutdown ord pm) a) = ps_terminatedAt (pm_mem pm a)"
proof -
  let ?f = "\<lambda>pid. UpdateProcess (terminate_request pid)"
  have 1: "pm_panicked (fold ?f ord q) = pm_panicked q \<and> pm_consumer (fold ?f ord q) = pm_consumer q
      \<and> pm_shutdown (fold ?f ord q) = pm_shutdown q" for q :: "'a ProcessManager"
    by (induction ord arbitrary: q) (simp_all add: UpdateProcess_waiting)
  have 2: "\<forall>wk \<in> set (pm_workers q). wk_pc wk = WWait \<Longrightarrow> \<forall>wk \<in> set (pm_workers (fold ?f ord q)). wk_pc wk = WWait"
    for q :: "'a ProcessManager"
  proof (induction ord arbitrary: q)
    case (Cons pid ord)
    show ?case using Cons.IH [OF UpdateProcess_waiting(4) [OF Cons.prems]] by (simp only: fold_simps)
  qed simp
  have 3: "statuses_allocated q \<Longrightarrow> pm_processStatuses q pid = Some a \<Longrightarrow> pm_processStatuses (fold ?f ord q) pid = Some a
      \<and> ps_terminatedAt (pm_mem (fold ?f ord q) a) = ps_terminatedAt (pm_mem q a)" for q :: "'a ProcessManager"
    by (induction ord arbitrary: q) (simp_all add: UpdateProcess_terminated)
  show "pm_panicked (Shutdown ord pm) = pm_panicked pm" "pm_consumer (Shutdown ord pm) = pm_consumer pm"
    "pm_shutdown (Shutdown ord pm)" "\<forall>wk \<in> set (pm_workers (Shutdown ord pm)). wk_pc wk = WWait"
    using assms 1 2 [of "pm\<lparr>pm_shutdown := True\<rparr>"] by (simp_all add: Shutdown_def)
  show "pm_processStatuses pm pid = Some a \<Longrightarrow> pm_processStatuses (Shutdown ord pm) pid = Some a
       \<and> ps_terminatedAt (pm_mem (Shutdown ord pm) a) = ps_terminatedAt (pm_mem pm a)"
    using assms 3 [of "pm\<lparr>pm_shutdown := True\<rparr>"] by (simp add: Shutdown_def statuses_allocated_def)
qed


definition reconciled :: "go_time \<Rightarrow> bool \<Rightarrow> 'c processStatus \<Rightarrow> 'c processStatus" where
  "reconciled now orphan s = (if orphan \<and> \<not> IsTerminating s then handleTerminationRequest now None s else s)"

lemma sync_known_loop_other:
  assumes "pid \<notin> set ord" "inj_on (pm_processStatuses pm) (dom (pm_processStatuses pm))"
  shows "pm_processStatuses (snd (sync_known_loop desired ord pm r)) pid = pm_processStatuses pm pid
    \<and> fst (sync_known_loop desired ord pm r) pid = r pid
    \<and> (pm_processStatuses pm pid = Some a \<longrightarrow> pm_mem (snd (sync_known_loop desired ord pm r)) a = pm_mem pm a)"
  using assms
proof (induction ord arbitrary: pm r)
  case (Cons p ord)
  show ?case
  proof (cases "pm_processStatuses pm p")
    case None
    then show ?thesis using Cons by simp
  next
    case (Some b)
    have ne: "pm_processStatuses pm pid = Some a \<Longrightarrow> a \<noteq> b"
      using inj_map_eqD [OF Cons.prems(2) Some] Cons.prems(1) by auto
    have inj: "inj_on ((pm_processStatuses pm)(p := None)) (dom ((pm_processStatuses pm)(p := None)))"
      using Cons.prems(2) by (auto simp: inj_on_def dom_def)
    show ?thesis using Some ne Cons.prems Cons.IH inj by (simp add: Let_def)
  qed
qed simp

lemma sync_known_loop_in:
  assumes "distinct ord" "pid \<in> set ord" "inj_on (pm_processStatuses pm) (dom (pm_processStatuses pm))"
    "pm_processStatuses pm pid = Some a"
    "res = sync_known_loop desired ord pm r"
  shows "(IsFinished (pm_mem pm a) \<longrightarrow> pm_processStatuses (snd res) pid = (if pid \<in> set desired then Some a else None)
       \<and> fst res pid = r pid \<and> (pid \<in> set desired \<longrightarrow> pm_mem (snd res) a = pm_mem pm a))
    \<and> (\<not> IsFinished (pm_mem pm a) \<longrightarrow> pm_processStatuses (snd res) pid = Some a
       \<and> pm_mem (snd res) a = reconciled (pm_clock pm) (pid \<notin> set desired) (pm_mem pm a)
       \<and> fst res pid = Some (status_view (pm_mem (snd res) a)))"
  using assms(1-4) unfolding assms(5)
proof (induction ord arbitrary: pm r)
  case (Cons p ord)
  show ?case
  proof (cases "p = pid")
    case True
    then have "pid \<notin> set ord" using Cons.prems by simp
    note other = sync_known_loop_other [OF this]
    have inj: "inj_on ((pm_processStatuses pm)(p := None)) (dom ((pm_processStatuses pm)(p := None)))"
      using Cons.prems(3) by (auto simp: inj_on_def dom_def)
    show ?thesis using True Cons.prems inj by (simp add: Let_def other reconciled_def)
  next
    case False
    then have mem: "distinct ord" "pid \<in> set ord" using Cons.prems by auto
    have inj: "inj_on ((pm_processStatuses pm)(p := None)) (dom ((pm_processStatuses pm)(p := None)))"
      using Cons.prems(3) by (auto simp: inj_on_def dom_def)
    obtain pm1 r1 where step: "sync_known_loop desired (p # ord) pm r = sync_known_loop desired ord pm1 r1"
      "inj_on (pm_processStatuses pm1) (dom (pm_processStatuses pm1))" "pm_processStatuses pm1 pid = Some a"
      "pm_mem pm1 a = pm_mem pm a" "pm_clock pm1 = pm_clock pm" "r1 pid = r pid"
    proof (cases "pm_processStatuses pm p")
      case None
      then show ?thesis using that [of pm r] Cons.prems by simp
    next
      case (Some b)
      then have ne: "a \<noteq> b" using inj_map_eqD [OF Cons.prems(3,4)] False by auto
      show ?thesis
      proof (cases "IsFinished (pm_mem pm b)")
        case True
        then show ?thesis
          using that [of "if p \<in> set desired then pm else pm\<lparr>pm_processStatuses := (pm_processStatuses pm)(p := None),
            pm_processUpdates := (pm_processUpdates pm)(p := None)\<rparr>" r] Some Cons.prems False inj
          by (simp add: Let_def)
      next
        case False
        let ?s = "reconciled (pm_clock pm) (p \<notin> set desired) (pm_mem pm b)"
        show ?thesis
          using that [of "set_status b ?s pm" "r(p \<mapsto> status_view ?s)"] False Some Cons.prems(3,4) ne \<open>p \<noteq> pid\<close>
          by (simp add: Let_def reconciled_def)
      qed
    qed
    show ?thesis using Cons.IH [OF mem step(2,3), of r1] unfolding step by simp
  qed
qed simp

lemma sync_known_loop_chans:
  "pm_chans (snd (sync_known_loop desired ord pm r)) = pm_chans pm
   \<and> pm_workers (snd (sync_known_loop desired ord pm r)) = pm_workers pm"
  by (induction ord arbitrary: pm r) (auto simp: Let_def split: option.splits)

text \<open>
  Reconciliation removes exactly the finished processes that are no longer desired, marks
  every other undesired process as terminating, leaves the desired ones alone and reports
  each unfinished process.  It wakes no worker.
\<close>

theorem SyncKnownProcesses_reconciles:
  assumes reach: "reachable_kept pm" and ord: "map_order ord (pm_processStatuses pm)"
    and sync: "SyncKnownProcesses ord desired pm = (result, pm')" and a: "pm_processStatuses pm pid = Some a"
  shows "(pm_processStatuses pm' pid = None \<longleftrightarrow> IsFinished (pm_mem pm a) \<and> pid \<notin> set desired)
    \<and> (\<not> IsFinished (pm_mem pm a) \<longrightarrow> result pid = Some (status_view (pm_mem pm' a))
        \<and> (pid \<notin> set desired \<longrightarrow> IsTerminating (pm_mem pm' a)))
    \<and> (pid \<in> set desired \<longrightarrow> pm_mem pm' a = pm_mem pm a)
    \<and> pm_chans pm' = pm_chans pm \<and> pm_workers pm' = pm_workers pm"
proof -
  have inv: "worker_inv pm" "0 < pm_clock pm"
    using reachable_kept_inv [OF reach] lifecycle_invD(1) reachable_inv by blast+
  have res: "result = fst (sync_known_loop desired ord pm Map.empty)" "pm' = snd (sync_known_loop desired ord pm Map.empty)"
    using sync by (simp_all add: SyncKnownProcesses_def)
  have "distinct ord" "pid \<in> set ord" using ord a by (auto simp: map_order_def)
  moreover have "inj_on (pm_processStatuses pm) (dom (pm_processStatuses pm))" using inv by (simp add: worker_inv_def)
  ultimately show ?thesis
    using sync_known_loop_in [OF _ _ _ a refl, of ord desired Map.empty] inv(2) unfolding res
    by (auto simp: sync_known_loop_chans reconciled_def IsTerminating_def split: if_splits)
qed

text \<open>
  C7: the lifecycle of a process is a chain: it is finished only after it was terminated, and
  terminated only after it was terminating, in every state the goroutines can reach; the
  queries of the manager report it consistently.
\<close>

theorem process_lifecycle:
  assumes reach: "reachable pm" and a: "pm_processStatuses pm pid = Some a"
  shows "(IsProcessFinished pid pm \<longrightarrow> IsProcessTerminated pid pm)
    \<and> (IsProcessTerminated pid pm \<longrightarrow> IsTerminating (pm_mem pm a))
    \<and> (IsProcessFinished pid pm \<longleftrightarrow> ps_finished (pm_mem pm a))
    \<and> (IsProcessFinished pid pm \<longleftrightarrow> map_option pst_State (GetProcessStatus pid pm) = Some ProcessStateFinished)
    \<and> (map_option pst_Healthy (GetProcessStatus pid pm) = Some True \<longrightarrow> \<not> IsTerminating (pm_mem pm a))"
proof -
  have "good_status (pm_mem pm a)" using reachable_inv [OF reach] lifecycle_invD(2,3) a by blast
  then show ?thesis
    using a by (auto simp: good_status_def IsProcessFinished_def IsProcessTerminated_def IsFinished_def IsTerminated_def
      IsTerminating_def GetProcessStatus_def status_view_def Healthy_def State_def split: if_splits)
qed

text \<open>No sequence of steps of any goroutine moves a process back to an earlier state.\<close>

theorem state_never_regresses:
  assumes "reachable pm" "pm_run env acts pm = Some pm'" "pm_processStatuses pm pid = Some a"
  shows "rank (State (pm_mem pm a)) \<le> rank (State (pm_mem pm' a))"
proof -
  have "store_le pm pm'" "a < pm_next pm"
    using pm_run_reachable assms lifecycle_invD(2) reachable_inv by blast+
  then show ?thesis by (simp add: store_le_def status_le_rank)
qed

text \<open>Every state transition that reaches the metrics collector goes forward.\<close>

theorem transitions_forward:
  assumes "reachable pm" "ProcessStateTransition pid old new \<in> set (pm_metrics pm)"
  shows "rank old < rank new"
proof -
  have "metrics_forward pm"
    using assms(1)
  proof (induction rule: reachable.induct)
    case (init now opts)
    then show ?case by (simp add: metrics_forward_def NewProcessManager_def)
  next
    case (step pm env act pm')
    then show ?case using metrics_forward_step reachable_inv by blast
  qed
  then show ?thesis using assms(2) by (force simp: metrics_forward_def)
qed

text \<open>
  C5: as long as no finished process is removed, a process has one worker, and its working
  flag is set exactly while that worker is between taking an update and completing it; so
  the syncer is never called for one process by two goroutines at once.
\<close>

theorem one_worker_per_process:
  assumes reach: "reachable_kept pm" and i: "i < length (pm_workers pm)" "j < length (pm_workers pm)"
    and same: "wk_id (pm_workers pm ! i) = wk_id (pm_workers pm ! j)"
    and a: "pm_processStatuses pm (wk_id (pm_workers pm ! i)) = Some a"
  shows "i = j \<and> (ps_working (pm_mem pm a) \<longleftrightarrow> busy (wk_pc (pm_workers pm ! i)))"
proof -
  have inv: "worker_inv pm" using reachable_kept_inv [OF reach] by blast
  have "i = j" using inv i same by (auto simp: worker_inv_def distinct_conv_nth)
  moreover have "ps_working (pm_mem pm a) \<longleftrightarrow> busy (wk_pc (pm_workers pm ! i))"
    using worker_invD [OF inv i(1)] a by (metis option.inject slot_ok_def)
  ultimately show ?thesis by blast
qed

text \<open>
  C6: no update is lost: while an unfinished process has a pending update and the manager is
  not shut down, its channel holds a signal or one is about to be sent, or its worker is past
  the wait and will look at the pending update.
\<close>

theorem no_lost_update:
  assumes reach: "reachable_kept pm" and a: "pm_processStatuses pm pid = Some a"
    and pending: "ps_pending (pm_mem pm a) \<noteq> None" "\<not> IsProcessFinished pid pm" "\<not> pm_shutdown pm"
  shows "\<exists>wk \<in> set (pm_workers pm). wk_id wk = pid \<and> wk_pc wk \<noteq> WExit
    \<and> (pm_chans pm (wk_chan wk) \<or> pm_consumer pm = CSignal (wk_chan wk) \<or> wk_pc wk \<noteq> WWait)"
proof -
  have inv: "worker_inv pm" using reachable_kept_inv [OF reach] by blast
  obtain w where w: "w < length (pm_workers pm)" "wk_id (pm_workers pm ! w) = pid"
    using worker_inv_status [OF inv a] by blast
  have "slot_ok a (pm_mem pm a) (signalled pm (wk_chan (pm_workers pm ! w))) (pm_shutdown pm)
       (wk_chan (pm_workers pm ! w)) (wk_pc (pm_workers pm ! w))"
    using worker_invD [OF inv w(1)] w a by (metis option.inject)
  then show ?thesis
    using pending w a by (intro bexI [of _ "pm_workers pm ! w"]) (auto simp: slot_ok_def signalled_def IsProcessFinished_def)
qed

text \<open>
  C21: once \<open>SyncKnownProcesses\<close> removes a finished process, exclusion can fail: a run exists
  that removes the process before its worker completes, creates it again, and ends with both
  the old and the new worker inside \<open>SyncProcess\<close> on the same status.
\<close>

theorem removal_breaks_exclusion:
  "\<exists>acts pm i j a u v s t. pm_run demo_env acts (NewProcessManager 1 [WithSyncer True]) = Some pm
     \<and> i < length (pm_workers pm) \<and> j < length (pm_workers pm) \<and> i \<noteq> j
     \<and> wk_id (pm_workers pm ! i) = (''x'' :: string) \<and> wk_id (pm_workers pm ! j) = ''x''
     \<and> pm_processStatuses pm ''x'' = Some a
     \<and> wk_pc (pm_workers pm ! i) = WSyncing a u s \<and> wk_pc (pm_workers pm ! j) = WSyncing a (v :: string ProcessUpdate) t"
proof -
  have run: "case pm_run demo_env race_run (NewProcessManager 1 [WithSyncer True]) of
      Some pm \<Rightarrow> pm_processStatuses pm ''x'' = Some 1 \<and> map (\<lambda>wk. (wk_id wk, wk_pc wk)) (pm_workers pm) =
        [(''x'', WSyncing 1 ((demo_update UpdateTypeUpdate)\<lparr>pu_StartTime := 1\<rparr>) 1),
         (''x'', WSyncing 1 ((demo_update UpdateTypeCreate)\<lparr>pu_StartTime := 1\<rparr>) 1)]
    | None \<Rightarrow> False"
    by code_simp
  then obtain pm where pm: "pm_run demo_env race_run (NewProcessManager 1 [WithSyncer True]) = Some pm"
    "pm_processStatuses pm ''x'' = Some 1" "map (\<lambda>wk. (wk_id wk, wk_pc wk)) (pm_workers pm) =
        [(''x'', WSyncing 1 ((demo_update UpdateTypeUpdate)\<lparr>pu_StartTime := 1\<rparr>) 1),
         (''x'', WSyncing 1 ((demo_update UpdateTypeCreate)\<lparr>pu_StartTime := 1\<rparr>) 1)]"
    by (auto split: option.splits)
  have "length (pm_workers pm) = 2" using arg_cong [OF pm(3), of length] by simp
  moreover from this have "wk_id (pm_workers pm ! 0) = ''x''" "wk_id (pm_workers pm ! 1) = ''x''"
    "wk_pc (pm_workers pm ! 0) = WSyncing 1 ((demo_update UpdateTypeUpdate)\<lparr>pu_StartTime := 1\<rparr>) 1"
    "wk_pc (pm_workers pm ! 1) = WSyncing 1 ((demo_update UpdateTypeCreate)\<lparr>pu_StartTime := 1\<rparr>) 1"
    using arg_cong [OF pm(3), of "\<lambda>l. l ! 0"] arg_cong [OF pm(3), of "\<lambda>l. l ! 1"] by auto
  ultimately show ?thesis
    using pm(1,2) by (intro exI [of _ race_run] exI [of _ pm] exI [of _ "0::nat"] exI [of _ "1::nat"]) auto
qed

subsection \<open>Concrete runs\<close>

definition demo_start :: "string ProcessManager" where
  "demo_start = NewProcessManager 1 [WithSyncer True]"

definition demo_at :: "string action list \<Rightarrow> string ProcessManager" where
  "demo_at acts = the (pm_run demo_env acts demo_start)"

definition create_run :: "string action list" where
  "create_run = [AUpdate (demo_update UpdateTypeCreate)] @ sync_round 0 @ [AComplete 0]"

fun plain_action :: "'c action \<Rightarrow> bool" where
  "plain_action (ASyncKnown ord desired) \<longleftrightarrow> False"
| "plain_action _ \<longleftrightarrow> True"

lemma plain_removes_nothing: "plain_action act \<Longrightarrow> removes_nothing act pm"
  by (auto simp: removes_nothing_def)

lemma pm_run_kept: "reachable_kept pm \<Longrightarrow> list_all plain_action acts \<Longrightarrow> pm_run env acts pm = Some pm' \<Longrightarrow> reachable_kept pm'"
proof (induction acts arbitrary: pm)
  case (Cons act acts)
  then obtain pm1 where step: "pm_step env act pm = Some pm1" "pm_run env acts pm1 = Some pm'"
    by (auto split: option.splits)
  then have "reachable_kept pm1" using Cons.prems plain_removes_nothing reachable_kept.step by fastforce
  then show ?case using Cons step by simp
qed simp

lemma demo_reachable:
  assumes "list_all plain_action acts" "case pm_run demo_env acts demo_start of None \<Rightarrow> False | Some _ \<Rightarrow> True"
  shows "pm_run demo_env acts demo_start = Some (demo_at acts)" "reachable_kept (demo_at acts)" "reachable (demo_at acts)"
proof -
  show run: "pm_run demo_env acts demo_start = Some (demo_at acts)"
    using assms(2) by (auto simp: demo_at_def split: option.splits)
  have "reachable_kept demo_start" unfolding demo_start_def by (rule reachable_kept.init) simp
  then show "reachable_kept (demo_at acts)" by (rule pm_run_kept [OF _ assms(1) run])
  then show "reachable (demo_at acts)" using reachable_kept_inv by blast
qed

lemma create_run_reachable:
  shows "reachable_kept (demo_at create_run)" "reachable (demo_at create_run)"
  by (rule demo_reachable; code_simp)+

lemma finish_run_reachable: "reachable (demo_at (create_run @ terminate_run 0 ''x''))"
  by (rule demo_reachable; code_simp)

theorem process_lifecycle_witness:
  "IsProcessTerminated ''x'' (demo_at (create_run @ terminate_run 0 ''x''))"
proof -
  have a: "pm_processStatuses (demo_at (create_run @ terminate_run 0 ''x'')) ''x'' = Some 0" by code_simp
  have "IsProcessFinished ''x'' (demo_at (create_run @ terminate_run 0 ''x''))" by code_simp
  then show ?thesis using process_lifecycle [OF finish_run_reachable a] by blast
qed

theorem state_never_regresses_witness:
  "rank (State (pm_mem (demo_at create_run) 0)) \<le> rank (State (pm_mem (demo_at (create_run @ terminate_run 0 ''x'')) 0))"
proof -
  have a: "pm_processStatuses (demo_at create_run) ''x'' = Some 0" by code_simp
  have "pm_run demo_env create_run demo_start = Some (demo_at create_run)"
    "pm_run demo_env (create_run @ terminate_run 0 ''x'') demo_start = Some (demo_at (create_run @ terminate_run 0 ''x''))"
    by (rule demo_reachable; code_simp)+
  then have "pm_run demo_env (terminate_run 0 ''x'') (demo_at create_run) = Some (demo_at (create_run @ terminate_run 0 ''x''))"
    by (simp add: pm_run_append)
  then show ?thesis by (rule state_never_regresses [OF create_run_reachable(2) _ a])
qed

theorem transitions_forward_witness: "rank ProcessStateTerminating < rank ProcessStateTerminated"
proof -
  have "ProcessStateTransition ''x'' ProcessStateTerminating ProcessStateTerminated
    \<in> set (pm_metrics (demo_at (create_run @ terminate_run 0 ''x'')))" by code_simp
  then show ?thesis by (rule transitions_forward [OF finish_run_reachable])
qed

theorem one_worker_per_process_witness:
  "\<not> busy (wk_pc (pm_workers (demo_at create_run) ! 0))"
proof -
  have w: "0 < length (pm_workers (demo_at create_run))" by code_simp
  have a: "pm_processStatuses (demo_at create_run) (wk_id (pm_workers (demo_at create_run) ! 0)) = Some 0" by code_simp
  have "\<not> ps_working (pm_mem (demo_at create_run) 0)" by code_simp
  then show ?thesis using one_worker_per_process [OF create_run_reachable(1) w w refl a] by blast
qed

theorem no_lost_update_witness:
  "\<exists>wk \<in> set (pm_workers (demo_at (create_run @ [AUpdate (demo_update UpdateTypeUpdate)]))). wk_id wk = ''x''"
proof -
  let ?pm = "demo_at (create_run @ [AUpdate (demo_update UpdateTypeUpdate)])"
  have r: "reachable_kept ?pm" by (rule demo_reachable; code_simp)
  have a: "pm_processStatuses ?pm ''x'' = Some 0" by code_simp
  have "case ps_pending (pm_mem ?pm 0) of None \<Rightarrow> False | Some _ \<Rightarrow> True" by code_simp
  then have p: "ps_pending (pm_mem ?pm 0) \<noteq> None" by (auto split: option.splits)
  have "\<not> IsProcessFinished ''x'' ?pm" "\<not> pm_shutdown ?pm" by code_simp+
  from no_lost_update [OF r a p this] show ?thesis by blast
qed

theorem terminate_reaches_finished_witness:
  "\<exists>pm'. pm_run demo_env (terminate_run 0 ''x'') (demo_at create_run) = Some pm' \<and> IsProcessFinished ''x'' pm'"
proof (rule terminate_reaches_finished [OF create_run_reachable(1)])
  show "wk_pc (pm_workers (demo_at create_run) ! 0) = WWait" by code_simp
qed code_simp+


theorem SyncKnownProcesses_reconciles_witness:
  "IsTerminating (pm_mem (snd (SyncKnownProcesses [''x''] [] (demo_at create_run))) 0)"
proof -
  let ?pm = "demo_at create_run"
  have a: "pm_processStatuses ?pm ''x'' = Some 0" by code_simp
  have w: "map wk_id (pm_workers ?pm) = [''x'']" by code_simp
  have "dom (pm_processStatuses ?pm) \<subseteq> wk_id ` set (pm_workers ?pm)"
    using reachable_kept_inv [OF create_run_reachable(1)] by (simp add: worker_inv_def)
  then have "dom (pm_processStatuses ?pm) = {''x''}" using arg_cong [OF w, of set] a by auto
  then have ord: "map_order [''x''] (pm_processStatuses ?pm)" by (simp add: map_order_def)
  have "\<not> IsFinished (pm_mem ?pm 0)" by code_simp
  then show ?thesis
    using SyncKnownProcesses_reconciles [OF create_run_reachable(1) ord surjective_pairing a] by simp
qed
end
