(* ===== verification/Isolation.thy ===== *)
theory Isolation
  imports Proc_Properties
begin

text \<open>
  The isolation manager (\<open>pkg/isolation\<close>), which gives every namespace or session a process
  of its own and drives it through the process manager.  An operation that waits lets the
  other goroutines run.  What they do is a schedule of events, and the state they work on is
  a type parameter that contains the manager: \<open>get\<close> and \<open>put\<close> read and write the manager in it
  and \<open>run\<close> performs a list of events.  The timeout of a wait is the end of its schedule.
\<close>

subsection \<open>Types\<close>

datatype IsolationLevel = IsolationNone | IsolationNamespace | IsolationSession | IsolationOther int

fun level_String :: "IsolationLevel \<Rightarrow> string" where
  "level_String IsolationNone = ''None''"
| "level_String IsolationNamespace = ''Namespace''"
| "level_String IsolationSession = ''Session''"
| "level_String (IsolationOther _) = ''Unknown''"

record IsolationKey =
  ik_Namespace :: string
  ik_Session :: string

fun ProcessID :: "IsolationKey \<Rightarrow> IsolationLevel \<Rightarrow> string" where
  "ProcessID k IsolationNone = ''shared''"
| "ProcessID k IsolationNamespace = ''ns:'' @ ik_Namespace k"
| "ProcessID k IsolationSession = ''session:'' @ ik_Session k"
| "ProcessID k (IsolationOther _) = ''shared''"

record 'b ProcessConfig =
  ic_Key :: IsolationKey
  ic_BackendConfig :: 'b
  ic_GracePeriodSec :: int

record 'b ProcessHandle =
  ih_ID :: string
  ih_Key :: IsolationKey
  ih_Config :: "'b ProcessConfig"
  ih_Health :: bool

record 'b IsolationManager =
  im_level :: IsolationLevel
  im_pm :: "'b ProcessConfig ProcessManager"
  im_processes :: "string \<rightharpoonup> 'b ProcessConfig"

datatype isolation_error = StartTimeout string | ProcessNotFound string | TerminateTimeout string

subsection \<open>Operations\<close>

definition NewIsolationManager :: "go_time \<Rightarrow> IsolationLevel \<Rightarrow> Option list \<Rightarrow> 'b IsolationManager" where
  "NewIsolationManager now level opts =
    \<lparr>im_level = level, im_pm = NewProcessManager now (WithSyncer True # opts), im_processes = Map.empty\<rparr>"

text \<open>
  The schedule of \<open>GetOrCreateProcess\<close>: the events between the lookup and the status check,
  between the check and the update, and before each tick of the ticker.
\<close>

record 'e wait_schedule =
  ws_checked :: "'e list"
  ws_submitted :: "'e list"
  ws_ticks :: "'e list list"

definition running_status :: "string \<Rightarrow> 'b IsolationManager \<Rightarrow> ProcessStatus option" where
  "running_status pid im =
    (case GetProcessStatus pid (im_pm im) of
       Some status \<Rightarrow> if pst_State status = ProcessStateSyncing then Some status else None
     | None \<Rightarrow> None)"

fun await_running :: "('w \<Rightarrow> 'b IsolationManager) \<Rightarrow> ('e list \<Rightarrow> 'w \<Rightarrow> 'w) \<Rightarrow> string \<Rightarrow> 'e list list \<Rightarrow> 'w
    \<Rightarrow> ProcessStatus option \<times> 'w" where
  "await_running get run pid [] w = (None, w)"
| "await_running get run pid (evs # ticks) w =
    (let w' = run evs w
     in case running_status pid (get w') of
          Some status \<Rightarrow> (Some status, w')
        | None \<Rightarrow> await_running get run pid ticks w')"

definition create_request :: "string \<Rightarrow> 'c \<Rightarrow> go_time \<Rightarrow> 'c ProcessUpdate" where
  "create_request pid config now = \<lparr>pu_ID = pid, pu_UpdateType = UpdateTypeCreate, pu_StartTime = now,
     pu_Config = Some config, pu_TerminateOptions = None\<rparr>"

definition submit :: "'b ProcessConfig ProcessUpdate \<Rightarrow> 'b IsolationManager \<Rightarrow> 'b IsolationManager" where
  "submit u im = im\<lparr>im_pm := UpdateProcess u (im_pm im)\<rparr>"

definition GetOrCreateProcess :: "('w \<Rightarrow> 'b IsolationManager) \<Rightarrow> ('b IsolationManager \<Rightarrow> 'w \<Rightarrow> 'w)
    \<Rightarrow> ('e list \<Rightarrow> 'w \<Rightarrow> 'w) \<Rightarrow> 'e wait_schedule \<Rightarrow> IsolationKey \<Rightarrow> 'b ProcessConfig \<Rightarrow> 'w
    \<Rightarrow> (isolation_error + 'b ProcessHandle) \<times> 'w" where
  "GetOrCreateProcess get put run sch k config w =
    (let pid = ProcessID k (im_level (get w));
         existing = im_processes (get w) pid;
         w1 = (if existing = None
               then put ((get w)\<lparr>im_processes := (im_processes (get w))(pid \<mapsto> config)\<rparr>) w else w);
         w2 = (if existing = None then w1 else run (ws_checked sch) w1);
         handle = (\<lambda>c status. \<lparr>ih_ID = pid, ih_Key = k, ih_Config = c, ih_Health = pst_Healthy status\<rparr>)
     in case (existing, running_status pid (get w2)) of
          (Some c, Some status) \<Rightarrow> (Inr (handle c status), w2)
        | _ \<Rightarrow>
            (let w3 = run (ws_submitted sch) w2;
                 w4 = put (submit (create_request pid config (pm_clock (im_pm (get w3)))) (get w3)) w3
             in case await_running get run pid (ws_ticks sch) w4 of
                  (Some status, w5) \<Rightarrow> (Inr (handle config status), w5)
                | (None, w5) \<Rightarrow> (Inl (StartTimeout pid), w5)))"

definition GetProcess :: "IsolationKey \<Rightarrow> 'b IsolationManager \<Rightarrow> 'b ProcessHandle option" where
  "GetProcess k im =
    (let pid = ProcessID k (im_level im)
     in case im_processes im pid of
          None \<Rightarrow> None
        | Some config \<Rightarrow>
            (case GetProcessStatus pid (im_pm im) of
               None \<Rightarrow> None
             | Some status \<Rightarrow> Some \<lparr>ih_ID = pid, ih_Key = k, ih_Config = config, ih_Health = pst_Healthy status\<rparr>))"

definition stop_request :: "string \<Rightarrow> nat \<Rightarrow> int \<Rightarrow> 'c ProcessUpdate" where
  "stop_request pid completedCh gracePeriodSec = \<lparr>pu_ID = pid, pu_UpdateType = UpdateTypeTerminate, pu_StartTime = 0,
     pu_Config = None, pu_TerminateOptions = Some \<lparr>to_CompletedCh = Some completedCh, to_Evict = False,
       to_GracePeriodSecs = Some gracePeriodSec, to_StatusFunc = None\<rparr>\<rparr>"

text \<open>
  \<open>sent\<close> are the events between the lookup and the update and \<open>waited\<close> those of the wait, which
  ends at the timeout or when \<open>completedCh\<close>, a new channel, is closed.  When both hold \<open>select\<close>
  may take either branch: \<open>ontime\<close> tells which.
\<close>

definition TerminateProcess :: "('w \<Rightarrow> 'b IsolationManager) \<Rightarrow> ('b IsolationManager \<Rightarrow> 'w \<Rightarrow> 'w)
    \<Rightarrow> ('e list \<Rightarrow> 'w \<Rightarrow> 'w) \<Rightarrow> 'e list \<Rightarrow> 'e list \<Rightarrow> bool \<Rightarrow> nat \<Rightarrow> IsolationKey \<Rightarrow> int \<Rightarrow> 'w
    \<Rightarrow> (isolation_error + unit) \<times> 'w" where
  "TerminateProcess get put run sent waited ontime completedCh k gracePeriodSec w =
    (let pid = ProcessID k (im_level (get w))
     in if im_processes (get w) pid = None then (Inl (ProcessNotFound pid), w)
        else let w1 = run sent w;
                 w2 = run waited (put (submit (stop_request pid completedCh gracePeriodSec) (get w1)) w1)
             in if completedCh \<in> set (pm_closed (im_pm (get w2))) \<and> ontime
                then (Inr (), put ((get w2)\<lparr>im_processes := (im_processes (get w2))(pid := None)\<rparr>) w2)
                else (Inl (TerminateTimeout pid), w2))"

definition ListProcesses :: "string list \<Rightarrow> 'b IsolationManager \<Rightarrow> 'b ProcessHandle list" where
  "ListProcesses ord im = concat (map (\<lambda>pid.
     case im_processes im pid of
       None \<Rightarrow> []
     | Some config \<Rightarrow>
         (case GetProcessStatus pid (im_pm im) of
            None \<Rightarrow> []
          | Some status \<Rightarrow> [\<lparr>ih_ID = pid, ih_Key = ic_Key config, ih_Config = config, ih_Health = pst_Healthy status\<rparr>])) ord)"

definition im_Health :: "string list \<Rightarrow> 'b IsolationManager \<Rightarrow> HealthCheck" where
  "im_Health ord im = Health ord (im_pm im)"

definition im_Shutdown :: "string list \<Rightarrow> 'b IsolationManager \<Rightarrow> 'b IsolationManager" where
  "im_Shutdown ord im = im\<lparr>im_pm := Shutdown ord (im_pm im)\<rparr>"

text \<open>The manager on its own: an event is an action of its process manager, skipped when it is not enabled.\<close>

definition pm_try :: "delay_env \<Rightarrow> 'c action \<Rightarrow> 'c ProcessManager \<Rightarrow> 'c ProcessManager" where
  "pm_try env act pm = (case pm_step env act pm of Some pm' \<Rightarrow> pm' | None \<Rightarrow> pm)"

definition im_run :: "delay_env \<Rightarrow> 'b ProcessConfig action list \<Rightarrow> 'b IsolationManager \<Rightarrow> 'b IsolationManager" where
  "im_run env acts im = im\<lparr>im_pm := fold (pm_try env) acts (im_pm im)\<rparr>"


subsection \<open>Later states of a process manager\<close>

text \<open>
  Nothing in the isolation manager or in the launcher calls \<open>SyncKnownProcesses\<close>, the one
  operation that forgets a process.
\<close>

definition forgets :: "'c action \<Rightarrow> bool" where
  "forgets act \<longleftrightarrow> (\<exists>ord desired. act = ASyncKnown ord desired)"

inductive pm_later :: "'c ProcessManager \<Rightarrow> 'c ProcessManager \<Rightarrow> bool" where
  here: "pm_later pm pm"
| step: "pm_later pm pm1 \<Longrightarrow> pm_step env act pm1 = Some pm2 \<Longrightarrow> \<not> forgets act \<Longrightarrow> pm_later pm pm2"

lemma pm_later_try: "pm_later pm pm1 \<Longrightarrow> \<not> forgets act \<Longrightarrow> pm_later pm (pm_try env act pm1)"
  by (auto simp: pm_try_def intro: pm_later.step split: option.splits)

lemma pm_later_fold: "pm_later pm pm1 \<Longrightarrow> \<forall>act \<in> set acts. \<not> forgets act \<Longrightarrow> pm_later pm (fold (pm_try env) acts pm1)"
  by (induction acts arbitrary: pm1) (auto intro: pm_later_try)

lemmas worker_section_defs = processUpdate_def executeSync_def syncProcess_def syncTerminating_def
  syncTerminated_def completeWork_def Let_def

lemma UpdateProcess_statuses:
  "pm_processStatuses pm pid = Some a \<Longrightarrow> pm_processStatuses (UpdateProcess u pm) pid = Some a"
  by (auto simp: UpdateProcess_def get_or_create_status_def get_or_create_worker_def Let_def split: option.splits prod.splits if_splits)

lemma pm_step_statuses:
  assumes "pm_step env act pm = Some pm'" "\<not> forgets act" "pm_processStatuses pm pid = Some a"
  shows "pm_processStatuses pm' pid = Some a"
  using assms(1)
proof (cases rule: pm_step_cases)
  case (SyncKnown ord desired)
  then show ?thesis using assms(2) by (simp add: forgets_def)
qed (use assms(3) in \<open>auto simp: UpdateProcess_statuses worker_section_defs consumer_dequeue_def consumer_item_def Let_def split: option.splits prod.splits ProcessState.splits\<close>)

text \<open>A process that has been asked to terminate never runs again.\<close>

definition ended :: "string \<Rightarrow> 'c ProcessManager \<Rightarrow> bool" where
  "ended pid pm \<longleftrightarrow> lifecycle_inv pm \<and> (\<exists>a. pm_processStatuses pm pid = Some a
     \<and> rank ProcessStateTerminating \<le> rank (State (pm_mem pm a)))"

lemma ended_mono:
  assumes "ended pid pm" "lifecycle_inv pm'" "store_le pm pm'"
    and "\<And>a. pm_processStatuses pm pid = Some a \<Longrightarrow> pm_processStatuses pm' pid = Some a"
  shows "ended pid pm'"
proof -
  obtain a where a: "pm_processStatuses pm pid = Some a" "rank ProcessStateTerminating \<le> rank (State (pm_mem pm a))" "lifecycle_inv pm"
    using assms(1) by (auto simp: ended_def)
  then have "a < pm_next pm" by (auto simp: lifecycle_inv_def statuses_allocated_def)
  then have "rank (State (pm_mem pm a)) \<le> rank (State (pm_mem pm' a))"
    using assms(3) by (intro status_le_rank) (simp add: store_le_def)
  then show ?thesis using a assms(2,4) by (auto simp: ended_def)
qed

lemma ended_later: "pm_later pm pm' \<Longrightarrow> ended pid pm \<Longrightarrow> ended pid pm'"
proof (induction rule: pm_later.induct)
  case (step pm pm1 env act pm2)
  then have "ended pid pm1" by simp
  moreover from this have "lifecycle_inv pm1" by (simp add: ended_def)
  ultimately show ?case using ended_mono pm_step_inv pm_step_statuses step.hyps(2,3) by metis
qed

lemma ended_update: "ended pid pm \<Longrightarrow> ended pid (UpdateProcess u pm)"
  using ended_mono UpdateProcess_inv UpdateProcess_statuses by (metis ended_def)

lemma ended_not_running: "ended pid (im_pm im) \<Longrightarrow> running_status pid im = None"
  by (auto simp: ended_def running_status_def GetProcessStatus_def status_view_def split: option.splits)

subsection \<open>The world of an isolation manager\<close>

text \<open>
  What the operations need of the state they run in: the manager can be read back, and the
  events of the other goroutines move its process manager forward without forgetting a
  process, as long as they are among the \<open>calm\<close> ones.
\<close>

locale isolation_world =
  fixes get :: "'w \<Rightarrow> 'b IsolationManager"
    and put :: "'b IsolationManager \<Rightarrow> 'w \<Rightarrow> 'w"
    and run :: "'e list \<Rightarrow> 'w \<Rightarrow> 'w"
    and calm :: "'e \<Rightarrow> bool"
  assumes get_put: "get (put im w) = im"
    and run_later: "\<forall>e \<in> set evs. calm e \<Longrightarrow> pm_later (im_pm (get w)) (im_pm (get (run evs w)))"
begin

definition calm_schedule :: "'e wait_schedule \<Rightarrow> bool" where
  "calm_schedule sch \<longleftrightarrow> (\<forall>e \<in> set (ws_checked sch) \<union> set (ws_submitted sch) \<union> \<Union> (set ` set (ws_ticks sch)). calm e)"

lemma await_ended:
  "ended pid (im_pm (get w)) \<Longrightarrow> \<forall>e \<in> \<Union> (set ` set ticks). calm e \<Longrightarrow> \<exists>w'. await_running get run pid ticks w = (None, w')"
proof (induction ticks arbitrary: w)
  case (Cons evs ticks)
  then have "ended pid (im_pm (get (run evs w)))" by (intro ended_later [OF run_later]) auto
  then show ?case using Cons by (simp add: Let_def ended_not_running)
qed simp

lemma ended_times_out:
  assumes "ended pid (im_pm (get w))" "pid = ProcessID k (im_level (get w))" "calm_schedule sch"
  shows "fst (GetOrCreateProcess get put run sch k config w) = Inl (StartTimeout pid)"
proof -
  let ?e = "im_processes (get w) pid"
  let ?w1 = "if ?e = None then put ((get w)\<lparr>im_processes := (im_processes (get w))(pid \<mapsto> config)\<rparr>) w else w"
  let ?w2 = "if ?e = None then ?w1 else run (ws_checked sch) ?w1"
  let ?w3 = "run (ws_submitted sch) ?w2"
  let ?w4 = "put (submit (create_request pid config (pm_clock (im_pm (get ?w3)))) (get ?w3)) ?w3"
  have "ended pid (im_pm (get ?w1))" using assms(1) by (simp add: get_put)
  then have two: "ended pid (im_pm (get ?w2))" using assms(3) by (auto simp: calm_schedule_def intro!: ended_later [OF run_later])
  then have "ended pid (im_pm (get ?w3))" using assms(3) by (intro ended_later [OF run_later]) (auto simp: calm_schedule_def)
  then have "ended pid (im_pm (get ?w4))" by (simp add: get_put submit_def ended_update)
  then obtain w5 where "await_running get run pid (ws_ticks sch) ?w4 = (None, w5)"
    using await_ended [of pid "?w4" "ws_ticks sch"] assms(3) by (auto simp: calm_schedule_def)
  moreover have "running_status pid (get ?w2) = None" using ended_not_running [OF two] .
  ultimately show ?thesis
    unfolding GetOrCreateProcess_def Let_def assms(2) [symmetric] by (cases ?e) simp_all
qed

end

interpretation im_world: isolation_world "\<lambda>im. im" "\<lambda>im _. im" "im_run env" "\<lambda>act. \<not> forgets act"
  by unfold_locales (auto simp: im_run_def intro: pm_later_fold pm_later.here)


subsection \<open>Starting a process\<close>

lemma await_idle:
  assumes "run [] w = w" "running_status pid (get w) = None"
  shows "await_running get run pid (replicate n [] @ ticks) w = await_running get run pid ticks w"
  using assms by (induction n) (auto simp: Let_def)

lemma GetOrCreate_fresh:
  assumes "pid = ProcessID k (im_level (get w))" "im_processes (get w) pid = None"
    and "sch = \<lparr>ws_checked = [], ws_submitted = [], ws_ticks = replicate n [] @ [evs]\<rparr>" "\<And>v. run [] v = v"
    and "wa = put ((get w)\<lparr>im_processes := (im_processes (get w))(pid \<mapsto> config)\<rparr>) w"
    and "wb = put (submit (create_request pid config (pm_clock (im_pm (get wa)))) (get wa)) wa"
    and "running_status pid (get wb) = None" "running_status pid (get (run evs wb)) = Some st"
  shows "GetOrCreateProcess get put run sch k config w
    = (Inr \<lparr>ih_ID = pid, ih_Key = k, ih_Config = config, ih_Health = pst_Healthy st\<rparr>, run evs wb)"
proof -
  have "await_running get run pid (ws_ticks sch) wb = (Some st, run evs wb)"
    using await_idle [of run wb pid get n "[evs]"] assms(3,4,7,8) by (simp add: Let_def)
  then show ?thesis
    using assms(2) by (simp add: GetOrCreateProcess_def Let_def assms(1) [symmetric] assms(3,4) assms(5,6) [symmetric])
qed

lemma pm_run_try: "pm_run env acts pm = Some pm' \<Longrightarrow> fold (pm_try env) acts pm = pm'"
  by (induction acts arbitrary: pm) (auto simp: pm_try_def split: option.splits)

lemma UpdateProcess_starts:
  assumes "pm_processStatuses pm pid = None" "pm_processUpdates pm pid = None" "\<not> pm_panicked pm" "pm_hasSyncer pm"
    and "0 < pm_clock pm" "w = length (pm_workers pm)" "u = create_request pid config (pm_clock pm)"
  shows "ready (UpdateProcess u pm) w pid (pm_next pm) WWait
    \<and> pm_chans (UpdateProcess u pm) (wk_chan (pm_workers (UpdateProcess u pm) ! w))
    \<and> pm_mem (UpdateProcess u pm) (pm_next pm) = new_processStatus\<lparr>ps_pending := Some u\<rparr>"
  using assms by (simp add: UpdateProcess_def get_or_create_status_def get_or_create_worker_def Let_def ready_def
     new_processStatus_def IsFinished_def create_request_def)

lemma worker_begins_sync:
  assumes "ready pm w pid a WWait" "pm_chans pm (wk_chan (pm_workers pm ! w))" "pm_mem pm a = new_processStatus\<lparr>ps_pending := Some u\<rparr>"
  shows "\<exists>pm'. pm_run env [AReceive w, AProcess w, AExecute w] pm = Some pm' \<and> ready pm' w pid a (WSyncing a u (pm_clock pm))
    \<and> pm_mem pm' a = new_processStatus\<lparr>ps_active := Some u, ps_working := True, ps_ctx := Some False\<rparr>"
  using assms by (simp add: ready_def pm_step_def worker_step_def processUpdate_def executeSync_def Let_def ctx_done_def
    State_def IsFinished_def IsTerminating_def new_processStatus_def)

lemma sync_succeeds:
  assumes "ready pm w pid a (WSyncing a u t)" "pm_mem pm a = new_processStatus\<lparr>ps_active := Some u, ps_working := True, ps_ctx := Some False\<rparr>"
  shows "pm_step env (AReturn w False None) pm = Some (syncProcess w a u t False None pm)
    \<and> GetProcessStatus pid (syncProcess w a u t False None pm) = Some \<lparr>pst_State = ProcessStateSyncing, pst_Healthy = True,
         pst_LastSync = pm_clock pm, pst_ErrorCount = 0, pst_LastError = None, pst_RestartCount = 0\<rparr>"
  using assms by (simp add: ready_def pm_step_def worker_step_def syncProcess_def record_transition_def Let_def
    State_def GetProcessStatus_def status_view_def Healthy_def new_processStatus_def)

lemma not_started_yet:
  assumes "ready pm w pid a pc" "pm_mem pm a = new_processStatus\<lparr>ps_pending := p\<rparr>" "im_pm im = pm"
  shows "running_status pid im = None"
  using assms by (simp add: ready_def running_status_def GetProcessStatus_def status_view_def State_def new_processStatus_def)

lemma stop_request_terminates:
  assumes "pm_processStatuses pm pid = None" "0 < pm_clock pm"
  shows "\<exists>status. GetProcessStatus pid (UpdateProcess (stop_request pid ch grace) pm) = Some status \<and> pst_State status = ProcessStateTerminating"
  using assms
  by (auto simp: stop_request_def UpdateProcess_def get_or_create_status_def get_or_create_worker_def handleTerminationRequest_def Let_def
    GetProcessStatus_def status_view_def State_def new_processStatus_def IsTerminating_def IsFinished_def cancel_ctx_def split: option.splits)

subsection \<open>Operations on one process\<close>

text \<open>
  \<open>own\<close> names the worker of a process, or the place it will have.  Its actions and the
  updates of its process do not touch the status of another one.
\<close>

fun act_worker :: "'c action \<Rightarrow> nat option" where
  "act_worker (AReceive w) = Some w"
| "act_worker (AProcess w) = Some w"
| "act_worker (AExecute w) = Some w"
| "act_worker (AReturn w _ _) = Some w"
| "act_worker (AComplete w) = Some w"
| "act_worker (ASignal w) = Some w"
| "act_worker (AWorkerExit w) = Some w"
| "act_worker _ = None"

definition own :: "string \<Rightarrow> nat \<Rightarrow> 'c ProcessManager \<Rightarrow> bool" where
  "own pid w pm \<longleftrightarrow> lifecycle_inv pm \<and> worker_inv pm \<and> (if w < length (pm_workers pm) then wk_id (pm_workers pm ! w) = pid
     else w = length (pm_workers pm) \<and> pid \<notin> wk_id ` set (pm_workers pm))"

lemma own_worker_slot:
  assumes "own pid w pm" "w < length (pm_workers pm)" "pid' \<noteq> pid" "pm_processStatuses pm pid' = Some b"
  obtains a where "pm_processStatuses pm pid = Some a" "a \<noteq> b" "\<And>c. pc_status (wk_pc (pm_workers pm ! w)) = Some c \<Longrightarrow> c = a"
proof -
  have "worker_inv pm" using assms(1) by (simp add: own_def)
  then have "slot pm (pm_workers pm ! w)" "inj_on (pm_processStatuses pm) (dom (pm_processStatuses pm))"
    using assms(2) by (auto simp: worker_inv_def)
  moreover have "wk_id (pm_workers pm ! w) = pid" using assms(1,2) by (simp add: own_def)
  ultimately show ?thesis
    using assms(3,4) that inj_map_eqD by (fastforce simp: slot_def slot_ok_def)
qed

lemma own_worker_step:
  assumes own: "own pid w pm" and act: "act_worker act = Some w" and other: "pid' \<noteq> pid" and step: "pm_step env act pm = Some pm'"
  shows "GetProcessStatus pid' pm' = GetProcessStatus pid' pm"
proof (cases "pm_processStatuses pm pid'")
  case None
  from step have "pm_processStatuses pm' = pm_processStatuses pm"
    by (cases rule: pm_step_cases) (use act in \<open>auto simp: worker_section_defs split: option.splits prod.splits ProcessState.splits\<close>)
  then show ?thesis using None by (simp add: GetProcessStatus_def)
next
  case (Some b)
  from step have w: "w < length (pm_workers pm)" by (cases rule: pm_step_cases) (use act in auto)
  obtain a where a: "pm_processStatuses pm pid = Some a" "a \<noteq> b" "\<And>c. pc_status (wk_pc (pm_workers pm ! w)) = Some c \<Longrightarrow> c = a"
    using own_worker_slot [OF own w other Some] by metis
  have pid: "wk_id (pm_workers pm ! w) = pid" using own w by (simp add: own_def)
  from step have "pm_processStatuses pm' = pm_processStatuses pm \<and> pm_mem pm' b = pm_mem pm b"
    by (cases rule: pm_step_cases) (use act a pid in \<open>auto simp: worker_section_defs split: option.splits prod.splits ProcessState.splits\<close>)
  then show ?thesis using Some by (simp add: GetProcessStatus_def)
qed

lemma step_workers:
  assumes "pm_step env act pm = Some pm'" "act_worker act = Some w"
  shows "map wk_id (pm_workers pm') = map wk_id (pm_workers pm)"
  using assms(1) by (cases rule: pm_step_cases) (use assms(2) in \<open>auto simp: worker_section_defs map_update list_update_same_conv split: option.splits prod.splits ProcessState.splits\<close>)

lemma own_cong: "own pid w pm \<Longrightarrow> lifecycle_inv pm' \<Longrightarrow> worker_inv pm' \<Longrightarrow> map wk_id (pm_workers pm') = map wk_id (pm_workers pm) \<Longrightarrow> own pid w pm'"
  unfolding own_def by (metis length_map nth_map set_map)

lemma own_try:
  assumes "own pid w pm" "act_worker act = Some w"
  shows "own pid w (pm_try env act pm) \<and> (pid' \<noteq> pid \<longrightarrow> GetProcessStatus pid' (pm_try env act pm) = GetProcessStatus pid' pm)"
proof (cases "pm_step env act pm")
  case (Some pm')
  have "removes_nothing act pm" using assms(2) by (auto simp: removes_nothing_def)
  then have "lifecycle_inv pm'" "worker_inv pm'" using assms(1) Some pm_step_inv worker_inv_step by (auto simp: own_def)
  then show ?thesis
    using Some own_cong [OF assms(1)] step_workers [OF Some assms(2)] own_worker_step [OF assms _ Some] by (simp add: pm_try_def)
qed (use assms in \<open>simp add: pm_try_def\<close>)

lemma own_fold:
  assumes "own pid w pm" "\<forall>act \<in> set acts. act_worker act = Some w"
  shows "own pid w (fold (pm_try env) acts pm) \<and> (pid' \<noteq> pid \<longrightarrow> GetProcessStatus pid' (fold (pm_try env) acts pm) = GetProcessStatus pid' pm)"
  using assms
proof (induction acts arbitrary: pm)
  case (Cons act acts)
  then show ?case using own_try [of pid w pm act env pid'] by simp
qed simp

lemma own_update:
  assumes own: "own pid w pm" and "pu_ID u = pid"
  shows "own pid w (UpdateProcess u pm) \<and> (pid' \<noteq> pid \<longrightarrow> GetProcessStatus pid' (UpdateProcess u pm) = GetProcessStatus pid' pm)"
proof -
  have inv: "worker_inv pm" "lifecycle_inv pm" using own by (auto simp: own_def)
  have "worker_inv (UpdateProcess u pm)"
    using UpdateProcess_known_worker_inv [OF inv(1), of u] UpdateProcess_new_worker_inv [OF inv(1), of u] inv(2)
    by (cases "pm_processStatuses pm (pu_ID u)") (auto simp: lifecycle_inv_def)
  moreover have "lifecycle_inv (UpdateProcess u pm)" using UpdateProcess_inv [OF inv(2)] by simp
  moreover have "pm_processUpdates pm pid \<noteq> None" if "w < length (pm_workers pm)"
    using inv(1) own that by (auto simp: worker_inv_def slot_def own_def)
  moreover have "pm_processUpdates pm pid = None \<or> pid \<in> wk_id ` set (pm_workers pm)" using inv(1) by (auto simp: worker_inv_def)
  ultimately have "own pid w (UpdateProcess u pm)"
    using own assms(2) by (auto simp: own_def UpdateProcess_def get_or_create_status_def get_or_create_worker_def Let_def nth_append
      split: option.splits prod.splits if_splits)
  moreover have "GetProcessStatus pid' (UpdateProcess u pm) = GetProcessStatus pid' pm" if "pid' \<noteq> pid"
  proof -
    have "inj_on (pm_processStatuses pm) (dom (pm_processStatuses pm))" using inv(1) by (simp add: worker_inv_def)
    then have "b \<noteq> a" if "pm_processStatuses pm pid' = Some b" "pm_processStatuses pm pid = Some a" for a b
      using that \<open>pid' \<noteq> pid\<close> inj_map_eqD by metis
    moreover have "b \<noteq> pm_next pm" if "pm_processStatuses pm pid' = Some b" for b
      using inv(2) that by (auto simp: lifecycle_inv_def statuses_allocated_def)
    ultimately show ?thesis using that assms(2)
      by (cases "pm_processStatuses pm pid'") (auto simp: GetProcessStatus_def UpdateProcess_def get_or_create_status_def
        get_or_create_worker_def Let_def split: option.splits prod.splits if_splits)
  qed
  ultimately show ?thesis by simp
qed

definition unaffected :: "string \<Rightarrow> 'b IsolationManager \<Rightarrow> 'b IsolationManager \<Rightarrow> bool" where
  "unaffected pid im im' \<longleftrightarrow> im_level im' = im_level im \<and> im_processes im' pid = im_processes im pid
     \<and> GetProcessStatus pid (im_pm im') = GetProcessStatus pid (im_pm im)"

lemma unaffected_trans: "unaffected pid im im1 \<Longrightarrow> unaffected pid im1 im2 \<Longrightarrow> unaffected pid im im2"
  by (simp add: unaffected_def)

lemma im_run_own:
  assumes "own pid w (im_pm im)" "\<forall>act \<in> set acts. act_worker act = Some w" "pid' \<noteq> pid"
  shows "own pid w (im_pm (im_run env acts im)) \<and> unaffected pid' im (im_run env acts im)"
  using own_fold [OF assms(1,2), of env pid'] assms(3) by (simp add: im_run_def unaffected_def)

lemma submit_own:
  assumes "own pid w (im_pm im)" "pu_ID u = pid" "pid' \<noteq> pid"
  shows "own pid w (im_pm (submit u im)) \<and> unaffected pid' im (submit u im)"
  using own_update [OF assms(1,2), of pid'] assms(3) by (simp add: submit_def unaffected_def)

lemma await_own:
  assumes "own pid w (im_pm im)" "\<forall>act \<in> \<Union> (set ` set ticks). act_worker act = Some w" "pid' \<noteq> pid"
  shows "unaffected pid' im (snd (await_running (\<lambda>im. im) (im_run env) pid ticks im))"
  using assms(1,2)
proof (induction ticks arbitrary: im)
  case (Cons acts ticks)
  note one = im_run_own [OF Cons.prems(1) _ assms(3), of acts env]
  from Cons show ?case using one unaffected_trans by (fastforce simp: Let_def split: option.splits)
qed (simp add: unaffected_def)

lemma operations_unaffected:
  assumes own: "own pid w (im_pm im)" and pid: "pid = ProcessID k (im_level im)" "j \<noteq> pid"
    and acts: "\<forall>act \<in> set (ws_checked sch) \<union> set (ws_submitted sch) \<union> \<Union> (set ` set (ws_ticks sch)). act_worker act = Some w"
      "\<forall>act \<in> set sent \<union> set waited. act_worker act = Some w"
  shows "unaffected j im (snd (GetOrCreateProcess (\<lambda>im. im) (\<lambda>im _. im) (im_run env) sch k config im))
    \<and> unaffected j im (snd (TerminateProcess (\<lambda>im. im) (\<lambda>im _. im) (im_run env) sent waited ontime ch k grace im))"
proof -
  let ?U = "unaffected j im"
  let ?ok = "\<lambda>im'. own pid w (im_pm im') \<and> ?U im'"
  have run: "?ok (im_run env acts im')" if "?ok im'" "\<forall>act \<in> set acts. act_worker act = Some w" for im' acts
    using that im_run_own [of pid w im' acts j env] pid(2) unaffected_trans by blast
  have sub: "?ok (submit u im')" if "?ok im'" "pu_ID u = pid" for im' u
    using that submit_own [of pid w im' u j] pid(2) unaffected_trans by blast
  have put: "?ok (im'\<lparr>im_processes := (im_processes im')(pid := c)\<rparr>)" if "?ok im'" for im' c
    using that pid(2) by (simp add: unaffected_def)
  have await: "?U (snd (await_running (\<lambda>im. im) (im_run env) pid (ws_ticks sch) im'))" if "?ok im'" for im'
    using that await_own [of pid w im' "ws_ticks sch" j env] acts(1) pid(2) unaffected_trans by (meson UnCI)
  let ?im1 = "if im_processes im pid = None then im\<lparr>im_processes := (im_processes im)(pid \<mapsto> config)\<rparr> else im"
  let ?im2 = "if im_processes im pid = None then ?im1 else im_run env (ws_checked sch) ?im1"
  let ?im3 = "im_run env (ws_submitted sch) ?im2"
  let ?im4 = "submit (create_request pid config (pm_clock (im_pm ?im3))) ?im3"
  have zero: "?ok im" using own by (simp add: unaffected_def)
  have two: "?ok ?im2" using run [OF zero, of "ws_checked sch"] put [OF zero, of "Some config"] acts(1) by simp
  then have "?ok ?im3" using run acts(1) by simp
  then have "?ok ?im4" by (rule sub) (simp add: create_request_def)
  then obtain st im5 where five: "await_running (\<lambda>im. im) (im_run env) pid (ws_ticks sch) ?im4 = (st, im5)" "?U im5"
    using await by (metis prod.collapse)
  have "?U (snd (GetOrCreateProcess (\<lambda>im. im) (\<lambda>im _. im) (im_run env) sch k config im))"
    using two five unfolding GetOrCreateProcess_def Let_def pid(1) [symmetric]
    by (cases "im_processes im pid"; cases "running_status pid ?im2"; cases st) simp_all
  moreover have "?ok (im_run env waited (submit (stop_request pid ch grace) (im_run env sent im)))"
    using acts(2) zero by (intro run sub) (auto simp: stop_request_def)
  then have "?U (snd (TerminateProcess (\<lambda>im. im) (\<lambda>im _. im) (im_run env) sent waited ontime ch k grace im))"
    using put zero unfolding TerminateProcess_def Let_def pid(1) [symmetric] by simp
  ultimately show ?thesis by simp
qed


subsection \<open>Properties\<close>

text \<open>
  Once a process has been asked to terminate, the isolation manager can never start the
  process of that namespace or session again: every later request for it ends in a timeout,
  whatever the workers, the clock and other callers do meanwhile, because the process manager
  keeps the ended process under its identifier and nothing makes it forget one.
\<close>

theorem terminated_never_restarted:
  assumes "reachable (im_pm im)" "pid = ProcessID k (im_level im)" "GetProcessStatus pid (im_pm im) = Some status"
    and "pst_State status \<in> {ProcessStateTerminating, ProcessStateTerminated, ProcessStateFinished}"
    and "\<forall>act \<in> set (ws_checked sch) \<union> set (ws_submitted sch) \<union> \<Union> (set ` set (ws_ticks sch)). \<not> forgets act"
  shows "fst (GetOrCreateProcess (\<lambda>im. im) (\<lambda>im _. im) (im_run env) sch k config im) = Inl (StartTimeout pid)"
proof (rule im_world.ended_times_out)
  show "ended pid (im_pm im)"
    using reachable_inv [OF assms(1)] assms(3,4) by (auto simp: ended_def GetProcessStatus_def status_view_def)
  show "im_world.calm_schedule sch" unfolding im_world.calm_schedule_def by (rule assms(5))
qed (rule assms(2))

text \<open>
  A request for a namespace or session without a process starts one: with a worker that
  runs and a syncer that succeeds, the handle of a healthy process with the caller's
  configuration is returned, and the configuration is recorded under the process identifier.
\<close>

theorem get_or_create_starts:
  assumes "pid = ProcessID k (im_level im)" "im_processes im pid = None"
    and "pm_processStatuses (im_pm im) pid = None" "pm_processUpdates (im_pm im) pid = None"
    and "pm_hasSyncer (im_pm im)" "\<not> pm_panicked (im_pm im)" "0 < pm_clock (im_pm im)" "w = length (pm_workers (im_pm im))"
    and "sch = \<lparr>ws_checked = [], ws_submitted = [], ws_ticks = replicate n [] @ [[AReceive w, AProcess w, AExecute w, AReturn w False None]]\<rparr>"
    and run: "GetOrCreateProcess (\<lambda>im. im) (\<lambda>im _. im) (im_run env) sch k config im = (r, im')"
  shows "r = Inr \<lparr>ih_ID = pid, ih_Key = k, ih_Config = config, ih_Health = True\<rparr>
    \<and> im_processes im' = (im_processes im)(pid \<mapsto> config) \<and> GetProcess k im' = Some (projr r)"
proof -
  let ?im1 = "im\<lparr>im_processes := (im_processes im)(pid \<mapsto> config)\<rparr>"
  let ?u = "create_request pid config (pm_clock (im_pm im))" and ?a = "pm_next (im_pm im)"
  let ?im2 = "submit ?u ?im1"
  note up = UpdateProcess_starts [OF assms(3,4,6,5,7,8) refl, of config]
  obtain pm3 where three: "pm_run env [AReceive w, AProcess w, AExecute w] (im_pm ?im2) = Some pm3"
      "ready pm3 w pid ?a (WSyncing ?a ?u (pm_clock (im_pm ?im2)))"
      "pm_mem pm3 ?a = new_processStatus\<lparr>ps_active := Some ?u, ps_working := True, ps_ctx := Some False\<rparr>"
    using worker_begins_sync up by (fastforce simp: submit_def)
  note fin = sync_succeeds [OF three(2,3), of env]
  let ?pm4 = "syncProcess w ?a ?u (pm_clock (im_pm ?im2)) False None pm3"
  have "pm_run env ([AReceive w, AProcess w, AExecute w] @ [AReturn w False None]) (im_pm ?im2) = Some ?pm4"
    unfolding pm_run_append three(1) using fin by simp
  then have last: "im_run env [AReceive w, AProcess w, AExecute w, AReturn w False None] ?im2 = ?im2\<lparr>im_pm := ?pm4\<rparr>"
    unfolding im_run_def by (simp only: pm_run_try append_Cons append_Nil)
  have "GetOrCreateProcess (\<lambda>im. im) (\<lambda>im _. im) (im_run env) sch k config im
      = (Inr \<lparr>ih_ID = pid, ih_Key = k, ih_Config = config, ih_Health = True\<rparr>, ?im2\<lparr>im_pm := ?pm4\<rparr>)"
  proof (rule GetOrCreate_fresh [where wa = "?im1" and wb = "?im2" and st = "\<lparr>pst_State = ProcessStateSyncing, pst_Healthy = True,
         pst_LastSync = pm_clock pm3, pst_ErrorCount = 0, pst_LastError = None, pst_RestartCount = 0\<rparr>", THEN trans])
    show "running_status pid ?im2 = None" using up by (intro not_started_yet) (auto simp: submit_def)
    show "im_run env [] x = x" for x by (simp add: im_run_def)
  qed (use assms(1,2,9) fin last in \<open>simp_all add: running_status_def\<close>)
  then have "(r, im') = (Inr \<lparr>ih_ID = pid, ih_Key = k, ih_Config = config, ih_Health = True\<rparr>, ?im2\<lparr>im_pm := ?pm4\<rparr>)"
    using run by simp
  then show ?thesis using fin assms(1) by (simp add: submit_def GetProcess_def)
qed

text \<open>
  C11: the bulkhead: starting or terminating the process of one namespace or session leaves
  every other one as it was, whatever the worker of that process does and however its syncer
  fails while the operation waits.
\<close>

theorem bulkhead:
  assumes inv: "reachable_kept (im_pm im)" and pid: "pid = ProcessID k (im_level im)" "ProcessID j (im_level im) \<noteq> pid"
    and w: "if w < length (pm_workers (im_pm im)) then wk_id (pm_workers (im_pm im) ! w) = pid
      else w = length (pm_workers (im_pm im)) \<and> pid \<notin> wk_id ` set (pm_workers (im_pm im))"
    and acts: "\<forall>act \<in> set (ws_checked sch) \<union> set (ws_submitted sch) \<union> \<Union> (set ` set (ws_ticks sch)). act_worker act = Some w"
      "\<forall>act \<in> set sent \<union> set waited. act_worker act = Some w"
  shows "GetProcess j (snd (GetOrCreateProcess (\<lambda>im. im) (\<lambda>im _. im) (im_run env) sch k config im)) = GetProcess j im
    \<and> GetProcess j (snd (TerminateProcess (\<lambda>im. im) (\<lambda>im _. im) (im_run env) sent waited ontime ch k grace im)) = GetProcess j im"
proof -
  have "own pid w (im_pm im)" using reachable_kept_inv [OF inv] reachable_inv w by (auto simp: own_def)
  from operations_unaffected [OF this pid acts] show ?thesis
    by (simp add: GetProcess_def unaffected_def Let_def cong: option.case_cong)
qed

subsection \<open>Examples\<close>

definition demo_key :: IsolationKey where
  "demo_key = \<lparr>ik_Namespace = ''a'', ik_Session = ''s''\<rparr>"

definition demo_config :: "unit ProcessConfig" where
  "demo_config = \<lparr>ic_Key = demo_key, ic_BackendConfig = (), ic_GracePeriodSec = 10\<rparr>"

definition demo_im :: "unit IsolationManager" where
  "demo_im = NewIsolationManager 1 IsolationNamespace []"

lemma demo_im_fields [simp]:
  "im_level demo_im = IsolationNamespace" "im_processes demo_im = Map.empty" "pm_processStatuses (im_pm demo_im) = Map.empty"
  "pm_processUpdates (im_pm demo_im) = Map.empty" "pm_hasSyncer (im_pm demo_im)" "\<not> pm_panicked (im_pm demo_im)"
  "pm_clock (im_pm demo_im) = 1" "pm_workers (im_pm demo_im) = []"
  by (simp_all add: demo_im_def NewIsolationManager_def NewProcessManager_def)

lemma demo_im_reachable: "reachable (im_pm demo_im)" "reachable_kept (im_pm demo_im)"
  by (simp_all add: demo_im_def NewIsolationManager_def reachable.init reachable_kept.init)

definition demo_stopped :: "unit IsolationManager" where
  "demo_stopped = submit (stop_request ''ns:a'' 0 5) demo_im"

lemma demo_stopped_terminating:
  "im_level demo_stopped = IsolationNamespace \<and> reachable (im_pm demo_stopped)
    \<and> (\<exists>status. GetProcessStatus ''ns:a'' (im_pm demo_stopped) = Some status \<and> pst_State status = ProcessStateTerminating)"
proof -
  have "pm_step demo_env (AUpdate (stop_request ''ns:a'' 0 5)) (im_pm demo_im) = Some (im_pm demo_stopped)"
    by (simp add: pm_step_def demo_stopped_def submit_def)
  from reachable.step [OF demo_im_reachable(1) this] show ?thesis
    using stop_request_terminates [of "im_pm demo_im" "''ns:a''" 0 5] by (simp add: demo_stopped_def submit_def)
qed

theorem terminated_never_restarted_witness:
  "fst (GetOrCreateProcess (\<lambda>im. im) (\<lambda>im _. im) (im_run demo_env)
     \<lparr>ws_checked = [], ws_submitted = [ATick 1], ws_ticks = [[], [AReceive 0, AProcess 0]]\<rparr> demo_key demo_config demo_stopped) = Inl (StartTimeout ''ns:a'')"
proof -
  obtain status where "GetProcessStatus ''ns:a'' (im_pm demo_stopped) = Some status" "pst_State status = ProcessStateTerminating"
    using demo_stopped_terminating by blast
  then show ?thesis
    using demo_stopped_terminating
      terminated_never_restarted [of demo_stopped "''ns:a''" demo_key status
        "\<lparr>ws_checked = [], ws_submitted = [ATick 1], ws_ticks = [[], [AReceive 0, AProcess 0]]\<rparr>" demo_env demo_config]
    by (simp add: demo_key_def forgets_def)
qed

theorem get_or_create_starts_witness:
  "\<exists>im'. GetOrCreateProcess (\<lambda>im. im) (\<lambda>im _. im) (im_run demo_env)
     \<lparr>ws_checked = [], ws_submitted = [], ws_ticks = [[], [AReceive 0, AProcess 0, AExecute 0, AReturn 0 False None]]\<rparr> demo_key demo_config demo_im
     = (Inr \<lparr>ih_ID = ''ns:a'', ih_Key = demo_key, ih_Config = demo_config, ih_Health = True\<rparr>, im')"
proof -
  obtain r im' where "GetOrCreateProcess (\<lambda>im. im) (\<lambda>im _. im) (im_run demo_env)
     \<lparr>ws_checked = [], ws_submitted = [], ws_ticks = [[], [AReceive 0, AProcess 0, AExecute 0, AReturn 0 False None]]\<rparr> demo_key demo_config demo_im = (r, im')"
    by fastforce
  with get_or_create_starts [of "''ns:a''" demo_key demo_im 0 _ 1 demo_env demo_config r im'] show ?thesis
    by (simp add: demo_key_def)
qed

theorem bulkhead_witness:
  "GetProcess (demo_key\<lparr>ik_Namespace := ''b''\<rparr>) (snd (GetOrCreateProcess (\<lambda>im. im) (\<lambda>im _. im) (im_run demo_env)
     \<lparr>ws_checked = [], ws_submitted = [], ws_ticks = [[AReceive 0, AProcess 0, AExecute 0, AReturn 0 False (Some ContextCanceled)]]\<rparr>
     demo_key demo_config demo_im)) = None"
  using bulkhead [of demo_im "''ns:a''" demo_key "demo_key\<lparr>ik_Namespace := ''b''\<rparr>" 0
    "\<lparr>ws_checked = [], ws_submitted = [], ws_ticks = [[AReceive 0, AProcess 0, AExecute 0, AReturn 0 False (Some ContextCanceled)]]\<rparr>"
    "[]" "[]" demo_env demo_config True 0 5]
  by (simp add: demo_im_reachable demo_key_def) (simp add: GetProcess_def)
end
