(* ===== verification/Mem_Store.thy ===== *)
theory Mem_Store
  imports Prism_Prelude "HOL-Library.AList"
begin

text \<open>
  The in-memory drivers (\<open>pkg/drivers/memstore/memstore.go\<close> and \<open>pubsub.go\<close>), the key-value
  interface of the plugins (\<open>pkg/plugin/interfaces.go\<close>) and the key-value pattern that
  delegates to a driver (\<open>patterns/keyvalue/keyvalue.go\<close>).  A \<open>sync.Map\<close> is an association
  list with distinct keys, of which the operations use the lookup and the number of entries;
  the operations of one driver run one after another, each with a reading of the clock.  A
  channel is a buffer of bounded length in a store of channels, and a send on a closed
  channel or a second close is a panic.  The interface is a record of operations on a state,
  and its laws are the locale \<open>kv_store\<close>, of which the driver is an instance.
\<close>

subsection \<open>The key-value driver\<close>

record MemConfig =
  mc_MaxKeys :: int
  mc_CleanupPeriod :: duration

record MemStore =
  ms_data :: "(string \<times> bytes) list"
  ms_ttl :: "(string \<times> go_time) list"
  ms_config :: "MemConfig option"

definition NewMemStore :: MemStore where
  "NewMemStore = \<lparr>ms_data = [], ms_ttl = [], ms_config = None\<rparr>"

definition ms_Initialize :: "MemConfig option \<Rightarrow> MemStore \<Rightarrow> (string + unit) \<times> MemStore" where
  "ms_Initialize backendConfig m =
    (case backendConfig of
       None \<Rightarrow> (Inl ''failed to parse backend config'', m)
     | Some c \<Rightarrow>
         (let c1 = (if mc_MaxKeys c = 0 then c\<lparr>mc_MaxKeys := 10000\<rparr> else c);
              c2 = (if mc_CleanupPeriod c1 = 0 then c1\<lparr>mc_CleanupPeriod := 60000000000\<rparr> else c1)
          in (Inr (), m\<lparr>ms_config := Some c2\<rparr>)))"

definition ms_remove :: "string \<Rightarrow> MemStore \<Rightarrow> MemStore" where
  "ms_remove key m = m\<lparr>ms_data := AList.delete key (ms_data m), ms_ttl := AList.delete key (ms_ttl m)\<rparr>"

definition ms_expired :: "go_time \<Rightarrow> string \<Rightarrow> MemStore \<Rightarrow> bool" where
  "ms_expired now key m = (case map_of (ms_ttl m) key of None \<Rightarrow> False | Some exp' \<Rightarrow> exp' < now)"

text \<open>The multiplication of the time to live with the nanoseconds of a second wraps.\<close>

definition ms_Set :: "go_time \<Rightarrow> string \<Rightarrow> bytes \<Rightarrow> int \<Rightarrow> MemStore \<Rightarrow> (string + unit) \<times> MemStore" where
  "ms_Set now key value ttlSeconds m =
    (if (case ms_config m of None \<Rightarrow> False
         | Some config \<Rightarrow> int (length (ms_data m)) \<ge> mc_MaxKeys config \<and> map_of (ms_data m) key = None)
     then (Inl ''capacity limit reached'', m)
     else (let m1 = m\<lparr>ms_data := AList.update key value (ms_data m)\<rparr>
           in (Inr (),
               if ttlSeconds > 0
               then m1\<lparr>ms_ttl := AList.update key (now + int64 (ttlSeconds * 1000000000)) (ms_ttl m1)\<rparr>
               else m1\<lparr>ms_ttl := AList.delete key (ms_ttl m1)\<rparr>)))"

definition ms_Get :: "go_time \<Rightarrow> string \<Rightarrow> MemStore \<Rightarrow> bytes option \<times> MemStore" where
  "ms_Get now key m =
    (if ms_expired now key m then (None, ms_remove key m) else (map_of (ms_data m) key, m))"

definition ms_Delete :: "string \<Rightarrow> MemStore \<Rightarrow> MemStore" where
  "ms_Delete key m = ms_remove key m"

definition ms_Exists :: "go_time \<Rightarrow> string \<Rightarrow> MemStore \<Rightarrow> bool \<times> MemStore" where
  "ms_Exists now key m =
    (if ms_expired now key m then (False, ms_remove key m) else (map_of (ms_data m) key \<noteq> None, m))"

text \<open>One tick of the cleanup goroutine.\<close>

definition ms_cleanup :: "go_time \<Rightarrow> MemStore \<Rightarrow> MemStore" where
  "ms_cleanup now m =
    m\<lparr>ms_data := filter (\<lambda>(k, v). \<not> ms_expired now k m) (ms_data m),
      ms_ttl := filter (\<lambda>(k, v). \<not> v < now) (ms_ttl m)\<rparr>"

definition ms_Stop :: "MemStore \<Rightarrow> MemStore" where
  "ms_Stop m = m\<lparr>ms_data := [], ms_ttl := []\<rparr>"

datatype HealthState = HealthUnknown | HealthHealthy | HealthDegraded | HealthUnhealthy

record HealthStatus =
  hs_Status :: HealthState
  hs_Message :: string
  hs_Details :: "(string \<times> string) list"

definition ms_Health :: "MemStore \<Rightarrow> HealthStatus" where
  "ms_Health m =
    (let keyCount = length (ms_data m)
     in case ms_config m of
          None \<Rightarrow> \<lparr>hs_Status = HealthHealthy, hs_Message = ''healthy, '' @ itoa (int keyCount) @ '' keys stored'',
            hs_Details = [(''keys'', itoa (int keyCount))]\<rparr>
        | Some config \<Rightarrow>
            (let details = [(''keys'', itoa (int keyCount)), (''max_keys'', itoa (mc_MaxKeys config))]
             in if int keyCount \<ge> mc_MaxKeys config
                then \<lparr>hs_Status = HealthDegraded, hs_Message = ''at capacity: '' @ itoa (int keyCount) @ ''/''
                       @ itoa (mc_MaxKeys config) @ '' keys'', hs_Details = details\<rparr>
                else \<lparr>hs_Status = HealthHealthy, hs_Message = ''healthy, '' @ itoa (int keyCount) @ '' keys stored'',
                       hs_Details = details\<rparr>))"

subsection \<open>The key-value interface and the pattern on it\<close>

record 's KeyValueBasicInterface =
  kvb_Set :: "go_time \<Rightarrow> string \<Rightarrow> bytes \<Rightarrow> int \<Rightarrow> 's \<Rightarrow> (string + unit) \<times> 's"
  kvb_Get :: "go_time \<Rightarrow> string \<Rightarrow> 's \<Rightarrow> (string + bytes option) \<times> 's"
  kvb_Delete :: "string \<Rightarrow> 's \<Rightarrow> (string + unit) \<times> 's"
  kvb_Exists :: "go_time \<Rightarrow> string \<Rightarrow> 's \<Rightarrow> (string + bool) \<times> 's"

definition memstore_kv :: "MemStore KeyValueBasicInterface" where
  "memstore_kv = \<lparr>kvb_Set = ms_Set, kvb_Get = (\<lambda>now k m. map_prod Inr id (ms_Get now k m)),
     kvb_Delete = (\<lambda>k m. (Inr (), ms_Delete k m)), kvb_Exists = (\<lambda>now k m. map_prod Inr id (ms_Exists now k m))\<rparr>"

record 's KeyValue =
  kv_driver :: "'s KeyValueBasicInterface"
  kv_name :: string

definition NewWithDriver :: "string \<Rightarrow> 's KeyValueBasicInterface \<Rightarrow> 's KeyValue" where
  "NewWithDriver driverName driver = \<lparr>kv_driver = driver, kv_name = ''keyvalue-'' @ driverName\<rparr>"

definition kv_Set :: "'s KeyValue \<Rightarrow> go_time \<Rightarrow> string \<Rightarrow> bytes \<Rightarrow> int \<Rightarrow> 's \<Rightarrow> (string + unit) \<times> 's" where
  "kv_Set kv now key value ttlSeconds s = kvb_Set (kv_driver kv) now key value ttlSeconds s"

definition kv_Get :: "'s KeyValue \<Rightarrow> go_time \<Rightarrow> string \<Rightarrow> 's \<Rightarrow> (string + bytes option) \<times> 's" where
  "kv_Get kv now key s = kvb_Get (kv_driver kv) now key s"

definition kv_Delete :: "'s KeyValue \<Rightarrow> string \<Rightarrow> 's \<Rightarrow> (string + unit) \<times> 's" where
  "kv_Delete kv key s = kvb_Delete (kv_driver kv) key s"

definition kv_Exists :: "'s KeyValue \<Rightarrow> go_time \<Rightarrow> string \<Rightarrow> 's \<Rightarrow> (string + bool) \<times> 's" where
  "kv_Exists kv now key s = kvb_Exists (kv_driver kv) now key s"

subsection \<open>The publish/subscribe driver\<close>

record PubSubMessage =
  psm_Topic :: string
  psm_Payload :: bytes
  psm_Metadata :: "string \<rightharpoonup> string"
  psm_MessageID :: string
  psm_Timestamp :: int

datatype go_panic = SendOnClosedChannel | CloseOfClosedChannel | MakechanSizeOutOfRange | NonPositiveTicker

record msg_chan =
  ch_buf :: "PubSubMessage list"
  ch_cap :: nat
  ch_closed :: bool

record MemPubSub =
  mps_subscribers :: "(string \<times> (string \<times> nat) list) list"
  mps_chans :: "nat \<Rightarrow> msg_chan"
  mps_next :: nat
  mps_bufferSize :: "int option"

definition NewPubSub :: MemPubSub where
  "NewPubSub = \<lparr>mps_subscribers = [], mps_chans = (\<lambda>_. \<lparr>ch_buf = [], ch_cap = 0, ch_closed = False\<rparr>),
     mps_next = 0, mps_bufferSize = None\<rparr>"

definition mps_Initialize :: "int option \<Rightarrow> MemPubSub \<Rightarrow> (string + unit) \<times> MemPubSub" where
  "mps_Initialize backendConfig m =
    (case backendConfig of
       None \<Rightarrow> (Inl ''failed to parse backend config'', m)
     | Some n \<Rightarrow> (Inr (), m\<lparr>mps_bufferSize := Some (if n = 0 then 100 else n)\<rparr>))"

definition close_msg_chan :: "nat \<Rightarrow> (nat \<Rightarrow> msg_chan) \<Rightarrow> go_panic + (nat \<Rightarrow> msg_chan)" where
  "close_msg_chan c chans =
    (if ch_closed (chans c) then Inl CloseOfClosedChannel
     else Inr (chans(c := (chans c)\<lparr>ch_closed := True\<rparr>)))"

fun close_all :: "nat list \<Rightarrow> (nat \<Rightarrow> msg_chan) \<Rightarrow> go_panic + (nat \<Rightarrow> msg_chan)" where
  "close_all [] chans = Inr chans"
| "close_all (c # cs) chans =
    (case close_msg_chan c chans of Inl e \<Rightarrow> Inl e | Inr chans' \<Rightarrow> close_all cs chans')"

definition mps_Stop :: "MemPubSub \<Rightarrow> go_panic + MemPubSub" where
  "mps_Stop m =
    (case close_all (concat (map (map snd \<circ> snd) (mps_subscribers m))) (mps_chans m) of
       Inl e \<Rightarrow> Inl e
     | Inr chans \<Rightarrow> Inr (m\<lparr>mps_chans := chans\<rparr>))"

text \<open>A send that does not wait: it is dropped when the buffer is full.\<close>

definition try_send :: "PubSubMessage \<Rightarrow> nat \<Rightarrow> (nat \<Rightarrow> msg_chan) \<Rightarrow> go_panic + (nat \<Rightarrow> msg_chan)" where
  "try_send msg c chans =
    (if ch_closed (chans c) then Inl SendOnClosedChannel
     else if length (ch_buf (chans c)) < ch_cap (chans c)
     then Inr (chans(c := (chans c)\<lparr>ch_buf := ch_buf (chans c) @ [msg]\<rparr>))
     else Inr chans)"

fun send_all :: "PubSubMessage \<Rightarrow> nat list \<Rightarrow> (nat \<Rightarrow> msg_chan) \<Rightarrow> go_panic + (nat \<Rightarrow> msg_chan)" where
  "send_all msg [] chans = Inr chans"
| "send_all msg (c # cs) chans =
    (case try_send msg c chans of Inl e \<Rightarrow> Inl e | Inr chans' \<Rightarrow> send_all msg cs chans')"

definition mps_Publish :: "string \<Rightarrow> go_time \<Rightarrow> string \<Rightarrow> bytes \<Rightarrow> (string \<rightharpoonup> string) \<Rightarrow> MemPubSub
    \<Rightarrow> go_panic + string \<times> MemPubSub" where
  "mps_Publish messageID now topic payload metadata m =
    (let msg = \<lparr>psm_Topic = topic, psm_Payload = payload, psm_Metadata = metadata,
                psm_MessageID = messageID, psm_Timestamp = now div 1000000\<rparr>
     in case map_of (mps_subscribers m) topic of
          None \<Rightarrow> Inr (messageID, m)
        | Some subMap \<Rightarrow>
            (case send_all msg (map snd subMap) (mps_chans m) of
               Inl e \<Rightarrow> Inl e
             | Inr chans \<Rightarrow> Inr (messageID, m\<lparr>mps_chans := chans\<rparr>)))"

definition mps_Subscribe :: "string \<Rightarrow> string \<Rightarrow> MemPubSub \<Rightarrow> go_panic + nat \<times> MemPubSub" where
  "mps_Subscribe topic subscriberID m =
    (let bufferSize = (case mps_bufferSize m of None \<Rightarrow> 100 | Some n \<Rightarrow> n);
         ch = mps_next m;
         subMap = (case map_of (mps_subscribers m) topic of None \<Rightarrow> [] | Some sm \<Rightarrow> sm)
     in if bufferSize < 0 then Inl MakechanSizeOutOfRange
        else Inr (ch, m\<lparr>mps_chans := (mps_chans m)(ch := \<lparr>ch_buf = [], ch_cap = nat bufferSize, ch_closed = False\<rparr>),
               mps_next := Suc ch,
               mps_subscribers := AList.update topic (AList.update subscriberID ch subMap) (mps_subscribers m)\<rparr>))"

definition mps_Unsubscribe :: "string \<Rightarrow> string \<Rightarrow> MemPubSub \<Rightarrow> go_panic + MemPubSub" where
  "mps_Unsubscribe topic subscriberID m =
    (case map_of (mps_subscribers m) topic of
       None \<Rightarrow> Inr m
     | Some subMap \<Rightarrow>
         (case map_of subMap subscriberID of
            None \<Rightarrow> Inr m
          | Some ch \<Rightarrow>
              (case close_msg_chan ch (mps_chans m) of
                 Inl e \<Rightarrow> Inl e
               | Inr chans \<Rightarrow> Inr (m\<lparr>mps_chans := chans,
                   mps_subscribers := AList.update topic (AList.delete subscriberID subMap) (mps_subscribers m)\<rparr>))))"

text \<open>The consumer's side: receiving takes the oldest message of the buffer.\<close>

definition mps_Receive :: "nat \<Rightarrow> MemPubSub \<Rightarrow> PubSubMessage option \<times> MemPubSub" where
  "mps_Receive c m =
    (case ch_buf (mps_chans m c) of
       [] \<Rightarrow> (None, m)
     | msg # rest \<Rightarrow> (Some msg, m\<lparr>mps_chans := (mps_chans m)(c := (mps_chans m c)\<lparr>ch_buf := rest\<rparr>)\<rparr>))"

definition mps_Health :: "MemPubSub \<Rightarrow> HealthStatus" where
  "mps_Health m =
    (let topics = itoa (int (length (mps_subscribers m)));
         subscribers = itoa (int (length (concat (map snd (mps_subscribers m)))))
     in \<lparr>hs_Status = HealthHealthy,
         hs_Message = ''healthy, '' @ topics @ '' topics, '' @ subscribers @ '' subscribers'',
         hs_Details = [(''topics'', topics), (''subscribers'', subscribers)]\<rparr>)"

subsection \<open>The contract of a key-value store\<close>

datatype kv_op = KSet string bytes int | KGet string | KDelete string | KExists string
datatype kv_out = KDone | KRefused | KValue "bytes option" | KFound bool | KFailed

definition entry_view :: "go_time \<Rightarrow> (string \<rightharpoonup> bytes \<times> go_time option) \<Rightarrow> string \<rightharpoonup> bytes" where
  "entry_view t A k = (case A k of None \<Rightarrow> None
     | Some (v, e) \<Rightarrow> (case e of None \<Rightarrow> Some v | Some x \<Rightarrow> if x < t then None else Some v))"

text \<open>
  What a caller may observe: a map whose entries carry an optional instant of expiry.  Only a
  write of a new key may be refused, and then nothing changes.
\<close>

inductive kv_spec :: "(string \<rightharpoonup> bytes \<times> go_time option) \<Rightarrow> go_time \<Rightarrow> kv_op \<Rightarrow> kv_out
    \<Rightarrow> (string \<rightharpoonup> bytes \<times> go_time option) \<Rightarrow> bool" where
  set_done: "kv_spec A t (KSet k v ttl) KDone
     (A(k \<mapsto> (v, if 0 < ttl then Some (t + ttl * 1000000000) else None)))"
| set_refused: "entry_view t A k = None \<Longrightarrow> kv_spec A t (KSet k v ttl) KRefused A"
| get: "kv_spec A t (KGet k) (KValue (entry_view t A k)) A"
| delete: "kv_spec A t (KDelete k) KDone (A(k := None))"
| exists: "kv_spec A t (KExists k) (KFound (entry_view t A k \<noteq> None)) A"

inductive kv_spec_run :: "(string \<rightharpoonup> bytes \<times> go_time option) \<Rightarrow> (go_time \<times> kv_op) list \<Rightarrow> kv_out list \<Rightarrow> bool" where
  none: "kv_spec_run A [] []"
| more: "kv_spec A t op out A' \<Longrightarrow> kv_spec_run A' ops outs \<Longrightarrow> kv_spec_run A ((t, op) # ops) (out # outs)"

definition kv_exec :: "'s KeyValueBasicInterface \<Rightarrow> go_time \<Rightarrow> kv_op \<Rightarrow> 's \<Rightarrow> kv_out \<times> 's" where
  "kv_exec I t op s =
    (case op of
       KSet k v ttl \<Rightarrow> (case kvb_Set I t k v ttl s of (Inr _, s') \<Rightarrow> (KDone, s') | (Inl _, s') \<Rightarrow> (KRefused, s'))
     | KGet k \<Rightarrow> (case kvb_Get I t k s of (Inr v, s') \<Rightarrow> (KValue v, s') | (Inl _, s') \<Rightarrow> (KFailed, s'))
     | KDelete k \<Rightarrow> (case kvb_Delete I k s of (Inr _, s') \<Rightarrow> (KDone, s') | (Inl _, s') \<Rightarrow> (KFailed, s'))
     | KExists k \<Rightarrow> (case kvb_Exists I t k s of (Inr b, s') \<Rightarrow> (KFound b, s') | (Inl _, s') \<Rightarrow> (KFailed, s')))"

fun kv_exec_all :: "'s KeyValueBasicInterface \<Rightarrow> (go_time \<times> kv_op) list \<Rightarrow> 's \<Rightarrow> kv_out list" where
  "kv_exec_all I [] s = []"
| "kv_exec_all I ((t, op) # ops) s = (case kv_exec I t op s of (out, s') \<Rightarrow> out # kv_exec_all I ops s')"

fun ttl_in_range :: "kv_op \<Rightarrow> bool" where
  "ttl_in_range (KSet k v ttl) \<longleftrightarrow> ttl < 9223372037"
| "ttl_in_range _ \<longleftrightarrow> True"

locale kv_store =
  fixes I :: "'s KeyValueBasicInterface"
    and live :: "go_time \<Rightarrow> 's \<Rightarrow> string \<rightharpoonup> bytes"
    and kv_inv :: "'s \<Rightarrow> bool"
  assumes get_law: "kv_inv s \<Longrightarrow> \<exists>s'. kvb_Get I now k s = (Inr (live now s k), s') \<and> kv_inv s' \<and> (\<forall>t \<ge> now. live t s' = live t s)"
    and exists_law: "kv_inv s \<Longrightarrow> \<exists>s'. kvb_Exists I now k s = (Inr (live now s k \<noteq> None), s') \<and> kv_inv s'
      \<and> (\<forall>t \<ge> now. live t s' = live t s)"
    and delete_law: "kv_inv s \<Longrightarrow> \<exists>s'. kvb_Delete I k s = (Inr (), s') \<and> kv_inv s' \<and> (\<forall>t. live t s' = (live t s)(k := None))"
    and set_law: "kv_inv s \<Longrightarrow> ttl < 9223372037 \<Longrightarrow> kvb_Set I now k v ttl s = (Inr u, s') \<Longrightarrow> kv_inv s' \<and> (\<forall>t \<ge> now. live t s' =
      (live t s)(k := if 0 < ttl \<and> now + ttl * 1000000000 < t then None else Some v))"
    and refuse_law: "kv_inv s \<Longrightarrow> kvb_Set I now k v ttl s = (Inl e, s') \<Longrightarrow> s' = s \<and> live now s k = None"
begin

lemma exec_simulates:
  assumes inv: "kv_inv s" and rel: "\<forall>u \<ge> t. live u s = entry_view u A" and op: "ttl_in_range op"
    and exec: "kv_exec I t op s = (out, s')"
  shows "\<exists>A'. kv_spec A t op out A' \<and> kv_inv s' \<and> (\<forall>u \<ge> t. live u s' = entry_view u A')"
proof (cases op)
  case (KSet k v ttl)
  show ?thesis
  proof (cases "kvb_Set I t k v ttl s")
    case (Pair r s1)
    show ?thesis
    proof (cases r)
      case (Inl e)
      then have "s' = s" "out = KRefused" "live t s k = None"
        using exec Pair KSet refuse_law [OF inv, of t k v ttl e s1] by (auto simp: kv_exec_def)
      moreover from this have "kv_spec A t op out A" using rel KSet by (simp add: kv_spec.set_refused)
      ultimately show ?thesis using inv rel by blast
    next
      case (Inr u)
      then have s1: "s' = s1" "out = KDone" using exec Pair KSet by (auto simp: kv_exec_def)
      let ?A = "A(k \<mapsto> (v, if 0 < ttl then Some (t + ttl * 1000000000) else None))"
      have "kv_inv s'" "\<forall>u \<ge> t. live u s' = (live u s)(k := if 0 < ttl \<and> t + ttl * 1000000000 < u then None else Some v)"
        using set_law [OF inv, of ttl t k v u s1] op Pair Inr s1 KSet by auto
      then have "\<forall>u \<ge> t. live u s' = entry_view u ?A"
        using rel by (auto simp: entry_view_def fun_eq_iff)
      then show ?thesis using \<open>kv_inv s'\<close> s1 KSet kv_spec.set_done by blast
    qed
  qed
next
  case (KGet k)
  obtain s1 where "kvb_Get I t k s = (Inr (live t s k), s1)" "kv_inv s1" "\<forall>u \<ge> t. live u s1 = live u s"
    using get_law [OF inv] by blast
  then show ?thesis using exec KGet rel kv_spec.get [of A t k] by (auto simp: kv_exec_def intro!: exI [of _ A])
next
  case (KDelete k)
  obtain s1 where "kvb_Delete I k s = (Inr (), s1)" "kv_inv s1" "\<forall>t. live t s1 = (live t s)(k := None)"
    using delete_law [OF inv] by blast
  then show ?thesis using exec KDelete rel kv_spec.delete [of A t k]
    by (auto simp: kv_exec_def entry_view_def fun_eq_iff intro!: exI [of _ "A(k := None)"])
next
  case (KExists k)
  obtain s1 where "kvb_Exists I t k s = (Inr (live t s k \<noteq> None), s1)" "kv_inv s1" "\<forall>u \<ge> t. live u s1 = live u s"
    using exists_law [OF inv] by blast
  then show ?thesis using exec KExists rel kv_spec.exists [of A t k] by (auto simp: kv_exec_def intro!: exI [of _ A])
qed

lemma exec_all_simulates:
  assumes "kv_inv s" "\<forall>u \<ge> t0. live u s = entry_view u A" "sorted (t0 # map fst ops)" "\<forall>(t, op) \<in> set ops. ttl_in_range op"
  shows "kv_spec_run A ops (kv_exec_all I ops s)"
  using assms
proof (induction ops arbitrary: s A t0)
  case (Cons x ops)
  obtain t op where x: "x = (t, op)" by fastforce
  obtain out s' where e: "kv_exec I t op s = (out, s')" by fastforce
  have r: "\<forall>u \<ge> t. live u s = entry_view u A" and o': "ttl_in_range op" using Cons.prems x by auto
  then obtain A' where "kv_spec A t op out A'" "kv_inv s'" "\<forall>u \<ge> t. live u s' = entry_view u A'"
    using exec_simulates [OF Cons.prems(1) r o' e] by blast
  moreover have "kv_spec_run A' ops (kv_exec_all I ops s')"
    using Cons.IH [of s' t A'] calculation Cons.prems x by auto
  ultimately show ?case using x e kv_spec_run.more by auto
qed (simp add: kv_spec_run.none)

end

subsection \<open>The driver keeps the contract\<close>

definition ms_inv :: "MemStore \<Rightarrow> bool" where
  "ms_inv m \<longleftrightarrow> distinct (map fst (ms_data m)) \<and> distinct (map fst (ms_ttl m)) \<and> fst ` set (ms_ttl m) \<subseteq> fst ` set (ms_data m)"

definition ms_live :: "go_time \<Rightarrow> MemStore \<Rightarrow> string \<rightharpoonup> bytes" where
  "ms_live t m k = (if ms_expired t k m then None else map_of (ms_data m) k)"

lemma ms_expired_mono: "ms_expired t k m \<Longrightarrow> t \<le> t' \<Longrightarrow> ms_expired t' k m"
  by (auto simp: ms_expired_def split: option.splits)

lemma ms_remove_live: "ms_live t (ms_remove k m) = (ms_live t m)(k := None)"
  by (auto simp: ms_live_def ms_remove_def ms_expired_def delete_conv fun_eq_iff)

lemma key_set_delete: "fst ` set (AList.delete k al) = fst ` set al - {k}"
  by (metis delete_keys list.set_map set_removeAll)

lemma key_set_update: "fst ` set (AList.update k v al) = insert k (fst ` set al)"
  by (metis dom_map_of_conv_image_fst dom_fun_upd option.distinct(1) update_conv')

lemma ms_remove_inv: "ms_inv m \<Longrightarrow> ms_inv (ms_remove k m)"
  by (simp add: ms_inv_def ms_remove_def distinct_delete key_set_delete) blast

lemma ms_read_law:
  assumes "ms_inv m"
  shows "\<exists>m'. ms_Get now k m = (ms_live now m k, m') \<and> ms_Exists now k m = (ms_live now m k \<noteq> None, m')
    \<and> ms_inv m' \<and> (\<forall>t \<ge> now. ms_live t m' = ms_live t m)"
proof (cases "ms_expired now k m")
  case True
  then have "(ms_live t m)(k := None) = ms_live t m" if "now \<le> t" for t
    using that ms_expired_mono [of now k m t] by (simp add: ms_live_def fun_eq_iff)
  then show ?thesis
    using True assms by (simp add: ms_Get_def ms_Exists_def ms_remove_inv ms_remove_live) (simp add: ms_live_def)
next
  case False
  then show ?thesis using assms by (simp add: ms_Get_def ms_Exists_def ms_live_def)
qed

lemma ttl_no_wrap: "0 < ttl \<Longrightarrow> ttl < 9223372037 \<Longrightarrow> int64 (ttl * 1000000000) = ttl * 1000000000"
  by (rule int64_id) auto

lemma ms_set_law:
  assumes "ms_inv m" "ttl < 9223372037" "ms_Set now k v ttl m = (Inr u, m')"
  shows "ms_inv m'" "now \<le> t \<Longrightarrow> ms_live t m' = (ms_live t m)(k := if 0 < ttl \<and> now + ttl * 1000000000 < t then None else Some v)"
proof -
  have m': "m' = m\<lparr>ms_data := AList.update k v (ms_data m),
      ms_ttl := if 0 < ttl then AList.update k (now + ttl * 1000000000) (ms_ttl m) else AList.delete k (ms_ttl m)\<rparr>"
    using assms ttl_no_wrap [of ttl] by (auto simp: ms_Set_def Let_def split: if_splits)
  show "ms_inv m'"
    using assms(1) unfolding m' ms_inv_def
    by (auto simp: distinct_update distinct_delete key_set_update key_set_delete simp del: set_map)
  show "ms_live t m' = (ms_live t m)(k := if 0 < ttl \<and> now + ttl * 1000000000 < t then None else Some v)"
    unfolding m' by (auto simp: ms_live_def ms_expired_def update_conv delete_conv fun_eq_iff)
qed

interpretation ms: kv_store memstore_kv ms_live ms_inv
proof
  fix m :: MemStore and now k
  assume inv: "ms_inv m"
  obtain m' where m': "ms_Get now k m = (ms_live now m k, m')" "ms_Exists now k m = (ms_live now m k \<noteq> None, m')" "ms_inv m'"
    "\<forall>t \<ge> now. ms_live t m' = ms_live t m" using ms_read_law [OF inv] by blast
  then show "\<exists>s'. kvb_Get memstore_kv now k m = (Inr (ms_live now m k), s') \<and> ms_inv s' \<and> (\<forall>t\<ge>now. ms_live t s' = ms_live t m)"
    "\<exists>s'. kvb_Exists memstore_kv now k m = (Inr (ms_live now m k \<noteq> None), s') \<and> ms_inv s' \<and> (\<forall>t\<ge>now. ms_live t s' = ms_live t m)"
    by (simp_all add: memstore_kv_def)
  show "\<exists>s'. kvb_Delete memstore_kv k m = (Inr (), s') \<and> ms_inv s' \<and> (\<forall>t. ms_live t s' = (ms_live t m)(k := None))"
    by (simp add: memstore_kv_def ms_Delete_def ms_remove_inv [OF inv] ms_remove_live)
next
  fix m :: MemStore and ttl now k v u m'
  assume "ms_inv m" "ttl < 9223372037" "kvb_Set memstore_kv now k v ttl m = (Inr u, m')"
  then show "ms_inv m' \<and> (\<forall>t\<ge>now. ms_live t m' =
      (ms_live t m)(k := if 0 < ttl \<and> now + ttl * 1000000000 < t then None else Some v))"
    using ms_set_law by (simp add: memstore_kv_def)
next
  fix m :: MemStore and ttl now k v e m'
  assume "ms_inv m" "kvb_Set memstore_kv now k v ttl m = (Inl e, m')"
  then show "m' = m \<and> ms_live now m k = None"
    by (auto simp: memstore_kv_def ms_Set_def ms_live_def Let_def split: if_splits option.splits)
qed

text \<open>The cleanup goroutine is invisible, from the time it runs on.\<close>

lemma map_of_filter_entries:
  "distinct (map fst al) \<Longrightarrow> map_of (filter (\<lambda>(k, v). P k v) al) k =
     (case map_of al k of None \<Rightarrow> None | Some v \<Rightarrow> if P k v then Some v else None)"
  by (induction al) (auto split: option.splits dest: map_of_SomeD simp: rev_image_eqI)

lemma ms_cleanup_live:
  assumes "ms_inv m" "now \<le> t"
  shows "ms_live t (ms_cleanup now m) = ms_live t m"
  using assms by (auto simp: ms_live_def ms_cleanup_def ms_expired_def ms_inv_def map_of_filter_entries fun_eq_iff
    split: option.splits)

definition pattern_kv :: "'s KeyValue \<Rightarrow> 's KeyValueBasicInterface" where
  "pattern_kv kv = \<lparr>kvb_Set = kv_Set kv, kvb_Get = kv_Get kv, kvb_Delete = kv_Delete kv, kvb_Exists = kv_Exists kv\<rparr>"

lemma pattern_kv_driver: "pattern_kv kv = kv_driver kv"
  by (cases kv) (simp add: pattern_kv_def kv_Set_def [abs_def] kv_Get_def [abs_def] kv_Delete_def [abs_def]
    kv_Exists_def [abs_def])



text \<open>
  A time to live between 9223372037 and 18446744073 seconds overflows the multiplication
  with the nanoseconds of a second, so that the value just written is gone at the next read.
\<close>

theorem ttl_overflow_expires_at_once:
  assumes "9223372037 \<le> ttl" "ttl \<le> 18446744073" "ms_Set now k v ttl m = (Inr u, m')" "now \<le> t"
  shows "fst (ms_Get t k m') = None"
proof -
  have "int64 (ttl * 1000000000) < 0" using assms(1,2) by (subst int64_wrap) simp_all
  then show ?thesis
    using assms by (auto simp: ms_Set_def ms_Get_def ms_expired_def Let_def update_conv split: if_splits)
qed

theorem ttl_overflow_expires_at_once_witness:
  "fst (ms_Get 5 ''k'' (snd (ms_Set 5 ''k'' ''v'' 10000000000 NewMemStore))) = None"
  using ttl_overflow_expires_at_once [of 10000000000 5 "''k''" "''v''" NewMemStore "()" _ 5]
  by (simp add: ms_Set_def NewMemStore_def Let_def)

subsection \<open>Delivery by the publish/subscribe driver\<close>

definition topic_chans :: "MemPubSub \<Rightarrow> string \<Rightarrow> nat list" where
  "topic_chans m topic = (case map_of (mps_subscribers m) topic of None \<Rightarrow> [] | Some sm \<Rightarrow> map snd sm)"

definition mps_inv :: "MemPubSub \<Rightarrow> bool" where
  "mps_inv m \<longleftrightarrow> (\<forall>topic. distinct (topic_chans m topic)
     \<and> (\<forall>c \<in> set (topic_chans m topic). c < mps_next m \<and> \<not> ch_closed (mps_chans m c)))"

definition mk_msg :: "string \<Rightarrow> string \<times> go_time \<times> bytes \<times> (string \<rightharpoonup> string) \<Rightarrow> PubSubMessage" where
  "mk_msg topic p = (case p of (messageID, now, payload, metadata) \<Rightarrow>
     \<lparr>psm_Topic = topic, psm_Payload = payload, psm_Metadata = metadata, psm_MessageID = messageID, psm_Timestamp = now div 1000000\<rparr>)"

fun publish_list :: "string \<Rightarrow> (string \<times> go_time \<times> bytes \<times> (string \<rightharpoonup> string)) list \<Rightarrow> MemPubSub \<Rightarrow> go_panic + MemPubSub" where
  "publish_list topic [] m = Inr m"
| "publish_list topic ((messageID, now, payload, metadata) # ps) m =
    (case mps_Publish messageID now topic payload metadata m of Inl e \<Rightarrow> Inl e | Inr (_, m') \<Rightarrow> publish_list topic ps m')"

definition offer :: "PubSubMessage \<Rightarrow> msg_chan \<Rightarrow> msg_chan" where
  "offer msg c = (if length (ch_buf c) < ch_cap c then c\<lparr>ch_buf := ch_buf c @ [msg]\<rparr> else c)"

lemma offer_fields [simp]: "ch_closed (offer msg c) = ch_closed c" "ch_cap (offer msg c) = ch_cap c"
  by (simp_all add: offer_def)

definition broadcast :: "PubSubMessage \<Rightarrow> nat list \<Rightarrow> (nat \<Rightarrow> msg_chan) \<Rightarrow> nat \<Rightarrow> msg_chan" where
  "broadcast msg cs chans c = (if c \<in> set cs then offer msg (chans c) else chans c)"

lemma send_all_open:
  "distinct cs \<Longrightarrow> \<forall>c \<in> set cs. \<not> ch_closed (chans c) \<Longrightarrow> send_all msg cs chans = Inr (broadcast msg cs chans)"
proof (induction cs arbitrary: chans)
  case (Cons c cs)
  then have "try_send msg c chans = Inr (chans(c := offer msg (chans c)))"
    by (auto simp: try_send_def offer_def)
  then show ?case using Cons by (auto simp: fun_eq_iff broadcast_def)
qed (simp add: broadcast_def fun_eq_iff)

lemma mps_Publish_open:
  assumes "mps_inv m"
  shows "mps_Publish messageID now topic payload metadata m = Inr (messageID,
    m\<lparr>mps_chans := broadcast (mk_msg topic (messageID, now, payload, metadata)) (topic_chans m topic) (mps_chans m)\<rparr>)"
proof (cases "map_of (mps_subscribers m) topic")
  case None
  then show ?thesis by (simp add: mps_Publish_def topic_chans_def broadcast_def [abs_def])
next
  case (Some sm)
  then have tc: "topic_chans m topic = map snd sm" by (simp add: topic_chans_def)
  then have "distinct (map snd sm)" "\<forall>c \<in> set (map snd sm). \<not> ch_closed (mps_chans m c)"
    using assms by (metis mps_inv_def)+
  then show ?thesis
    using Some tc by (simp add: mps_Publish_def Let_def mk_msg_def send_all_open)
qed

lemma publish_list_open:
  assumes "mps_inv m"
  shows "publish_list topic ps m =
    Inr (m\<lparr>mps_chans := fold (\<lambda>p. broadcast (mk_msg topic p) (topic_chans m topic)) ps (mps_chans m)\<rparr>)"
  using assms
proof (induction ps arbitrary: m)
  case (Cons p ps)
  obtain i n b d where p: "p = (i, n, b, d)" by (metis prod_cases4)
  define m1 where "m1 = m\<lparr>mps_chans := broadcast (mk_msg topic p) (topic_chans m topic) (mps_chans m)\<rparr>"
  have t: "topic_chans m1 t = topic_chans m t" for t by (simp add: topic_chans_def m1_def)
  have "mps_inv m1" using Cons.prems unfolding mps_inv_def t by (simp add: m1_def broadcast_def)
  then have "publish_list topic ps m1 =
    Inr (m1\<lparr>mps_chans := fold (\<lambda>p. broadcast (mk_msg topic p) (topic_chans m topic)) ps (mps_chans m1)\<rparr>)"
    using Cons.IH [of m1] by (simp add: t)
  moreover have "publish_list topic (p # ps) m = publish_list topic ps m1"
    by (simp add: p mps_Publish_open [OF Cons.prems] m1_def)
  ultimately show ?case by (simp add: m1_def)
qed simp

lemma fold_broadcast:
  "fold (\<lambda>p. broadcast (f p) cs) ps chans c = (if c \<in> set cs then fold (offer \<circ> f) ps (chans c) else chans c)"
  by (induction ps arbitrary: chans) (simp_all add: broadcast_def)

lemma fold_offer_buf:
  assumes "length (ch_buf c) \<le> ch_cap c"
  shows "ch_buf (fold (offer \<circ> f) ps c) = take (ch_cap c) (ch_buf c @ map f ps)"
  using assms
proof (induction ps arbitrary: c)
  case (Cons p ps)
  show ?case
  proof (cases "length (ch_buf c) < ch_cap c")
    case True
    then show ?thesis using Cons.IH [of "offer (f p) c"] by (simp add: offer_def)
  next
    case False
    then show ?thesis using Cons by (simp add: offer_def)
  qed
qed simp

lemma fold_offer_closed: "ch_closed (fold (offer \<circ> f) ps c) = ch_closed c"
  by (induction ps arbitrary: c) simp_all

lemma topic_chans_update [simp]: "topic_chans (m\<lparr>mps_chans := x\<rparr>) t = topic_chans m t"
  by (simp add: topic_chans_def)

lemma snd_update:
  "set (map snd (AList.update k v al)) \<subseteq> insert v (set (map snd al))" "v \<in> set (map snd (AList.update k v al))"
  "distinct (map snd al) \<Longrightarrow> v \<notin> set (map snd al) \<Longrightarrow> distinct (map snd (AList.update k v al))"
proof -
  show sub: "set (map snd (AList.update k v al)) \<subseteq> insert v (set (map snd al))" for al :: "('b \<times> 'a) list"
    by (induction al) auto
  show "v \<in> set (map snd (AList.update k v al))" by (induction al) auto
  show "distinct (map snd al) \<Longrightarrow> v \<notin> set (map snd al) \<Longrightarrow> distinct (map snd (AList.update k v al))"
  proof (induction al)
    case (Cons x al)
    then show ?case using sub [of al] by (cases x) auto
  qed simp
qed

lemma mps_Subscribe_result:
  assumes inv: "mps_inv m" and sub: "mps_Subscribe topic sid m = Inr (c, m')"
  shows "mps_inv m' \<and> c \<in> set (topic_chans m' topic)
    \<and> mps_chans m' c = \<lparr>ch_buf = [], ch_cap = nat (case mps_bufferSize m of None \<Rightarrow> 100 | Some n \<Rightarrow> n), ch_closed = False\<rparr>"
proof -
  define sm where "sm = (case map_of (mps_subscribers m) topic of None \<Rightarrow> [] | Some sm \<Rightarrow> sm)"
  have tc: "topic_chans m topic = map snd sm" by (simp add: topic_chans_def sm_def split: option.splits)
  have m': "c = mps_next m" "mps_next m' = Suc c" "mps_subscribers m' = AList.update topic (AList.update sid c sm) (mps_subscribers m)"
    "mps_chans m' = (mps_chans m)(c := \<lparr>ch_buf = [], ch_cap = nat (case mps_bufferSize m of None \<Rightarrow> 100 | Some n \<Rightarrow> n), ch_closed = False\<rparr>)"
    using sub by (auto simp: mps_Subscribe_def Let_def sm_def split: if_splits)
  have tc': "topic_chans m' t = (if t = topic then map snd (AList.update sid c sm) else topic_chans m t)" for t
    by (simp add: topic_chans_def m'(3) update_conv)
  have old: "distinct (map snd sm)" "\<forall>x \<in> set (map snd sm). x < c \<and> \<not> ch_closed (mps_chans m x)"
    using inv tc m'(1) by (metis mps_inv_def)+
  then have "distinct (map snd (AList.update sid c sm))" by (intro snd_update(3)) auto
  moreover have "x < Suc c \<and> \<not> ch_closed (mps_chans m' x)" if "x \<in> set (map snd (AList.update sid c sm))" for x
    using subsetD [OF snd_update(1) that] old(2) m'(4) by (auto simp: less_SucI)
  moreover have "x < Suc c \<and> \<not> ch_closed (mps_chans m' x)" if "x \<in> set (topic_chans m t)" for x t
    using inv that m'(1,4) by (auto simp: mps_inv_def less_SucI)
  ultimately have "mps_inv m'"
    using inv m'(2) unfolding mps_inv_def tc' by simp
  then show ?thesis using snd_update(2) [of c sid sm] m'(4) by (simp add: tc' del: set_map)
qed

text \<open>
  C26: a new subscriber receives the messages published to its topic in the order of
  publication, each once and no other, until its buffer is full; from then on messages are
  dropped without an error to the publisher.
\<close>

theorem subscriber_receives_published:
  assumes "mps_inv m" "mps_Subscribe topic sid m = Inr (c, m1)"
  shows "\<exists>m2. publish_list topic ps m1 = Inr m2 \<and> mps_inv m2
    \<and> ch_buf (mps_chans m2 c) = take (nat (case mps_bufferSize m of None \<Rightarrow> 100 | Some n \<Rightarrow> n)) (map (mk_msg topic) ps)"
proof -
  note sub = mps_Subscribe_result [OF assms]
  let ?m2 = "m1\<lparr>mps_chans := fold (\<lambda>p. broadcast (mk_msg topic p) (topic_chans m1 topic)) ps (mps_chans m1)\<rparr>"
  have "mps_inv ?m2" using sub unfolding mps_inv_def by (simp add: fold_broadcast fold_offer_closed)
  then show ?thesis
    using sub publish_list_open [of m1 topic ps] by (simp add: fold_broadcast fold_offer_buf)
qed

theorem subscriber_receives_published_witness:
  "\<exists>m2. publish_list ''t'' [(''1'', 0, ''a'', Map.empty), (''2'', 0, ''b'', Map.empty)]
       (snd (projr (mps_Subscribe ''t'' ''s'' NewPubSub))) = Inr m2
     \<and> map psm_Payload (ch_buf (mps_chans m2 0)) = [''a'', ''b'']"
proof -
  have inv: "mps_inv NewPubSub" by (simp add: mps_inv_def topic_chans_def NewPubSub_def)
  have sub: "mps_Subscribe ''t'' ''s'' NewPubSub = Inr (0, snd (projr (mps_Subscribe ''t'' ''s'' NewPubSub)))"
    by (simp add: mps_Subscribe_def NewPubSub_def)
  show ?thesis
    using subscriber_receives_published [OF inv sub, of "[(''1'', 0, ''a'', Map.empty), (''2'', 0, ''b'', Map.empty)]"]
    by (auto simp: NewPubSub_def mk_msg_def simp del: publish_list.simps)
qed

lemma close_all_closed:
  "close_all cs chans = Inr chans' \<Longrightarrow> c \<in> set cs \<or> ch_closed (chans c) \<Longrightarrow> ch_closed (chans' c)"
  by (induction cs arbitrary: chans) (auto simp: close_msg_chan_def split: sum.splits if_splits)

text \<open>
  \<open>Stop\<close> closes the channels of the subscribers but keeps the subscriptions, so that the
  next message published to a topic with a subscriber panics.
\<close>

theorem publish_after_stop_panics:
  assumes "mps_Stop m = Inr m'" "map_of (mps_subscribers m) topic = Some ((sid, c) # sm)"
  shows "mps_Publish messageID now topic payload metadata m' = Inl SendOnClosedChannel"
proof -
  obtain chans where chans: "close_all (concat (map (map snd \<circ> snd) (mps_subscribers m))) (mps_chans m) = Inr chans"
    "m' = m\<lparr>mps_chans := chans\<rparr>"
    using assms(1) by (auto simp: mps_Stop_def split: sum.splits)
  have "c \<in> set (concat (map (map snd \<circ> snd) (mps_subscribers m)))"
    using map_of_SomeD [OF assms(2)] by force
  then have "ch_closed (chans c)" using close_all_closed [OF chans(1)] by blast
  then show ?thesis using assms(2) chans(2) by (simp add: mps_Publish_def try_send_def Let_def)
qed

theorem publish_after_stop_panics_witness:
  "mps_Publish ''1'' 0 ''t'' ''a'' Map.empty
     (projr (mps_Stop (snd (projr (mps_Subscribe ''t'' ''s'' NewPubSub))))) = Inl SendOnClosedChannel"
proof -
  let ?m = "snd (projr (mps_Subscribe ''t'' ''s'' NewPubSub))"
  have "mps_Stop ?m = Inr (projr (mps_Stop ?m))" "map_of (mps_subscribers ?m) ''t'' = Some ((''s'', 0) # [])"
    by (simp_all add: mps_Subscribe_def mps_Stop_def NewPubSub_def close_msg_chan_def)
  then show ?thesis by (rule publish_after_stop_panics)
qed

end
