(* ===== verification/Multicast_Filter.thy ===== *)
theory Multicast_Filter
  imports Prism_Prelude "HOL-Library.Sublist"
begin

text \<open>
  The metadata filters of the multicast registry: the expression trees of
  \<open>patterns/multicast_registry/filter/ast.go\<close> and the equality filter of
  \<open>backends/types.go\<close>.  A metadata value is a Go interface value with its dynamic type; the
  comparison of two slices or of two maps panics, so an evaluation returns \<open>None\<close> for a panic
  and \<open>Some b\<close> otherwise.  A floating-point number is a real, an infinity or not a number.
  The reference semantics \<open>holds\<close> reads a filter as a formula on the metadata; the evaluator
  agrees with it, without a panic, whenever the filter's own values are comparable.
\<close>

subsection \<open>Values\<close>

datatype go_float = Num real | PosInf | NegInf | NaN

datatype go_value =
    VNil
  | VString string
  | VInt int
  | VInt64 int
  | VFloat go_float
  | VBool bool
  | VSlice "go_value list"
  | VMap "(string \<times> go_value) list"

type_synonym metadata = "string \<rightharpoonup> go_value"

fun float_eq :: "go_float \<Rightarrow> go_float \<Rightarrow> bool" where
  "float_eq NaN y \<longleftrightarrow> False"
| "float_eq x NaN \<longleftrightarrow> False"
| "float_eq x y \<longleftrightarrow> x = y"

fun float_less :: "go_float \<Rightarrow> go_float \<Rightarrow> bool" where
  "float_less (Num x) (Num y) \<longleftrightarrow> x < y"
| "float_less (Num x) PosInf \<longleftrightarrow> True"
| "float_less NegInf (Num y) \<longleftrightarrow> True"
| "float_less NegInf PosInf \<longleftrightarrow> True"
| "float_less _ _ \<longleftrightarrow> False"

text \<open>The comparison \<open>a == b\<close> of two interface values.\<close>

fun interface_eq :: "go_value \<Rightarrow> go_value \<Rightarrow> bool option" where
  "interface_eq (VSlice xs) (VSlice ys) = None"
| "interface_eq (VMap xs) (VMap ys) = None"
| "interface_eq (VFloat x) (VFloat y) = Some (float_eq x y)"
| "interface_eq a b = Some (a = b)"

subsection \<open>The helpers of the tree\<close>

fun filter_equals :: "go_value \<Rightarrow> go_value \<Rightarrow> bool option" where
  "filter_equals (VString a) b = Some (case b of VString b' \<Rightarrow> a = b' | _ \<Rightarrow> False)"
| "filter_equals (VInt a) b = Some (case b of VInt b' \<Rightarrow> a = b' | _ \<Rightarrow> False)"
| "filter_equals (VInt64 a) b = Some (case b of VInt64 b' \<Rightarrow> a = b' | _ \<Rightarrow> False)"
| "filter_equals (VFloat a) b = Some (case b of VFloat b' \<Rightarrow> float_eq a b' | _ \<Rightarrow> False)"
| "filter_equals (VBool a) b = Some (case b of VBool b' \<Rightarrow> a = b' | _ \<Rightarrow> False)"
| "filter_equals a b = interface_eq a b"

fun lessThan :: "go_value \<Rightarrow> go_value \<Rightarrow> bool" where
  "lessThan (VInt a) (VInt b) \<longleftrightarrow> a < b"
| "lessThan (VInt64 a) (VInt64 b) \<longleftrightarrow> a < b"
| "lessThan (VFloat a) (VFloat b) \<longleftrightarrow> float_less a b"
| "lessThan (VString a) (VString b) \<longleftrightarrow> a < b"
| "lessThan _ _ \<longleftrightarrow> False"

fun greaterThan :: "go_value \<Rightarrow> go_value \<Rightarrow> bool" where
  "greaterThan (VInt a) (VInt b) \<longleftrightarrow> a > b"
| "greaterThan (VInt64 a) (VInt64 b) \<longleftrightarrow> a > b"
| "greaterThan (VFloat a) (VFloat b) \<longleftrightarrow> float_less b a"
| "greaterThan (VString a) (VString b) \<longleftrightarrow> a > b"
| "greaterThan _ _ \<longleftrightarrow> False"

definition slice_at :: "string \<Rightarrow> nat \<Rightarrow> nat \<Rightarrow> string" where
  "slice_at s i j = take (j - i) (drop i s)"

definition findSubstring :: "string \<Rightarrow> string \<Rightarrow> bool" where
  "findSubstring s substr =
    (substr = [] \<or> list_ex (\<lambda>i. slice_at s i (i + length substr) = substr) [0..<length s + 1 - length substr])"

definition filter_contains :: "string \<Rightarrow> string \<Rightarrow> bool" where
  "filter_contains s substr \<longleftrightarrow> length substr \<le> length s \<and> findSubstring s substr"

subsection \<open>The tree\<close>

datatype FilterNode =
    EqualityNode string go_value
  | NotEqualNode string go_value
  | LessThanNode string go_value
  | LessOrEqualNode string go_value
  | GreaterThanNode string go_value
  | GreaterOrEqualNode string go_value
  | StartsWithNode string string
  | EndsWithNode string string
  | ContainsNode string string
  | AndNode "FilterNode list"
  | OrNode "FilterNode list"
  | NotNode FilterNode
  | ExistsNode string

definition on_field :: "metadata \<Rightarrow> string \<Rightarrow> (go_value \<Rightarrow> bool option) \<Rightarrow> bool option" where
  "on_field m field test = (case m field of None \<Rightarrow> Some False | Some actual \<Rightarrow> test actual)"

definition on_string :: "go_value \<Rightarrow> (string \<Rightarrow> bool) \<Rightarrow> bool option" where
  "on_string actual test = Some (case actual of VString str \<Rightarrow> test str | _ \<Rightarrow> False)"

text \<open>The operators \<open>||\<close> and the loops of the conjunction and disjunction stop early.\<close>

definition or_else :: "bool \<Rightarrow> bool option \<Rightarrow> bool option" where
  "or_else b r = (if b then Some True else r)"

fun Evaluate :: "FilterNode \<Rightarrow> metadata \<Rightarrow> bool option"
  and all_children :: "FilterNode list \<Rightarrow> metadata \<Rightarrow> bool option"
  and any_child :: "FilterNode list \<Rightarrow> metadata \<Rightarrow> bool option" where
  "Evaluate (EqualityNode f v) m = on_field m f (\<lambda>actual. filter_equals actual v)"
| "Evaluate (NotEqualNode f v) m = on_field m f (\<lambda>actual. map_option Not (filter_equals actual v))"
| "Evaluate (LessThanNode f v) m = on_field m f (\<lambda>actual. Some (lessThan actual v))"
| "Evaluate (LessOrEqualNode f v) m = on_field m f (\<lambda>actual. or_else (lessThan actual v) (filter_equals actual v))"
| "Evaluate (GreaterThanNode f v) m = on_field m f (\<lambda>actual. Some (greaterThan actual v))"
| "Evaluate (GreaterOrEqualNode f v) m = on_field m f (\<lambda>actual. or_else (greaterThan actual v) (filter_equals actual v))"
| "Evaluate (StartsWithNode f p) m = on_field m f (\<lambda>actual. on_string actual
     (\<lambda>str. length p \<le> length str \<and> slice_at str 0 (length p) = p))"
| "Evaluate (EndsWithNode f q) m = on_field m f (\<lambda>actual. on_string actual
     (\<lambda>str. length q \<le> length str \<and> slice_at str (length str - length q) (length str) = q))"
| "Evaluate (ContainsNode f x) m = on_field m f (\<lambda>actual. on_string actual (\<lambda>str. filter_contains str x))"
| "Evaluate (AndNode cs) m = all_children cs m"
| "Evaluate (OrNode cs) m = any_child cs m"
| "Evaluate (NotNode c) m = map_option Not (Evaluate c m)"
| "Evaluate (ExistsNode f) m = Some (m f \<noteq> None)"
| "all_children [] m = Some True"
| "all_children (c # cs) m = (case Evaluate c m of None \<Rightarrow> None | Some b \<Rightarrow> if b then all_children cs m else Some False)"
| "any_child [] m = Some False"
| "any_child (c # cs) m = (case Evaluate c m of None \<Rightarrow> None | Some b \<Rightarrow> if b then Some True else any_child cs m)"

subsection \<open>The equality filter\<close>

record Filter =
  fi_Conditions :: "string \<rightharpoonup> go_value"
  fi_AST :: "FilterNode option"

definition NewFilter :: "(string \<rightharpoonup> go_value) \<Rightarrow> Filter" where
  "NewFilter conditions = \<lparr>fi_Conditions = conditions, fi_AST = None\<rparr>"

text \<open>The loop over the conditions, in the order in which the map is visited.\<close>

fun match_conditions :: "string list \<Rightarrow> (string \<rightharpoonup> go_value) \<Rightarrow> metadata \<Rightarrow> bool option" where
  "match_conditions [] conditions m = Some True"
| "match_conditions (key # ord) conditions m =
    (case (conditions key, m key) of
       (None, _) \<Rightarrow> match_conditions ord conditions m
     | (Some expectedValue, None) \<Rightarrow> Some False
     | (Some expectedValue, Some actualValue) \<Rightarrow>
         (case interface_eq actualValue expectedValue of
            None \<Rightarrow> None
          | Some b \<Rightarrow> if b then match_conditions ord conditions m else Some False))"

definition Matches :: "string list \<Rightarrow> Filter option \<Rightarrow> metadata \<Rightarrow> bool option" where
  "Matches ord f m = (case f of None \<Rightarrow> Some True | Some f' \<Rightarrow> match_conditions ord (fi_Conditions f') m)"

subsection \<open>The formula a filter stands for\<close>

fun value_eq :: "go_value \<Rightarrow> go_value \<Rightarrow> bool" where
  "value_eq (VFloat x) (VFloat y) \<longleftrightarrow> float_eq x y"
| "value_eq a b \<longleftrightarrow> a = b"

definition field_is :: "metadata \<Rightarrow> string \<Rightarrow> (go_value \<Rightarrow> bool) \<Rightarrow> bool" where
  "field_is m f P \<longleftrightarrow> (\<exists>a. m f = Some a \<and> P a)"

fun holds :: "FilterNode \<Rightarrow> metadata \<Rightarrow> bool" where
  "holds (EqualityNode f v) m \<longleftrightarrow> field_is m f (\<lambda>a. value_eq a v)"
| "holds (NotEqualNode f v) m \<longleftrightarrow> field_is m f (\<lambda>a. \<not> value_eq a v)"
| "holds (LessThanNode f v) m \<longleftrightarrow> field_is m f (\<lambda>a. lessThan a v)"
| "holds (LessOrEqualNode f v) m \<longleftrightarrow> field_is m f (\<lambda>a. lessThan a v \<or> value_eq a v)"
| "holds (GreaterThanNode f v) m \<longleftrightarrow> field_is m f (\<lambda>a. lessThan v a)"
| "holds (GreaterOrEqualNode f v) m \<longleftrightarrow> field_is m f (\<lambda>a. lessThan v a \<or> value_eq a v)"
| "holds (StartsWithNode f p) m \<longleftrightarrow> field_is m f (\<lambda>a. \<exists>s. a = VString s \<and> prefix p s)"
| "holds (EndsWithNode f q) m \<longleftrightarrow> field_is m f (\<lambda>a. \<exists>s. a = VString s \<and> suffix q s)"
| "holds (ContainsNode f x) m \<longleftrightarrow> field_is m f (\<lambda>a. \<exists>s. a = VString s \<and> sublist x s)"
| "holds (AndNode cs) m \<longleftrightarrow> (\<forall>c \<in> set cs. holds c m)"
| "holds (OrNode cs) m \<longleftrightarrow> (\<exists>c \<in> set cs. holds c m)"
| "holds (NotNode c) m \<longleftrightarrow> \<not> holds c m"
| "holds (ExistsNode f) m \<longleftrightarrow> f \<in> dom m"

fun comparable :: "go_value \<Rightarrow> bool" where
  "comparable (VSlice _) \<longleftrightarrow> False"
| "comparable (VMap _) \<longleftrightarrow> False"
| "comparable _ \<longleftrightarrow> True"

fun node_comparable :: "FilterNode \<Rightarrow> bool" where
  "node_comparable (EqualityNode f v) \<longleftrightarrow> comparable v"
| "node_comparable (NotEqualNode f v) \<longleftrightarrow> comparable v"
| "node_comparable (LessOrEqualNode f v) \<longleftrightarrow> comparable v"
| "node_comparable (GreaterOrEqualNode f v) \<longleftrightarrow> comparable v"
| "node_comparable (AndNode cs) \<longleftrightarrow> (\<forall>c \<in> set cs. node_comparable c)"
| "node_comparable (OrNode cs) \<longleftrightarrow> (\<forall>c \<in> set cs. node_comparable c)"
| "node_comparable (NotNode c) \<longleftrightarrow> node_comparable c"
| "node_comparable _ \<longleftrightarrow> True"

lemma filter_equals_comparable: "comparable v \<Longrightarrow> filter_equals a v = Some (value_eq a v)"
  by (cases a; cases v) auto

lemma interface_eq_comparable: "comparable v \<Longrightarrow> interface_eq a v = Some (value_eq a v)"
  by (cases a; cases v) auto

lemma greaterThan_less: "greaterThan a b \<longleftrightarrow> lessThan b a"
  by (cases a; cases b) auto

lemma filter_contains_sublist: "filter_contains s x \<longleftrightarrow> sublist x s"
proof -
  have "sublist x s \<longleftrightarrow> (\<exists>i. i + length x \<le> length s \<and> take (length x) (drop i s) = x)"
  proof
    assume "sublist x s"
    then obtain p q where "s = p @ x @ q" by (auto simp: sublist_def)
    then have "length p + length x \<le> length s \<and> take (length x) (drop (length p) s) = x" by simp
    then show "\<exists>i. i + length x \<le> length s \<and> take (length x) (drop i s) = x" by blast
  next
    assume "\<exists>i. i + length x \<le> length s \<and> take (length x) (drop i s) = x"
    then obtain i where "take (length x) (drop i s) = x" by blast
    then have "s = take i s @ x @ drop (length x) (drop i s)" by (metis append_take_drop_id)
    then show "sublist x s" by (metis sublist_def)
  qed
  moreover have "filter_contains s x \<longleftrightarrow> (\<exists>i. i + length x \<le> length s \<and> take (length x) (drop i s) = x)"
  proof
    assume "filter_contains s x"
    then consider "x = []" | i where "i < length s + 1 - length x" "take (length x) (drop i s) = x"
      by (auto simp: filter_contains_def findSubstring_def slice_at_def list_ex_iff)
    then show "\<exists>i. i + length x \<le> length s \<and> take (length x) (drop i s) = x"
    proof cases
      case 1
      then show ?thesis by (intro exI [of _ 0]) simp
    next
      case 2
      then show ?thesis by (intro exI [of _ i]) simp
    qed
  next
    assume "\<exists>i. i + length x \<le> length s \<and> take (length x) (drop i s) = x"
    then show "filter_contains s x"
      by (fastforce simp: filter_contains_def findSubstring_def slice_at_def list_ex_iff)
  qed
  ultimately show ?thesis by blast
qed

lemma starts_with_prefix: "length p \<le> length s \<and> slice_at s 0 (length p) = p \<longleftrightarrow> prefix p s"
  by (auto simp: slice_at_def prefix_def) (metis append_take_drop_id)

lemma ends_with_suffix: "length q \<le> length s \<and> slice_at s (length s - length q) (length s) = q \<longleftrightarrow> suffix q s"
  by (auto simp: slice_at_def suffix_def) (metis append_take_drop_id)

lemma on_field_Some: "(\<And>a. test a = Some (P a)) \<Longrightarrow> on_field m f test = Some (field_is m f P)"
  by (auto simp: on_field_def field_is_def split: option.splits)

lemma or_else_Some: "or_else b (Some c) = Some (b \<or> c)"
  by (simp add: or_else_def)

lemma on_string_Some: "on_string a P = Some (\<exists>s. a = VString s \<and> P s)"
  by (cases a) (simp_all add: on_string_def)

text \<open>
  C27: the evaluator of filter trees computes the formula the tree stands for, and never
  panics, whatever the metadata, when no literal of the filter is a slice or a map.
\<close>

theorem Evaluate_holds:
  assumes "node_comparable n"
  shows "Evaluate n m = Some (holds n m)"
proof -
  have "node_comparable n \<longrightarrow> Evaluate n m = Some (holds n m)"
    and "(\<forall>c \<in> set cs. node_comparable c) \<longrightarrow> all_children cs m = Some (\<forall>c \<in> set cs. holds c m)"
    and "(\<forall>c \<in> set ds. node_comparable c) \<longrightarrow> any_child ds m = Some (\<exists>c \<in> set ds. holds c m)" for cs ds
    by (induction n m and cs m and ds m rule: Evaluate_all_children_any_child.induct)
       (auto simp: filter_equals_comparable greaterThan_less or_else_Some on_string_Some filter_contains_sublist
          starts_with_prefix [simplified] ends_with_suffix [simplified] dom_def starts_with_prefix ends_with_suffix intro!: on_field_Some)
  then show ?thesis using assms by blast
qed

lemma match_conditions_conj:
  assumes "\<forall>k \<in> set ord. \<exists>v. cond k = Some v \<and> comparable v"
  shows "match_conditions ord cond m = Some (\<forall>k \<in> set ord. field_is m k (\<lambda>a. value_eq a (the (cond k))))"
  using assms by (induction ord) (auto simp: interface_eq_comparable field_is_def split: option.splits)

text \<open>
  The equality filter matches exactly the metadata that satisfies every condition,
  whatever the order in which the conditions are visited, and so agrees with the conjunction
  of equality nodes.
\<close>

theorem Matches_conjunction:
  assumes ord: "map_order ord (fi_Conditions f)" and comp: "\<forall>v \<in> ran (fi_Conditions f). comparable v"
  shows "Matches ord (Some f) m = Some (\<forall>k v. fi_Conditions f k = Some v \<longrightarrow> field_is m k (\<lambda>a. value_eq a v))
    \<and> Matches ord (Some f) m = Evaluate (AndNode (map (\<lambda>k. EqualityNode k (the (fi_Conditions f k))) ord)) m"
proof -
  have cond: "\<forall>k \<in> set ord. \<exists>v. fi_Conditions f k = Some v \<and> comparable v"
    using ord comp by (auto simp: map_order_def ran_def dom_def)
  have all: "Matches ord (Some f) m = Some (\<forall>k \<in> set ord. field_is m k (\<lambda>a. value_eq a (the (fi_Conditions f k))))"
    by (simp add: Matches_def match_conditions_conj [OF cond])
  moreover have "(\<forall>k \<in> set ord. field_is m k (\<lambda>a. value_eq a (the (fi_Conditions f k))))
      \<longleftrightarrow> (\<forall>k v. fi_Conditions f k = Some v \<longrightarrow> field_is m k (\<lambda>a. value_eq a v))"
    using ord by (force simp: map_order_def dom_def)
  moreover have "all_children (map (\<lambda>k. EqualityNode k (the (fi_Conditions f k))) ks) m =
      Some (\<forall>k \<in> set ks. field_is m k (\<lambda>a. value_eq a (the (fi_Conditions f k))))" if "set ks \<subseteq> set ord" for ks
    using that cond by (induction ks) (auto simp: on_field_def field_is_def filter_equals_comparable split: option.splits)
  ultimately show ?thesis by simp
qed

theorem Evaluate_holds_witness:
  "Evaluate (AndNode [EqualityNode ''status'' (VString ''online''), NotNode (ContainsNode ''room'' ''x'')])
     [''status'' \<mapsto> VString ''online''] = Some True"
  using Evaluate_holds [of "AndNode [EqualityNode ''status'' (VString ''online''), NotNode (ContainsNode ''room'' ''x'')]"
    "[''status'' \<mapsto> VString ''online'']"] by (simp add: field_is_def)

theorem Matches_conjunction_witness:
  "Matches [''status''] (Some (NewFilter [''status'' \<mapsto> VString ''online''])) Map.empty = Some False"
  using Matches_conjunction [of "[''status'']" "NewFilter [''status'' \<mapsto> VString ''online'']" Map.empty]
  by (simp add: NewFilter_def map_order_def field_is_def)

end
