(* ===== verification/Multicast_Adapters.thy ===== *)
theory Multicast_Adapters
  imports Mem_Store Multicast_Filter Work_Queue
begin

text \<open>
  The backend slots of the multicast registry: the interfaces of \<open>slots.go\<close> as records of
  operations on a backend state, the adapter that keeps identities in a key-value store
  (\<open>backends/adapters.go\<close>) and the backend on Redis hashes (\<open>backends/redis_registry.go\<close>).
  The JSON codec and the Redis client are parameters; \<open>json_ok\<close> states what the
  adapters rely on: decoding gives back a value in which numbers are floating-point.  The
  metadata of an identity is an association list, as it is in a decoded record.
\<close>

subsection \<open>Identities and slots\<close>

record Identity =
  id_ID :: string
  id_Metadata :: "(string \<times> go_value) list"
  id_RegisteredAt :: go_time
  id_ExpiresAt :: "go_time option"
  id_TTL :: duration

datatype slot_error = MarshalFailed | UnmarshalFailed | StoreFailed string | NotFound string | Unsupported

datatype 'a slot_result = Panicked | Failed slot_error | Ok 'a

record 'r RegistryBackend =
  rb_Set :: "go_time \<Rightarrow> string \<Rightarrow> (string \<times> go_value) list \<Rightarrow> duration \<Rightarrow> 'r \<Rightarrow> unit slot_result \<times> 'r"
  rb_Get :: "go_time \<Rightarrow> string \<Rightarrow> 'r \<Rightarrow> Identity slot_result \<times> 'r"
  rb_Delete :: "string \<Rightarrow> 'r \<Rightarrow> unit slot_result \<times> 'r"
  rb_Enumerate :: "Filter option \<Rightarrow> 'r \<Rightarrow> Identity list option slot_result"
  rb_Close :: "'r \<Rightarrow> unit slot_result \<times> 'r"

record 'm MessagingBackend =
  mb_Publish :: "string \<Rightarrow> bytes \<Rightarrow> 'm \<Rightarrow> (string + unit) \<times> 'm"
  mb_Close :: "'m \<Rightarrow> (string + unit) \<times> 'm"

record 'd DurabilityBackend =
  db_Close :: "'d \<Rightarrow> (string + unit) \<times> 'd"

subsection \<open>The key-value adapter\<close>

definition unix_seconds :: "go_time \<Rightarrow> int" where
  "unix_seconds t = t div 1000000000"

definition time_Unix :: "int \<Rightarrow> go_time" where
  "time_Unix sec = sec * 1000000000"

text \<open>\<open>int64(d.Seconds())\<close> of a positive duration: a sum of two rounded quotients, truncated.\<close>

definition seconds_int64 :: "(real \<Rightarrow> real) \<Rightarrow> (real \<Rightarrow> int) \<Rightarrow> duration \<Rightarrow> int" where
  "seconds_int64 fl oob d = float_to_int64 oob
     (fl (fl (of_int (d div 1000000000)) + fl (of_int (d mod 1000000000) / 1000000000)))"

record KeyValueRegistryAdapter =
  kra_prefix :: string

definition NewKeyValueRegistryBackend :: KeyValueRegistryAdapter where
  "NewKeyValueRegistryBackend = \<lparr>kra_prefix = ''multicast:registry:''\<rparr>"

definition identity_record :: "go_time \<Rightarrow> string \<Rightarrow> (string \<times> go_value) list \<Rightarrow> duration \<Rightarrow> (string \<times> go_value) list" where
  "identity_record now identity metadata ttl =
    [(''id'', VString identity), (''metadata'', VMap metadata), (''registered_at'', VInt64 (unix_seconds now))]
    @ (if ttl > 0 then [(''expires_at'', VInt64 (unix_seconds (now + ttl)))] else [])"

record codec =
  json_Marshal :: "go_value \<Rightarrow> bytes option"
  json_Unmarshal :: "bytes \<Rightarrow> go_value option"
  cd_fl :: "real \<Rightarrow> real"
  cd_oob :: "real \<Rightarrow> int"

definition kra_Set :: "codec \<Rightarrow> 's KeyValueBasicInterface \<Rightarrow> KeyValueRegistryAdapter
    \<Rightarrow> go_time \<Rightarrow> string \<Rightarrow> (string \<times> go_value) list \<Rightarrow> duration \<Rightarrow> 's \<Rightarrow> unit slot_result \<times> 's" where
  "kra_Set J kv a now identity metadata ttl s =
    (case json_Marshal J (VMap (identity_record now identity metadata ttl)) of
       None \<Rightarrow> (Failed MarshalFailed, s)
     | Some data \<Rightarrow>
         (let ttlSecs = (if ttl > 0 then seconds_int64 (cd_fl J) (cd_oob J) ttl else 0)
          in case kvb_Set kv now (kra_prefix a @ identity) data ttlSecs s of
               (Inl e, s') \<Rightarrow> (Failed (StoreFailed e), s')
             | (Inr _, s') \<Rightarrow> (Ok (), s')))"

text \<open>
  A time stamp of a decoded record; a value of another type counts as zero.  JSON has neither
  infinities nor a number that is not a number.
\<close>

definition stamp :: "codec \<Rightarrow> go_value \<Rightarrow> int" where
  "stamp J v = (case v of
       VFloat (Num x) \<Rightarrow> float_to_int64 (cd_oob J) x
     | VInt64 n \<Rightarrow> n
     | _ \<Rightarrow> 0)"

definition kra_parseIdentity :: "codec \<Rightarrow> (string \<times> go_value) list \<Rightarrow> Identity slot_result" where
  "kra_parseIdentity J record' =
    (case map_of record' ''id'' of
       Some (VString i) \<Rightarrow>
         Ok \<lparr>id_ID = i,
             id_Metadata = (case map_of record' ''metadata'' of Some (VMap m) \<Rightarrow> m | _ \<Rightarrow> []),
             id_RegisteredAt = (case map_of record' ''registered_at'' of Some v \<Rightarrow> time_Unix (stamp J v) | None \<Rightarrow> 0),
             id_ExpiresAt = map_option (\<lambda>v. time_Unix (stamp J v)) (map_of record' ''expires_at''),
             id_TTL = 0\<rparr>
     | _ \<Rightarrow> Panicked)"

definition kra_Get :: "codec \<Rightarrow> 's KeyValueBasicInterface \<Rightarrow> KeyValueRegistryAdapter
    \<Rightarrow> go_time \<Rightarrow> string \<Rightarrow> 's \<Rightarrow> Identity slot_result \<times> 's" where
  "kra_Get J kv a now identity s =
    (case kvb_Get kv now (kra_prefix a @ identity) s of
       (Inl e, s') \<Rightarrow> (Failed (StoreFailed e), s')
     | (Inr None, s') \<Rightarrow> (Failed (NotFound identity), s')
     | (Inr (Some data), s') \<Rightarrow>
         ((case json_Unmarshal J data of
             Some (VMap record') \<Rightarrow> kra_parseIdentity J record'
           | Some VNil \<Rightarrow> kra_parseIdentity J []
           | _ \<Rightarrow> Failed UnmarshalFailed), s'))"

definition kra_Delete :: "'s KeyValueBasicInterface \<Rightarrow> KeyValueRegistryAdapter \<Rightarrow> string \<Rightarrow> 's \<Rightarrow> unit slot_result \<times> 's" where
  "kra_Delete kv a identity s =
    (case kvb_Delete kv (kra_prefix a @ identity) s of
       (Inl e, s') \<Rightarrow> (Failed (StoreFailed e), s') | (Inr _, s') \<Rightarrow> (Ok (), s'))"

definition kra_Scan :: "'s \<Rightarrow> Identity list slot_result" where
  "kra_Scan s = Failed Unsupported"

definition kra_Enumerate :: "Filter option \<Rightarrow> 's \<Rightarrow> Identity list option slot_result" where
  "kra_Enumerate f s = Failed Unsupported"

definition kra_Close :: "'s \<Rightarrow> unit slot_result \<times> 's" where
  "kra_Close s = (Ok (), s)"

definition kv_registry :: "codec \<Rightarrow> 's KeyValueBasicInterface \<Rightarrow> KeyValueRegistryAdapter \<Rightarrow> 's RegistryBackend" where
  "kv_registry J kv a = \<lparr>rb_Set = kra_Set J kv a, rb_Get = kra_Get J kv a, rb_Delete = kra_Delete kv a,
     rb_Enumerate = kra_Enumerate, rb_Close = kra_Close\<rparr>"

subsection \<open>The messaging adapter\<close>

definition psa_Publish :: "(string \<Rightarrow> bytes \<Rightarrow> 'm \<Rightarrow> (string + string) \<times> 'm) \<Rightarrow> string \<Rightarrow> bytes \<Rightarrow> 'm \<Rightarrow> (string + unit) \<times> 'm" where
  "psa_Publish publish topic payload s =
    (case publish topic payload s of
       (Inl e, s') \<Rightarrow> (Inl (''pubsub publish failed: '' @ e), s')
     | (Inr messageID, s') \<Rightarrow> (Inr (), s'))"

text \<open>The forwarding goroutine of \<open>Subscribe\<close>: it copies the payloads until the channel is closed.\<close>

definition psa_forward :: "PubSubMessage list \<Rightarrow> bytes list" where
  "psa_forward msgs = map psm_Payload msgs"

subsection \<open>The Redis backend\<close>

text \<open>A Redis client: hashes with optional expiry, each command may fail.\<close>

record 'r redis_client =
  rc_HSet :: "string \<Rightarrow> (string \<times> string) list \<Rightarrow> 'r \<Rightarrow> (string + unit) \<times> 'r"
  rc_Expire :: "go_time \<Rightarrow> string \<Rightarrow> duration \<Rightarrow> 'r \<Rightarrow> (string + unit) \<times> 'r"
  rc_HGetAll :: "go_time \<Rightarrow> string \<Rightarrow> 'r \<Rightarrow> string + (string \<times> string) list"
  rc_Del :: "string \<Rightarrow> 'r \<Rightarrow> (string + unit) \<times> 'r"
  rc_Scan :: "nat \<Rightarrow> string \<Rightarrow> 'r \<Rightarrow> string + string list \<times> nat"
  rc_Close :: "'r \<Rightarrow> (string + unit) \<times> 'r"

definition redis_prefix :: "string \<Rightarrow> string" where
  "redis_prefix pfx = (if pfx = '''' then ''multicast:registry:'' else pfx)"

definition rrb_Set :: "codec \<Rightarrow> 'r redis_client \<Rightarrow> string \<Rightarrow> go_time \<Rightarrow> string \<Rightarrow> (string \<times> go_value) list \<Rightarrow> duration
    \<Rightarrow> 'r \<Rightarrow> unit slot_result \<times> 'r" where
  "rrb_Set J R pfx now identity metadata ttl s =
    (let key = pfx @ identity
     in case json_Marshal J (VMap metadata) of
          None \<Rightarrow> (Failed MarshalFailed, s)
        | Some data \<Rightarrow>
            (let record' = [(''id'', identity), (''metadata'', data), (''registered_at'', itoa (unix_seconds now))]
                   @ (if ttl > 0 then [(''expires_at'', itoa (unix_seconds (now + ttl)))] else [])
             in case rc_HSet R key record' s of
                  (Inl e, s1) \<Rightarrow> (Failed (StoreFailed e), s1)
                | (Inr _, s1) \<Rightarrow>
                    if ttl > 0
                    then (case rc_Expire R now key ttl s1 of
                            (Inl e, s2) \<Rightarrow> (Failed (StoreFailed e), s2)
                          | (Inr _, s2) \<Rightarrow> (Ok (), s2))
                    else (Ok (), s1)))"

definition rrb_parseIdentity :: "codec \<Rightarrow> (string \<Rightarrow> int) \<Rightarrow> (string \<rightharpoonup> string) \<Rightarrow> Identity slot_result" where
  "rrb_parseIdentity J scan_d data =
    (let rest = (\<lambda>m. Ok \<lparr>id_ID = (case data ''id'' of Some i \<Rightarrow> i | None \<Rightarrow> ''''), id_Metadata = m,
           id_RegisteredAt = (case data ''registered_at'' of Some v \<Rightarrow> time_Unix (scan_d v) | None \<Rightarrow> 0),
           id_ExpiresAt = map_option (\<lambda>v. time_Unix (scan_d v)) (data ''expires_at''), id_TTL = 0\<rparr>)
     in case data ''metadata'' of
          None \<Rightarrow> rest []
        | Some str \<Rightarrow>
            (case json_Unmarshal J str of
               Some (VMap m) \<Rightarrow> rest m
             | Some VNil \<Rightarrow> rest []
             | _ \<Rightarrow> Failed UnmarshalFailed))"

definition rrb_Get :: "codec \<Rightarrow> (string \<Rightarrow> int) \<Rightarrow> 'r redis_client \<Rightarrow> string \<Rightarrow> go_time \<Rightarrow> string \<Rightarrow> 'r \<Rightarrow> Identity slot_result" where
  "rrb_Get J scan_d R pfx now identity s =
    (case rc_HGetAll R now (pfx @ identity) s of
       Inl e \<Rightarrow> Failed (StoreFailed e)
     | Inr result \<Rightarrow> if result = [] then Failed (NotFound identity) else rrb_parseIdentity J scan_d (map_of result))"

text \<open>One key of a page: errors, vanished keys, broken records and expired identities are skipped.\<close>

definition scan_key :: "codec \<Rightarrow> (string \<Rightarrow> int) \<Rightarrow> 'r redis_client \<Rightarrow> go_time \<Rightarrow> 'r \<Rightarrow> string \<Rightarrow> Identity list" where
  "scan_key J scan_d R now s k =
    (case rc_HGetAll R now k s of
       Inl e \<Rightarrow> []
     | Inr result \<Rightarrow>
         if result = [] then []
         else (case rrb_parseIdentity J scan_d (map_of result) of
                 Ok i \<Rightarrow> (case id_ExpiresAt i of
                     Some e \<Rightarrow> if e < now then [] else [i]
                   | None \<Rightarrow> [i])
               | _ \<Rightarrow> []))"

text \<open>The pages of a scan; a server that never returns the cursor zero is never left.\<close>

partial_function (option) rrb_Scan :: "codec \<Rightarrow> (string \<Rightarrow> int) \<Rightarrow> 'r redis_client \<Rightarrow> string \<Rightarrow> go_time \<Rightarrow> 'r
    \<Rightarrow> nat \<Rightarrow> Identity list \<Rightarrow> Identity list slot_result option" where
  "rrb_Scan J scan_d R pfx now s cursor identities =
    (case rc_Scan R cursor (pfx @ ''*'') s of
       Inl e \<Rightarrow> Some (Failed (StoreFailed e))
     | Inr (keys, nextCursor) \<Rightarrow>
         if nextCursor = 0 then Some (Ok (identities @ concat (map (scan_key J scan_d R now s) keys)))
         else rrb_Scan J scan_d R pfx now s nextCursor (identities @ concat (map (scan_key J scan_d R now s) keys)))"

definition rrb_Delete :: "'r redis_client \<Rightarrow> string \<Rightarrow> string \<Rightarrow> 'r \<Rightarrow> unit slot_result \<times> 'r" where
  "rrb_Delete R pfx identity s =
    (case rc_Del R (pfx @ identity) s of (Inl e, s') \<Rightarrow> (Failed (StoreFailed e), s') | (Inr _, s') \<Rightarrow> (Ok (), s'))"

definition rrb_Enumerate :: "Filter option \<Rightarrow> 'r \<Rightarrow> Identity list option slot_result" where
  "rrb_Enumerate f s = Failed Unsupported"

definition rrb_Close :: "'r redis_client \<Rightarrow> 'r \<Rightarrow> unit slot_result \<times> 'r" where
  "rrb_Close R s = (case rc_Close R s of (Inl e, s') \<Rightarrow> (Failed (StoreFailed e), s') | (Inr _, s') \<Rightarrow> (Ok (), s'))"

text \<open>The scan returns after the last page, with the identities of all pages in their order.\<close>

fun scan_pages :: "'r redis_client \<Rightarrow> string \<Rightarrow> 'r \<Rightarrow> nat \<Rightarrow> string list list \<Rightarrow> bool" where
  "scan_pages R pat s cursor [] \<longleftrightarrow> False"
| "scan_pages R pat s cursor (keys # pages) \<longleftrightarrow>
    (\<exists>c. rc_Scan R cursor pat s = Inr (keys, c) \<and> (c = 0 \<and> pages = [] \<or> c \<noteq> 0 \<and> scan_pages R pat s c pages))"

lemma rrb_Scan_returns:
  "scan_pages R (pfx @ ''*'') s cursor pages \<Longrightarrow>
     rrb_Scan J scan_d R pfx now s cursor acc = Some (Ok (acc @ concat (map (scan_key J scan_d R now s) (concat pages))))"
proof (induction pages arbitrary: cursor acc)
  case (Cons keys pages)
  then show ?case by (subst rrb_Scan.simps) auto
qed simp

subsection \<open>What the adapter keeps\<close>

fun jsonified :: "(real \<Rightarrow> real) \<Rightarrow> go_value \<Rightarrow> go_value" where
  "jsonified fl (VInt n) = VFloat (Num (fl (of_int n)))"
| "jsonified fl (VInt64 n) = VFloat (Num (fl (of_int n)))"
| "jsonified fl (VSlice vs) = VSlice (map (jsonified fl) vs)"
| "jsonified fl (VMap kvs) = VMap (map (\<lambda>(k, v). (k, jsonified fl v)) kvs)"
| "jsonified fl v = v"

definition json_ok :: "codec \<Rightarrow> bool" where
  "json_ok J \<longleftrightarrow> (\<forall>v b. json_Marshal J v = Some b \<longrightarrow> json_Unmarshal J b = Some (jsonified (cd_fl J) v))"

definition stored_identity :: "codec \<Rightarrow> go_time \<Rightarrow> string \<Rightarrow> (string \<times> go_value) list \<Rightarrow> duration \<Rightarrow> Identity" where
  "stored_identity J now identity metadata ttl =
    \<lparr>id_ID = identity, id_Metadata = map (\<lambda>(k, v). (k, jsonified (cd_fl J) v)) metadata,
     id_RegisteredAt = time_Unix (unix_seconds now),
     id_ExpiresAt = (if ttl > 0 then Some (time_Unix (unix_seconds (now + ttl))) else None), id_TTL = 0\<rparr>"

lemma fl_of_int: "float_ok fl \<Longrightarrow> \<bar>n\<bar> \<le> 2 ^ 53 \<Longrightarrow> fl (of_int n) = of_int n"
  using float_exact [of fl n 2] by simp

lemma stamp_int: "float_ok (cd_fl J) \<Longrightarrow> \<bar>n\<bar> \<le> 2 ^ 53 \<Longrightarrow> stamp J (VFloat (Num (cd_fl J (of_int n)))) = n"
  by (simp add: stamp_def fl_of_int float_to_int64_def abs_le_iff)

lemma parse_stored:
  assumes "float_ok (cd_fl J)" "\<bar>unix_seconds now\<bar> \<le> 2 ^ 53" "\<bar>unix_seconds (now + ttl)\<bar> \<le> 2 ^ 53"
    and "jsonified (cd_fl J) (VMap (identity_record now identity metadata ttl)) = VMap r"
  shows "kra_parseIdentity J r = Ok (stored_identity J now identity metadata ttl)"
proof -
  have "r = map (\<lambda>(k, v). (k, jsonified (cd_fl J) v)) (identity_record now identity metadata ttl)" using assms(4) by simp
  then show ?thesis
    using assms(1-3) by (simp add: kra_parseIdentity_def stored_identity_def identity_record_def stamp_int)
qed

context kv_store
begin

lemma adapter_roundtrip:
  assumes J: "json_ok J" "float_ok (cd_fl J)" and stamps: "\<bar>unix_seconds now\<bar> \<le> 2 ^ 53" "\<bar>unix_seconds (now + ttl)\<bar> \<le> 2 ^ 53"
    and inv: "kv_inv s" and set: "kra_Set J I a now identity metadata ttl s = (Ok (), s')"
    and secs: "secs = (if ttl > 0 then seconds_int64 (cd_fl J) (cd_oob J) ttl else 0)" "secs < 9223372037"
    and t: "now \<le> t"
  shows "fst (kra_Get J I a t identity s') = (if 0 < secs \<and> now + secs * 1000000000 < t then Failed (NotFound identity)
    else Ok (stored_identity J now identity metadata ttl))"
proof -
  obtain data where data: "json_Marshal J (VMap (identity_record now identity metadata ttl)) = Some data"
    using set by (auto simp: kra_Set_def split: option.splits)
  obtain u where u: "kvb_Set I now (kra_prefix a @ identity) data secs s = (Inr u, s')"
    using set data secs by (auto simp: kra_Set_def Let_def split: prod.splits sum.splits)
  note law = set_law [OF inv secs(2) u]
  obtain s2 where get: "kvb_Get I t (kra_prefix a @ identity) s' = (Inr (live t s' (kra_prefix a @ identity)), s2)"
    using get_law law by blast
  obtain r where r: "json_Unmarshal J data = Some (VMap r)" "jsonified (cd_fl J) (VMap (identity_record now identity metadata ttl)) = VMap r"
    using J(1) data by (auto simp: json_ok_def)
  show ?thesis
    using get law t r parse_stored [OF J(2) stamps r(2)] by (simp add: kra_Get_def)
qed

end


lemma seconds_subsecond:
  assumes "float_ok fl" "0 < ttl" "ttl \<le> 750000000"
  shows "seconds_int64 fl oob ttl = 0"
proof -
  have d: "ttl div 1000000000 = 0" "ttl mod 1000000000 = ttl" using assms by auto
  let ?y = "fl (of_int ttl / 1000000000)"
  have unit: "of_int 0 / 4 \<le> fl x \<and> fl x \<le> of_int 3 / 4" if "0 \<le> x" "x \<le> 3 / 4" for x
    using float_between [OF assms(1), of 0 3 x] that by simp
  have "0 \<le> ?y \<and> ?y \<le> 3 / 4" using unit [of "of_int ttl / 1000000000"] assms by simp
  then have "of_int 0 / 4 \<le> fl ?y" "fl ?y \<le> of_int 3 / 4" using unit [of ?y] by auto
  moreover have "fl 0 = 0" using fl_of_int [OF assms(1), of 0] by simp
  ultimately have "\<lfloor>fl ?y\<rfloor> = 0" "0 \<le> fl ?y" by (auto simp: floor_eq_iff)
  then show ?thesis using \<open>fl 0 = 0\<close> by (simp add: seconds_int64_def d float_to_int64_def)
qed

text \<open>
  An identity registered with a time to live of at most three quarters of a second is
  written with no time to live at all, so the key-value store keeps it for ever although its
  record says that it has expired.
\<close>

theorem subsecond_ttl_never_expires:
  assumes "json_ok J" "float_ok (cd_fl J)" "\<bar>unix_seconds now\<bar> \<le> 2 ^ 53" "\<bar>unix_seconds (now + ttl)\<bar> \<le> 2 ^ 53"
    and "ms_inv s" "kra_Set J memstore_kv a now identity metadata ttl s = (Ok (), s')" "0 < ttl" "ttl \<le> 750000000" "now \<le> t"
  shows "\<exists>i. fst (kra_Get J memstore_kv a t identity s') = Ok i \<and> id_ExpiresAt i = Some (time_Unix (unix_seconds (now + ttl)))"
  using ms.adapter_roundtrip [OF assms(1-6) refl _ assms(9)] seconds_subsecond [OF assms(2,7,8)] assms(7)
  by (simp add: stored_identity_def)

text \<open>A codec of one record, for the examples.\<close>

definition demo_record :: "duration \<Rightarrow> go_value" where
  "demo_record ttl = VMap (identity_record 5000000000 ''u'' [(''room'', VString ''r'')] ttl)"

definition demo_codec :: "duration \<Rightarrow> codec" where
  "demo_codec ttl = \<lparr>json_Marshal = (\<lambda>v. if v = demo_record ttl then Some ''j'' else None),
     json_Unmarshal = (\<lambda>_. Some (jsonified (\<lambda>x. x) (demo_record ttl))), cd_fl = (\<lambda>x. x), cd_oob = (\<lambda>_. 0)\<rparr>"

lemma demo_codec_ok: "json_ok (demo_codec ttl)" "float_ok (cd_fl (demo_codec ttl))"
  by (auto simp: json_ok_def demo_codec_def float_ok_def mono_def)

lemma demo_set: "kra_Set (demo_codec ttl) memstore_kv NewKeyValueRegistryBackend 5000000000 ''u'' [(''room'', VString ''r'')] ttl NewMemStore
    = (Ok (), snd (kra_Set (demo_codec ttl) memstore_kv NewKeyValueRegistryBackend 5000000000 ''u'' [(''room'', VString ''r'')] ttl NewMemStore))"
  by (simp add: kra_Set_def demo_codec_def demo_record_def memstore_kv_def ms_Set_def NewMemStore_def Let_def)

lemma NewMemStore_inv: "ms_inv NewMemStore"
  by (simp add: ms_inv_def NewMemStore_def)


theorem subsecond_ttl_never_expires_witness:
  "\<exists>i. fst (kra_Get (demo_codec 500000000) memstore_kv NewKeyValueRegistryBackend 9000000000 ''u''
      (snd (kra_Set (demo_codec 500000000) memstore_kv NewKeyValueRegistryBackend 5000000000 ''u'' [(''room'', VString ''r'')] 500000000
        NewMemStore))) = Ok i \<and> id_ExpiresAt i = Some 5000000000"
  using subsecond_ttl_never_expires [OF demo_codec_ok _ _ NewMemStore_inv demo_set, of 500000000 9000000000]
  by (simp add: unix_seconds_def time_Unix_def)

end
