(* ===== verification/Launcher_Metrics.thy ===== *)
theory Launcher_Metrics
  imports Isolation Multicast_Adapters
begin

text \<open>
  The metrics collector of the pattern launcher (\<open>pkg/launcher/metrics.go\<close>): counters per pattern,
  the window of the last thousand launch durations, and the percentiles computed from it by
  an exchange sort on indices.  The two text exports are left out.
\<close>

subsection \<open>The collector\<close>

record launchDuration =
  ld_PatternName :: string
  ld_Isolation :: IsolationLevel
  ld_Duration :: duration
  ld_Success :: bool
  ld_Timestamp :: go_time

record MetricsCollector =
  mc_processStartsTotal :: "string \<rightharpoonup> int"
  mc_processStopsTotal :: "string \<rightharpoonup> int"
  mc_processFailuresTotal :: "string \<rightharpoonup> int"
  mc_processRestartsTotal :: "string \<rightharpoonup> int"
  mc_healthCheckSuccessTotal :: "string \<rightharpoonup> int"
  mc_healthCheckFailureTotal :: "string \<rightharpoonup> int"
  mc_launchDurations :: "launchDuration list"
  mc_startTime :: go_time

definition NewMetricsCollector :: "go_time \<Rightarrow> MetricsCollector" where
  "NewMetricsCollector now = \<lparr>mc_processStartsTotal = Map.empty, mc_processStopsTotal = Map.empty,
     mc_processFailuresTotal = Map.empty, mc_processRestartsTotal = Map.empty, mc_healthCheckSuccessTotal = Map.empty,
     mc_healthCheckFailureTotal = Map.empty, mc_launchDurations = [], mc_startTime = now\<rparr>"

definition count_of :: "string \<Rightarrow> (string \<rightharpoonup> int) \<Rightarrow> int" where
  "count_of k m = (case m k of None \<Rightarrow> 0 | Some v \<Rightarrow> v)"

definition bump :: "string \<Rightarrow> (string \<rightharpoonup> int) \<Rightarrow> (string \<rightharpoonup> int)" where
  "bump k m = m(k \<mapsto> int64 (count_of k m + 1))"

definition metric_key :: "string \<Rightarrow> IsolationLevel \<Rightarrow> string" where
  "metric_key patternName level = patternName @ '':'' @ level_String level"

definition RecordProcessStart :: "string \<Rightarrow> IsolationLevel \<Rightarrow> MetricsCollector \<Rightarrow> MetricsCollector" where
  "RecordProcessStart patternName level mc =
    mc\<lparr>mc_processStartsTotal := bump (metric_key patternName level) (mc_processStartsTotal mc)\<rparr>"

definition RecordProcessStop :: "string \<Rightarrow> IsolationLevel \<Rightarrow> MetricsCollector \<Rightarrow> MetricsCollector" where
  "RecordProcessStop patternName level mc =
    mc\<lparr>mc_processStopsTotal := bump (metric_key patternName level) (mc_processStopsTotal mc)\<rparr>"

definition RecordProcessFailure :: "string \<Rightarrow> IsolationLevel \<Rightarrow> MetricsCollector \<Rightarrow> MetricsCollector" where
  "RecordProcessFailure patternName level mc =
    mc\<lparr>mc_processFailuresTotal := bump (metric_key patternName level) (mc_processFailuresTotal mc)\<rparr>"

definition RecordProcessRestart :: "string \<Rightarrow> IsolationLevel \<Rightarrow> MetricsCollector \<Rightarrow> MetricsCollector" where
  "RecordProcessRestart patternName level mc =
    mc\<lparr>mc_processRestartsTotal := bump (metric_key patternName level) (mc_processRestartsTotal mc)\<rparr>"

definition RecordHealthCheckSuccess :: "string \<Rightarrow> MetricsCollector \<Rightarrow> MetricsCollector" where
  "RecordHealthCheckSuccess patternName mc =
    mc\<lparr>mc_healthCheckSuccessTotal := bump patternName (mc_healthCheckSuccessTotal mc)\<rparr>"

definition RecordHealthCheckFailure :: "string \<Rightarrow> MetricsCollector \<Rightarrow> MetricsCollector" where
  "RecordHealthCheckFailure patternName mc =
    mc\<lparr>mc_healthCheckFailureTotal := bump patternName (mc_healthCheckFailureTotal mc)\<rparr>"

definition RecordLaunchDuration :: "go_time \<Rightarrow> string \<Rightarrow> IsolationLevel \<Rightarrow> duration \<Rightarrow> bool \<Rightarrow> MetricsCollector \<Rightarrow> MetricsCollector" where
  "RecordLaunchDuration now patternName level d success mc =
    (let kept = (if length (mc_launchDurations mc) \<ge> 1000 then tl (mc_launchDurations mc) else mc_launchDurations mc)
     in mc\<lparr>mc_launchDurations := kept @ [\<lparr>ld_PatternName = patternName, ld_Isolation = level, ld_Duration = d,
          ld_Success = success, ld_Timestamp = now\<rparr>]\<rparr>)"

subsection \<open>Percentiles\<close>

definition swap_at :: "nat \<Rightarrow> nat \<Rightarrow> 'a list \<Rightarrow> 'a list" where
  "swap_at i j xs = xs[i := xs ! j, j := xs ! i]"

function sort_inner :: "nat \<Rightarrow> nat \<Rightarrow> duration list \<Rightarrow> duration list" where
  "sort_inner i j xs =
    (if j < length xs then sort_inner i (j + 1) (if xs ! i > xs ! j then swap_at i j xs else xs) else xs)"
  by auto
termination
  by (relation "measure (\<lambda>(i, j, xs). length xs - j)") (auto simp: swap_at_def)

declare sort_inner.simps [simp del]

lemma length_sort_inner [simp]: "length (sort_inner i j xs) = length xs"
  by (induction i j xs rule: sort_inner.induct) (subst sort_inner.simps, simp add: swap_at_def)

function sort_outer :: "nat \<Rightarrow> duration list \<Rightarrow> duration list" where
  "sort_outer i xs = (if i < length xs then sort_outer (i + 1) (sort_inner i (i + 1) xs) else xs)"
  by auto
termination
  by (relation "measure (\<lambda>(i, xs). length xs - i)") auto

declare sort_outer.simps [simp del]

definition percentile_index :: "nat \<Rightarrow> nat \<Rightarrow> nat" where
  "percentile_index p n = (let i = n * p div 100 in if i \<ge> n then n - 1 else i)"

definition calculateLatencyPercentiles :: "MetricsCollector \<Rightarrow> duration \<times> duration \<times> duration" where
  "calculateLatencyPercentiles mc =
    (if mc_launchDurations mc = [] then (0, 0, 0)
     else let durations = sort_outer 0 (map ld_Duration (mc_launchDurations mc)); n = length durations
          in (durations ! percentile_index 50 n, durations ! percentile_index 95 n, durations ! percentile_index 99 n))"

subsection \<open>Snapshots\<close>

record MetricsSnapshot =
  sn_TotalProcesses :: int
  sn_RunningProcesses :: int
  sn_TerminatingProcesses :: int
  sn_FailedProcesses :: int
  sn_IsolationDistribution :: "string \<rightharpoonup> int"
  sn_ProcessStartsTotal :: "string \<rightharpoonup> int"
  sn_ProcessStopsTotal :: "string \<rightharpoonup> int"
  sn_ProcessFailuresTotal :: "string \<rightharpoonup> int"
  sn_ProcessRestartsTotal :: "string \<rightharpoonup> int"
  sn_HealthCheckSuccessTotal :: "string \<rightharpoonup> int"
  sn_HealthCheckFailureTotal :: "string \<rightharpoonup> int"
  sn_LaunchDurationP50 :: duration
  sn_LaunchDurationP95 :: duration
  sn_LaunchDurationP99 :: duration
  sn_UptimeSeconds :: int

definition isolation_counts :: "IsolationLevel list \<Rightarrow> (string \<rightharpoonup> int)" where
  "isolation_counts levels = fold (\<lambda>level. bump (level_String level)) levels Map.empty"

text \<open>The levels are those of the tracked processes, in the order of the iteration over them.\<close>

definition GetMetrics :: "(real \<Rightarrow> real) \<Rightarrow> (real \<Rightarrow> int) \<Rightarrow> go_time \<Rightarrow> IsolationLevel list \<Rightarrow> MetricsCollector \<Rightarrow> MetricsSnapshot" where
  "GetMetrics fl oob now levels mc =
    (case calculateLatencyPercentiles mc of (p50, p95, p99) \<Rightarrow>
      \<lparr>sn_TotalProcesses = int (length levels), sn_RunningProcesses = int (length levels),
       sn_TerminatingProcesses = 0, sn_FailedProcesses = 0, sn_IsolationDistribution = isolation_counts levels,
       sn_ProcessStartsTotal = mc_processStartsTotal mc, sn_ProcessStopsTotal = mc_processStopsTotal mc,
       sn_ProcessFailuresTotal = mc_processFailuresTotal mc, sn_ProcessRestartsTotal = mc_processRestartsTotal mc,
       sn_HealthCheckSuccessTotal = mc_healthCheckSuccessTotal mc, sn_HealthCheckFailureTotal = mc_healthCheckFailureTotal mc,
       sn_LaunchDurationP50 = p50, sn_LaunchDurationP95 = p95, sn_LaunchDurationP99 = p99,
       sn_UptimeSeconds = seconds_int64 fl oob (now - mc_startTime mc)\<rparr>)"

subsection \<open>The exchange sort\<close>

lemma swap_at_nth:
  "i < length xs \<Longrightarrow> j < length xs \<Longrightarrow> k < length xs \<Longrightarrow> swap_at i j xs ! k = (if k = j then xs ! i else if k = i then xs ! j else xs ! k)"
  by (simp add: swap_at_def nth_list_update)

lemma mset_swap_at [simp]: "i < length xs \<Longrightarrow> j < length xs \<Longrightarrow> mset (swap_at i j xs) = mset xs"
  by (simp add: swap_at_def mset_swap)

lemma length_swap_at [simp]: "length (swap_at i j xs) = length xs"
  by (simp add: swap_at_def)

lemma sort_inner_correct:
  assumes "i < j" "j \<le> length xs" "\<forall>k. i < k \<and> k < j \<longrightarrow> xs ! i \<le> xs ! k"
  shows "mset (sort_inner i j xs) = mset xs \<and> (\<forall>k < i. sort_inner i j xs ! k = xs ! k)
    \<and> (\<forall>k. i < k \<and> k < length xs \<longrightarrow> sort_inner i j xs ! i \<le> sort_inner i j xs ! k)"
  using assms
proof (induction i j xs rule: sort_inner.induct)
  case (1 i j xs)
  show ?case
  proof (cases "j < length xs")
    case True
    let ?ys = "if xs ! i > xs ! j then swap_at i j xs else xs"
    have "\<forall>k. i < k \<and> k < j + 1 \<longrightarrow> ?ys ! i \<le> ?ys ! k" using 1(2-4) True by (auto simp: swap_at_nth less_Suc_eq)
    then have "mset (sort_inner i (j + 1) ?ys) = mset ?ys \<and> (\<forall>k < i. sort_inner i (j + 1) ?ys ! k = ?ys ! k)
      \<and> (\<forall>k. i < k \<and> k < length ?ys \<longrightarrow> sort_inner i (j + 1) ?ys ! i \<le> sort_inner i (j + 1) ?ys ! k)"
      using 1(1) [OF True] 1(2) True by simp
    moreover have "sort_inner i j xs = sort_inner i (j + 1) ?ys" using True by (subst sort_inner.simps) simp
    moreover have "mset ?ys = mset xs" "\<forall>k < i. ?ys ! k = xs ! k" "length ?ys = length xs" using 1(2) True by (auto simp: swap_at_nth)
    ultimately show ?thesis by simp
  next
    case False
    then show ?thesis using 1(3,4) by (subst (1 2 3 4) sort_inner.simps) auto
  qed
qed

definition sorted_upto :: "nat \<Rightarrow> 'a::linorder list \<Rightarrow> bool" where
  "sorted_upto i xs \<longleftrightarrow> (\<forall>k l. k < i \<and> k < l \<and> l < length xs \<longrightarrow> xs ! k \<le> xs ! l)"

lemma mset_drop_eq:
  assumes "mset ys = mset xs" "\<forall>k < i. ys ! k = xs ! k" "i \<le> length xs"
  shows "mset (drop i ys) = mset (drop i xs)"
proof -
  have len: "length ys = length xs" using assms(1) by (metis size_mset)
  then have "take i ys = take i xs" using assms(2,3) by (intro nth_equalityI) auto
  then show ?thesis using assms(1) by (metis add_left_cancel append_take_drop_id mset_append)
qed

lemma sort_inner_step:
  assumes "i < length xs" "sorted_upto i xs"
  shows "sorted_upto (i + 1) (sort_inner i (i + 1) xs)"
proof -
  let ?ys = "sort_inner i (i + 1) xs"
  have ys: "mset ?ys = mset xs" "\<forall>k < i. ?ys ! k = xs ! k" "\<forall>k. i < k \<and> k < length xs \<longrightarrow> ?ys ! i \<le> ?ys ! k"
    using sort_inner_correct [of i "i + 1" xs] assms(1) by auto
  have "?ys ! k \<le> ?ys ! l" if "k < i" "k < l" "l < length xs" for k l
  proof (cases "l < i")
    case True
    then show ?thesis using that ys(2) assms by (simp add: sorted_upto_def)
  next
    case False
    then have "?ys ! l \<in> set (drop i ?ys)" using that nth_mem [of "l - i" "drop i ?ys"] by simp
    then have "?ys ! l \<in> set (drop i xs)" using mset_drop_eq [OF ys(1,2)] assms(1) mset_eq_setD by fastforce
    then obtain m where "i + m < length xs" "xs ! (i + m) = ?ys ! l"
      unfolding in_set_conv_nth by (auto simp: less_diff_conv add.commute)
    then show ?thesis using that(1) ys(2) assms(2) unfolding sorted_upto_def by (metis trans_less_add1)
  qed
  then show ?thesis using ys(3) by (auto simp: sorted_upto_def less_Suc_eq)
qed

lemma sort_outer_correct:
  "sorted_upto i xs \<Longrightarrow> mset (sort_outer i xs) = mset xs \<and> sorted (sort_outer i xs)"
proof (induction i xs rule: sort_outer.induct)
  case (1 i xs)
  show ?case
  proof (cases "i < length xs")
    case True
    have "mset (sort_inner i (i + 1) xs) = mset xs" using sort_inner_correct [of i "i + 1" xs] True by simp
    then show ?thesis using 1(1) [OF True sort_inner_step [OF True 1(2)]] True by (subst (1 2) sort_outer.simps) simp
  next
    case False
    then show ?thesis using 1(2) by (subst (1 2) sort_outer.simps) (auto simp: sorted_upto_def sorted_iff_nth_mono_less)
  qed
qed

lemma sort_outer_sort: "sort_outer 0 xs = sort xs"
  using sort_outer_correct [of 0 xs] properties_for_sort [of "sort_outer 0 xs" xs] by (simp add: sorted_upto_def)

subsection \<open>The window of launches\<close>

definition record_launch :: "launchDuration \<Rightarrow> MetricsCollector \<Rightarrow> MetricsCollector" where
  "record_launch d = RecordLaunchDuration (ld_Timestamp d) (ld_PatternName d) (ld_Isolation d) (ld_Duration d) (ld_Success d)"

lemma record_launch_window:
  assumes "mc_launchDurations mc = drop (length xs - 1000) xs"
  shows "mc_launchDurations (record_launch d mc) = drop (Suc (length xs) - 1000) (xs @ [d])"
proof (cases "length xs \<ge> 1000")
  case True
  then have "Suc (length xs) - 1000 = Suc (length xs - 1000)" by simp
  then have "tl (drop (length xs - 1000) xs) = drop (Suc (length xs) - 1000) xs" by (simp only: drop_Suc tl_drop)
  then show ?thesis using True assms by (simp add: record_launch_def RecordLaunchDuration_def Let_def)
next
  case False
  then show ?thesis using assms by (simp add: record_launch_def RecordLaunchDuration_def Let_def)
qed

lemma launch_window: "mc_launchDurations (fold record_launch xs (NewMetricsCollector now)) = drop (length xs - 1000) xs"
proof (induction xs rule: rev_induct)
  case (snoc d xs)
  then show ?case using record_launch_window [OF snoc] by simp
qed (simp add: NewMetricsCollector_def)

lemma percentile_index_less: "p < 100 \<Longrightarrow> 0 < n \<Longrightarrow> percentile_index p n = n * p div 100"
proof -
  assume "p < 100" "0 < n"
  then have "n * p < n * 100" by simp
  then have "n * p div 100 < n" by (simp add: less_mult_imp_div_less)
  then show ?thesis by (simp add: percentile_index_def Let_def)
qed

text \<open>
  C14: the percentiles are those of the last thousand launches: after any history of launches
  they are the entries of the sorted durations of its last thousand elements at half, at
  95 and at 99 hundredths of their number, and zero before the first launch.
\<close>

theorem latency_percentiles:
  "calculateLatencyPercentiles (fold record_launch xs (NewMetricsCollector now)) =
    (let ds = sort (map ld_Duration (drop (length xs - 1000) xs)); n = min (length xs) 1000
     in if xs = [] then (0, 0, 0) else (ds ! (n * 50 div 100), ds ! (n * 95 div 100), ds ! (n * 99 div 100)))"
proof -
  have "drop (length xs - 1000) xs = [] \<longleftrightarrow> xs = []" by (cases xs) (simp_all add: Suc_diff_le)
  moreover have "length xs - (length xs - 1000) = min (length xs) 1000" by auto
  ultimately show ?thesis
    by (auto simp: calculateLatencyPercentiles_def launch_window sort_outer_sort percentile_index_less Let_def)
qed

end
