(* ===== verification/Pattern_Registry.thy ===== *)
theory Pattern_Registry
  imports Prism_Prelude "HOL-Library.Word"
begin

text \<open>
  Pattern manifests and their discovery (\<open>pkg/launcher/manifest.go\<close> and \<open>discovery.go\<close>).  The file
  system is a record of what its calls return, the same for the whole of one operation, and
  the YAML decoder is a parameter.  \<open>path/filepath\<close> is modelled as far as it is used, for Unix.
  The configuration schema of a backend slot, which no code reads, is left out.
\<close>

unbundle bit_operations_syntax

subsection \<open>Paths\<close>

fun split_on :: "char \<Rightarrow> string \<Rightarrow> string list" where
  "split_on c [] = [[]]"
| "split_on c (x # xs) =
    (if x = c then [] # split_on c xs
     else case split_on c xs of [] \<Rightarrow> [[x]] | y # ys \<Rightarrow> (x # y) # ys)"

fun join_with :: "string \<Rightarrow> string list \<Rightarrow> string" where
  "join_with sep [] = []"
| "join_with sep [x] = x"
| "join_with sep (x # y # ys) = x @ sep @ join_with sep (y # ys)"

definition IsAbs :: "string \<Rightarrow> bool" where
  "IsAbs p \<longleftrightarrow> (case p of c # _ \<Rightarrow> c = CHR ''/'' | [] \<Rightarrow> False)"

text \<open>One element of a path, on the elements kept so far, last first.\<close>

definition clean_step :: "bool \<Rightarrow> string \<Rightarrow> string list \<Rightarrow> string list" where
  "clean_step rooted e st =
    (if e = [] \<or> e = ''.'' then st
     else if e = ''..'' then (case st of
         prev # rest \<Rightarrow> if prev \<noteq> ''..'' then rest else e # st
       | [] \<Rightarrow> if rooted then [] else [e])
     else e # st)"

definition path_Clean :: "string \<Rightarrow> string" where
  "path_Clean p =
    (let rooted = IsAbs p;
         elems = rev (fold (clean_step rooted) (split_on (CHR ''/'') p) []);
         out = (if rooted then ''/'' else []) @ join_with ''/'' elems
     in if out = [] then ''.'' else out)"

definition path_Dir :: "string \<Rightarrow> string" where
  "path_Dir p = path_Clean (rev (dropWhile (\<lambda>c. c \<noteq> CHR ''/'') (rev p)))"

definition path_Join :: "string list \<Rightarrow> string" where
  "path_Join elems = (case dropWhile (\<lambda>e. e = []) elems of [] \<Rightarrow> [] | es \<Rightarrow> path_Clean (join_with ''/'' es))"

record file_system =
  fs_Stat :: "string \<Rightarrow> string + nat"
  fs_ReadFile :: "string \<Rightarrow> string + bytes"
  fs_ReadDir :: "string \<Rightarrow> string + (string \<times> bool) list"
  fs_Getwd :: "string + string"

definition path_Abs :: "file_system \<Rightarrow> string \<Rightarrow> string + string" where
  "path_Abs F p = (if IsAbs p then Inr (path_Clean p)
     else case fs_Getwd F of Inl e \<Rightarrow> Inl e | Inr wd \<Rightarrow> Inr (path_Join [wd, p]))"

subsection \<open>Manifests\<close>

record HealthCheckConfig =
  hcc_Port :: int
  hcc_Path :: string
  hcc_Interval :: duration
  hcc_Timeout :: duration
  hcc_FailureThreshold :: int

record ResourceConfig =
  rc_CPULimit :: real
  rc_MemoryLimit :: string
  rc_CPURequest :: real
  rc_MemoryRequest :: string

record BackendSlot =
  bs_Name :: string
  bs_Type :: string
  bs_Required :: bool

record Manifest =
  mf_Name :: string
  mf_Version :: string
  mf_Executable :: string
  mf_IsolationLevel :: string
  mf_HealthCheck :: HealthCheckConfig
  mf_Resources :: ResourceConfig
  mf_BackendSlots :: "BackendSlot list"
  mf_Environment :: "string \<rightharpoonup> string"
  mf_Description :: string
  mf_Author :: string
  mf_manifestPath :: string

datatype manifest_error =
    ReadManifest string
  | ParseManifest string
  | ResolveManifestPath string
  | NameRequired
  | VersionRequired
  | ExecutableRequired
  | InvalidIsolationLevel string
  | ExecutableNotFound string string
  | ExecutableNotExecutable string nat
  | HealthPortOutOfRange int
  | HealthPathRequired
  | DirectoryNotFound string string
  | ReadDirectory string
  | NoPatternsDiscovered string

definition ExecutablePath :: "Manifest \<Rightarrow> string" where
  "ExecutablePath m = (if IsAbs (mf_Executable m) then mf_Executable m
     else path_Join [path_Dir (mf_manifestPath m), mf_Executable m])"

definition manifest_levels :: "string list" where
  "manifest_levels = [''none'', ''namespace'', ''session'']"

definition health_defaults :: "HealthCheckConfig \<Rightarrow> HealthCheckConfig" where
  "health_defaults h = h\<lparr>
     hcc_Interval := (if hcc_Interval h = 0 then 30000000000 else hcc_Interval h),
     hcc_Timeout := (if hcc_Timeout h = 0 then 5000000000 else hcc_Timeout h),
     hcc_FailureThreshold := (if hcc_FailureThreshold h = 0 then 3 else hcc_FailureThreshold h)\<rparr>"

text \<open>\<open>Validate\<close> fills in the defaults of the health check, so it returns the manifest.\<close>

definition mf_Validate :: "file_system \<Rightarrow> Manifest \<Rightarrow> manifest_error + Manifest" where
  "mf_Validate F m =
    (if mf_Name m = [] then Inl NameRequired
     else if mf_Version m = [] then Inl VersionRequired
     else if mf_Executable m = [] then Inl ExecutableRequired
     else if mf_IsolationLevel m \<notin> set manifest_levels then Inl (InvalidIsolationLevel (mf_IsolationLevel m))
     else case fs_Stat F (ExecutablePath m) of
            Inl e \<Rightarrow> Inl (ExecutableNotFound (ExecutablePath m) e)
          | Inr mode \<Rightarrow>
              if mode AND 73 = 0 then Inl (ExecutableNotExecutable (ExecutablePath m) mode)
              else if hcc_Port (mf_HealthCheck m) < 1 \<or> hcc_Port (mf_HealthCheck m) > 65535
              then Inl (HealthPortOutOfRange (hcc_Port (mf_HealthCheck m)))
              else if hcc_Path (mf_HealthCheck m) = [] then Inl HealthPathRequired
              else Inr (m\<lparr>mf_HealthCheck := health_defaults (mf_HealthCheck m)\<rparr>))"

definition LoadManifest :: "(bytes \<Rightarrow> string + Manifest) \<Rightarrow> file_system \<Rightarrow> string \<Rightarrow> manifest_error + Manifest" where
  "LoadManifest yaml F path =
    (case fs_ReadFile F path of
       Inl e \<Rightarrow> Inl (ReadManifest e)
     | Inr data \<Rightarrow>
         (case yaml data of
            Inl e \<Rightarrow> Inl (ParseManifest e)
          | Inr m \<Rightarrow>
              (case path_Abs F path of
                 Inl e \<Rightarrow> Inl (ResolveManifestPath e)
               | Inr p \<Rightarrow> mf_Validate F (m\<lparr>mf_manifestPath := p\<rparr>))))"

definition IsolationLevelProto :: "Manifest \<Rightarrow> int" where
  "IsolationLevelProto m = (if mf_IsolationLevel m = ''none'' then 0 else if mf_IsolationLevel m = ''namespace'' then 1
     else if mf_IsolationLevel m = ''session'' then 2 else 0)"

subsection \<open>The registry\<close>

record Registry =
  rg_patterns :: "string \<rightharpoonup> Manifest"
  rg_directory :: string

definition NewRegistry :: "string \<Rightarrow> Registry" where
  "NewRegistry directory = \<lparr>rg_patterns = Map.empty, rg_directory = directory\<rparr>"

text \<open>One directory entry: \<open>None\<close> when it is skipped or its manifest is refused.\<close>

definition discover_entry :: "(bytes \<Rightarrow> string + Manifest) \<Rightarrow> file_system \<Rightarrow> string \<Rightarrow> string \<times> bool \<Rightarrow> Manifest option" where
  "discover_entry yaml F dir entry =
    (let manifestPath = path_Join [path_Join [dir, fst entry], ''manifest.yaml'']
     in if \<not> snd entry then None
        else case fs_Stat F manifestPath of
               Inl _ \<Rightarrow> None
             | Inr _ \<Rightarrow> (case LoadManifest yaml F manifestPath of Inl _ \<Rightarrow> None | Inr m \<Rightarrow> Some m))"

fun discover_loop :: "(bytes \<Rightarrow> string + Manifest) \<Rightarrow> file_system \<Rightarrow> string \<Rightarrow> (string \<times> bool) list
    \<Rightarrow> (string \<rightharpoonup> Manifest) \<Rightarrow> nat \<Rightarrow> (string \<rightharpoonup> Manifest) \<times> nat" where
  "discover_loop yaml F dir [] patterns discovered = (patterns, discovered)"
| "discover_loop yaml F dir (entry # entries) patterns discovered =
    (case discover_entry yaml F dir entry of
       None \<Rightarrow> discover_loop yaml F dir entries patterns discovered
     | Some m \<Rightarrow> discover_loop yaml F dir entries (patterns(mf_Name m \<mapsto> m)) (discovered + 1))"

definition Discover :: "(bytes \<Rightarrow> string + Manifest) \<Rightarrow> file_system \<Rightarrow> Registry \<Rightarrow> (manifest_error + unit) \<times> Registry" where
  "Discover yaml F r =
    (case fs_Stat F (rg_directory r) of
       Inl e \<Rightarrow> (Inl (DirectoryNotFound (rg_directory r) e), r)
     | Inr _ \<Rightarrow>
         (case fs_ReadDir F (rg_directory r) of
            Inl e \<Rightarrow> (Inl (ReadDirectory e), r)
          | Inr entries \<Rightarrow>
              (case discover_loop yaml F (rg_directory r) entries (rg_patterns r) 0 of
                 (patterns, discovered) \<Rightarrow>
                   (if discovered = 0 then Inl (NoPatternsDiscovered (rg_directory r)) else Inr (),
                    r\<lparr>rg_patterns := patterns\<rparr>))))"

definition GetPattern :: "string \<Rightarrow> Registry \<Rightarrow> Manifest option" where
  "GetPattern name r = rg_patterns r name"

definition rg_ListPatterns :: "string list \<Rightarrow> Registry \<Rightarrow> Manifest list" where
  "rg_ListPatterns ord r = map_values ord (rg_patterns r)"

definition rg_Count :: "Registry \<Rightarrow> nat" where
  "rg_Count r = card (dom (rg_patterns r))"

definition Reload :: "(bytes \<Rightarrow> string + Manifest) \<Rightarrow> file_system \<Rightarrow> Registry \<Rightarrow> (manifest_error + unit) \<times> Registry" where
  "Reload yaml F r = Discover yaml F (r\<lparr>rg_patterns := Map.empty\<rparr>)"


subsection \<open>Well-formed registries\<close>

definition mf_ok :: "Manifest \<Rightarrow> bool" where
  "mf_ok m \<longleftrightarrow> mf_Name m \<noteq> [] \<and> mf_Version m \<noteq> [] \<and> mf_Executable m \<noteq> []
     \<and> mf_IsolationLevel m \<in> set manifest_levels
     \<and> 1 \<le> hcc_Port (mf_HealthCheck m) \<and> hcc_Port (mf_HealthCheck m) \<le> 65535 \<and> hcc_Path (mf_HealthCheck m) \<noteq> []
     \<and> hcc_Interval (mf_HealthCheck m) \<noteq> 0 \<and> hcc_Timeout (mf_HealthCheck m) \<noteq> 0 \<and> hcc_FailureThreshold (mf_HealthCheck m) \<noteq> 0"

definition registry_ok :: "Registry \<Rightarrow> bool" where
  "registry_ok r \<longleftrightarrow> (\<forall>name m. rg_patterns r name = Some m \<longrightarrow> mf_Name m = name \<and> mf_ok m)"

text \<open>A scan of the directory, by \<open>Reload\<close> or by \<open>Discover\<close>, with the decoder and the file system it sees.\<close>

type_synonym registry_op = "bool \<times> (bytes \<Rightarrow> string + Manifest) \<times> file_system"

fun registry_exec :: "registry_op \<Rightarrow> Registry \<Rightarrow> Registry" where
  "registry_exec (reload, yaml, F) r = snd (if reload then Reload yaml F r else Discover yaml F r)"

lemma mf_Validate_ok: "mf_Validate F m = Inr m' \<Longrightarrow> mf_ok m'"
  by (auto simp: mf_Validate_def mf_ok_def health_defaults_def split: if_splits sum.splits)

lemma discover_entry_ok: "discover_entry yaml F dir entry = Some m \<Longrightarrow> mf_ok m"
  by (auto simp: discover_entry_def LoadManifest_def Let_def dest: mf_Validate_ok split: if_splits sum.splits)

lemma discover_loop_result:
  "discover_loop yaml F dir entries patterns n
    = (patterns ++ map_of (rev (map (\<lambda>m. (mf_Name m, m)) (List.map_filter (discover_entry yaml F dir) entries))),
       n + length (List.map_filter (discover_entry yaml F dir) entries))"
  by (induction entries arbitrary: patterns n) (auto simp: map_filter_simps map_add_def split: option.splits)

lemma set_discovered: "set (List.map_filter (discover_entry yaml F dir) entries) \<subseteq> Collect mf_ok"
  by (auto simp: List.map_filter_def discover_entry_ok)

lemma map_of_named: "map_of (rev (map (\<lambda>m. (mf_Name m, m)) ms)) name = Some m \<Longrightarrow> m \<in> set ms \<and> mf_Name m = name"
  by (drule map_of_SomeD) auto

lemma registry_ok_add:
  assumes "registry_ok r" "\<forall>m \<in> set ms. mf_ok m"
  shows "registry_ok (r\<lparr>rg_patterns := rg_patterns r ++ map_of (rev (map (\<lambda>m. (mf_Name m, m)) ms))\<rparr>)"
proof -
  have "mf_Name m = name \<and> mf_ok m"
    if "(rg_patterns r ++ map_of (rev (map (\<lambda>m. (mf_Name m, m)) ms))) name = Some m" for name m
  proof (cases "map_of (rev (map (\<lambda>m. (mf_Name m, m)) ms)) name")
    case None
    then have "rg_patterns r name = Some m" using that by (simp add: map_add_def)
    then show ?thesis using assms(1) unfolding registry_ok_def by blast
  next
    case (Some x)
    then have "x = m" using that by (simp add: map_add_def)
    then show ?thesis using map_of_named [of ms name m] Some assms(2) by blast
  qed
  moreover have "rg_patterns (r\<lparr>rg_patterns := f\<rparr>) = f" for f by simp
  ultimately show ?thesis unfolding registry_ok_def by presburger
qed

lemma Discover_ok:
  assumes "registry_ok r"
  shows "registry_ok (snd (Discover yaml F r))"
proof -
  have "registry_ok (r\<lparr>rg_patterns := fst (discover_loop yaml F (rg_directory r) entries (rg_patterns r) 0)\<rparr>)" for entries
    using set_discovered [of yaml F "rg_directory r" entries]
    unfolding discover_loop_result fst_conv by (intro registry_ok_add assms) blast
  then show ?thesis using assms unfolding Discover_def by (simp split: sum.split prod.split) (metis fst_conv)
qed

lemma registry_ok_clear: "registry_ok (r\<lparr>rg_patterns := Map.empty\<rparr>)"
  by (simp add: registry_ok_def)

lemma registry_exec_ok: "registry_ok r \<Longrightarrow> registry_ok (registry_exec op r)"
  by (cases op) (simp add: Reload_def Discover_ok registry_ok_clear)

text \<open>
  C12: whatever directories are scanned and however often, every manifest in the registry is
  stored under its own name and is well formed: its required fields are set, its isolation
  level and port are in range, and the defaults of its health check are filled in.
\<close>

theorem registry_well_formed: "registry_ok (fold registry_exec ops (NewRegistry directory))"
proof -
  have "registry_ok r \<Longrightarrow> registry_ok (fold registry_exec ops r)" for r
    by (induction ops arbitrary: r) (auto intro: registry_exec_ok)
  moreover have "registry_ok (NewRegistry directory)" by (simp add: registry_ok_def NewRegistry_def)
  ultimately show ?thesis by blast
qed

text \<open>
  C13: a reload that succeeds leaves exactly the patterns of the directory, a later entry
  winning over an earlier one of the same name; a reload that fails leaves no pattern at all,
  also none of those that were there before.
\<close>

theorem reload_exact:
  assumes "Reload yaml F r = (result, r')"
  shows "case result of
      Inl e \<Rightarrow> rg_patterns r' = Map.empty
    | Inr _ \<Rightarrow> \<exists>entries ms. fs_ReadDir F (rg_directory r) = Inr entries
        \<and> ms = List.map_filter (discover_entry yaml F (rg_directory r)) entries \<and> ms \<noteq> []
        \<and> rg_patterns r' = map_of (rev (map (\<lambda>m. (mf_Name m, m)) ms))"
proof (cases "fs_Stat F (rg_directory r)")
  case (Inl e)
  then have "result = Inl (DirectoryNotFound (rg_directory r) e) \<and> r' = r\<lparr>rg_patterns := Map.empty\<rparr>"
    using assms unfolding Reload_def Discover_def by simp
  then show ?thesis by simp
next
  case stat: (Inr a)
  show ?thesis
  proof (cases "fs_ReadDir F (rg_directory r)")
    case (Inl e)
    then have "result = Inl (ReadDirectory e) \<and> r' = r\<lparr>rg_patterns := Map.empty\<rparr>"
      using assms stat unfolding Reload_def Discover_def by simp
    then show ?thesis by simp
  next
    case (Inr entries)
    let ?ms = "List.map_filter (discover_entry yaml F (rg_directory r)) entries"
    have "result = (if ?ms = [] then Inl (NoPatternsDiscovered (rg_directory r)) else Inr ())
        \<and> r' = r\<lparr>rg_patterns := map_of (rev (map (\<lambda>m. (mf_Name m, m)) ?ms))\<rparr>"
      using assms stat Inr unfolding Reload_def Discover_def by (auto simp: discover_loop_result)
    then show ?thesis using Inr by simp
  qed
qed

subsection \<open>Examples\<close>

definition demo_manifest :: Manifest where
  "demo_manifest = \<lparr>mf_Name = ''consumer'', mf_Version = ''1'', mf_Executable = ''run'', mf_IsolationLevel = ''namespace'',
     mf_HealthCheck = \<lparr>hcc_Port = 9090, hcc_Path = ''/health'', hcc_Interval = 0, hcc_Timeout = 0, hcc_FailureThreshold = 0\<rparr>,
     mf_Resources = \<lparr>rc_CPULimit = 1, rc_MemoryLimit = ''1Gi'', rc_CPURequest = 0, rc_MemoryRequest = []\<rparr>,
     mf_BackendSlots = [], mf_Environment = Map.empty, mf_Description = [], mf_Author = [], mf_manifestPath = []\<rparr>"

definition demo_fs :: "(string \<times> bool) list \<Rightarrow> file_system" where
  "demo_fs entries = \<lparr>fs_Stat = (\<lambda>_. Inr 493), fs_ReadFile = (\<lambda>_. Inr []), fs_ReadDir = (\<lambda>_. Inr entries), fs_Getwd = Inr ''/srv''\<rparr>"

lemma demo_fs_fields [simp]: "fs_Stat (demo_fs es) q = Inr 493" "fs_ReadFile (demo_fs es) q = Inr []"
    "fs_ReadDir (demo_fs es) q = Inr es" "fs_Getwd (demo_fs es) = Inr ''/srv''"
  by (simp_all add: demo_fs_def)

lemma demo_discovered:
  "\<exists>m. discover_entry (\<lambda>_. Inr demo_manifest) (demo_fs es) dir (c, True) = Some m \<and> mf_Name m = ''consumer''"
proof -
  have "(493::nat) AND 73 \<noteq> 0" by simp
  then have valid: "\<exists>m. mf_Validate (demo_fs es) (demo_manifest\<lparr>mf_manifestPath := q\<rparr>) = Inr m \<and> mf_Name m = ''consumer''" for q
    by (simp add: mf_Validate_def demo_manifest_def manifest_levels_def)
  obtain q where q: "path_Abs (demo_fs es) (path_Join [path_Join [dir, c], ''manifest.yaml'']) = Inr q"
    by (cases "IsAbs (path_Join [path_Join [dir, c], ''manifest.yaml''])") (simp_all add: path_Abs_def)
  obtain m where m: "mf_Validate (demo_fs es) (demo_manifest\<lparr>mf_manifestPath := q\<rparr>) = Inr m" "mf_Name m = ''consumer''"
    using valid by blast
  then show ?thesis by (simp add: discover_entry_def LoadManifest_def q)
qed

theorem reload_exact_witness:
  "rg_patterns (snd (Reload (\<lambda>_. Inr demo_manifest) (demo_fs []) (NewRegistry ''p'') )) = Map.empty
   \<and> (\<exists>m. rg_patterns (snd (Reload (\<lambda>_. Inr demo_manifest) (demo_fs [(''c'', True)]) (NewRegistry ''p''))) = [''consumer'' \<mapsto> m])"
proof -
  obtain a r where a: "Reload (\<lambda>_. Inr demo_manifest) (demo_fs []) (NewRegistry ''p'') = (a, r)" by fastforce
  then have "\<exists>e. a = Inl e" by (auto simp: Reload_def Discover_def)
  with reload_exact [OF a] have one: "rg_patterns r = Map.empty" by auto
  obtain b s where b: "Reload (\<lambda>_. Inr demo_manifest) (demo_fs [(''c'', True)]) (NewRegistry ''p'') = (b, s)" by fastforce
  obtain m where m: "discover_entry (\<lambda>_. Inr demo_manifest) (demo_fs [(''c'', True)]) ''p'' (''c'', True) = Some m" "mf_Name m = ''consumer''"
    using demo_discovered by blast
  have dir: "rg_directory (NewRegistry ''p'') = ''p''" by (simp add: NewRegistry_def)
  have "b = Inr ()" using b m(1) by (simp add: Reload_def Discover_def dir split: prod.splits)
  with reload_exact [OF b] m have "rg_patterns s = [''consumer'' \<mapsto> m]" by (simp add: dir map_filter_simps)
  with one show ?thesis using a b by (intro conjI exI [of _ m]) simp_all
qed

end
