(* ===== verification/Launcher.thy ===== *)
theory Launcher
  imports Launcher_Metrics Pattern_Registry
begin

text \<open>
  The pattern launcher (\<open>pkg/launcher/service.go\<close>, \<open>syncer.go\<close>, \<open>cleanup.go\<close>): the gRPC service that
  starts pattern processes through one isolation manager per level, the syncer that does the
  work for the workers of all three process managers, and the detector of orphaned processes.
  What the operating system answers is an argument of each operation, and the processes that
  are started and signalled are kept as a trace; the kill by \<open>exec.CommandContext\<close> when its context
  ends is the operating system's part.  One call of the syncer is one step.  A handle always
  has a process, since it is made after the process has started.
\<close>

subsection \<open>Types\<close>

record processConfig =
  lc_PatternName :: string
  lc_Manifest :: Manifest
  lc_Key :: IsolationKey
  lc_Config :: "string \<rightharpoonup> string"
  lc_GRPCPort :: int
  lc_HealthPort :: int

record processHandle =
  hd_Pid :: int
  hd_Config :: processConfig
  hd_StartTime :: go_time
  hd_GRPCAddress :: string
  hd_HealthURL :: string
  hd_RestartCount :: int
  hd_LastError :: "string option"
  hd_ErrorCount :: int
  hd_LastHealthy :: go_time

record ProcessInfo =
  pi_ProcessID :: string
  pi_PatternName :: string
  pi_Namespace :: string
  pi_SessionID :: string
  pi_Isolation :: IsolationLevel
  pi_Address :: string
  pi_PID :: int
  pi_StartTime :: go_time
  pi_Config :: "string \<rightharpoonup> string"
  pi_RestartCount :: int
  pi_ErrorCount :: int
  pi_LastError :: string

record LauncherConfig =
  cf_PatternsDir :: string
  cf_DefaultIsolation :: IsolationLevel
  cf_ResyncInterval :: duration
  cf_BackOffPeriod :: duration
  cf_CPULimit :: real
  cf_MemoryLimit :: string

datatype os_call = OsStart string "string list" int | OsKill int | OsTerm int

record Service =
  sv_config :: LauncherConfig
  sv_registry :: Registry
  sv_managers :: "IsolationLevel \<rightharpoonup> processConfig IsolationManager"
  sv_processes :: "string \<rightharpoonup> ProcessInfo"
  sv_handles :: "string \<rightharpoonup> processHandle"
  sv_metrics :: MetricsCollector
  sv_os :: "os_call list"
  sv_startTime :: go_time
  sv_shutdown :: bool
  sv_panicked :: bool

text \<open>
  What a call of the syncer learns from outside: whether signal 0 reaches the process, the
  result of the health check, of starting the process and of each poll of the health endpoint
  (\<open>None\<close> once the context is done) until the deadline, the inherited environment, the iteration
  orders of two maps, and for termination whether the process exits within the grace period,
  the result of killing it and whether it dies of it.
\<close>

record syncer_answers =
  an_now :: go_time
  an_alive :: bool
  an_healthy :: bool
  an_start :: "string + int"
  an_polls :: "bool option list"
  an_environ :: "string list"
  an_configOrder :: "string list"
  an_envOrder :: "string list"
  an_exits :: bool
  an_killError :: "string option"
  an_dies :: bool

datatype sync_result = SyncPanic | SyncDone bool "string option"

subsection \<open>The syncer\<close>

definition os_do :: "os_call \<Rightarrow> Service \<Rightarrow> Service" where
  "os_do call s = s\<lparr>sv_os := sv_os s @ [call]\<rparr>"

definition set_handle :: "string \<Rightarrow> processHandle \<Rightarrow> Service \<Rightarrow> Service" where
  "set_handle pid h s = s\<lparr>sv_handles := (sv_handles s)(pid \<mapsto> h)\<rparr>"

definition on_metrics :: "(MetricsCollector \<Rightarrow> MetricsCollector) \<Rightarrow> Service \<Rightarrow> Service" where
  "on_metrics f s = s\<lparr>sv_metrics := f (sv_metrics s)\<rparr>"

text \<open>\<open>checkHealth\<close>, with the outcome of the request.\<close>

definition checkHealth :: "bool \<Rightarrow> processHandle \<Rightarrow> Service \<Rightarrow> Service" where
  "checkHealth ok h s = on_metrics ((if ok then RecordHealthCheckSuccess else RecordHealthCheckFailure) (lc_PatternName (hd_Config h))) s"

fun waitForHealthy :: "bool option list \<Rightarrow> processHandle \<Rightarrow> Service \<Rightarrow> string option \<times> Service" where
  "waitForHealthy [] h s = (Some ''health check timeout after 30s'', s)"
| "waitForHealthy (None # polls) h s = (Some ''context canceled'', s)"
| "waitForHealthy (Some ok # polls) h s =
    (if ok then (None, checkHealth True h s) else waitForHealthy polls h (checkHealth False h s))"

definition allocatePort :: "Service \<Rightarrow> int" where
  "allocatePort s = 50051 + int (card (dom (sv_handles s))) * 10"

definition env_lines :: "string list \<Rightarrow> (string \<rightharpoonup> string) \<Rightarrow> string list" where
  "env_lines ord m = concat (map (\<lambda>k. case m k of None \<Rightarrow> [] | Some v \<Rightarrow> [k @ ''='' @ v]) ord)"

definition launch_env :: "syncer_answers \<Rightarrow> string \<Rightarrow> int \<Rightarrow> processConfig \<Rightarrow> string list" where
  "launch_env an pid port config = an_environ an
     @ [''PATTERN_NAME='' @ lc_PatternName config, ''NAMESPACE='' @ ik_Namespace (lc_Key config),
        ''SESSION_ID='' @ ik_Session (lc_Key config), ''GRPC_PORT='' @ itoa port, ''HEALTH_PORT='' @ itoa (port + 1),
        ''PROCESS_ID='' @ pid]
     @ env_lines (an_configOrder an) (lc_Config config)
     @ env_lines (an_envOrder an) (mf_Environment (lc_Manifest config))"

definition launchProcess :: "syncer_answers \<Rightarrow> string \<Rightarrow> processConfig \<Rightarrow> Service \<Rightarrow> (string + processHandle) \<times> Service" where
  "launchProcess an pid config s =
    (let port = allocatePort s
     in case an_start an of
          Inl e \<Rightarrow> (Inl (''start process: '' @ e), s)
        | Inr ospid \<Rightarrow>
            (Inr \<lparr>hd_Pid = ospid, hd_Config = config, hd_StartTime = an_now an, hd_GRPCAddress = ''localhost:'' @ itoa port,
               hd_HealthURL = ''http://localhost:'' @ itoa (port + 1) @ hcc_Path (mf_HealthCheck (lc_Manifest config)),
               hd_RestartCount = 0, hd_LastError = None, hd_ErrorCount = 0, hd_LastHealthy = 0\<rparr>,
             os_do (OsStart (ExecutablePath (lc_Manifest config)) (launch_env an pid port config) ospid) s))"

text \<open>
  The second half of \<open>SyncProcess\<close>, from the launch on; \<open>old\<close> is the handle found in the map.  At
  the end the code reads the process and the address of \<open>old\<close>, not of the new handle.
\<close>

definition start_process :: "syncer_answers \<Rightarrow> string \<Rightarrow> processConfig \<Rightarrow> processHandle option \<Rightarrow> Service \<Rightarrow> sync_result \<times> Service" where
  "start_process an pid config old s =
    (case launchProcess an pid config s of
       (Inl e, s1) \<Rightarrow>
         (SyncDone False (Some (''launch process: '' @ e)),
          case old of None \<Rightarrow> s1
          | Some h \<Rightarrow> set_handle pid (h\<lparr>hd_LastError := Some e, hd_ErrorCount := hd_ErrorCount h + 1\<rparr>) s1)
     | (Inr launched, s1) \<Rightarrow>
         (let new = (case old of None \<Rightarrow> launched
                | Some h \<Rightarrow> launched\<lparr>hd_RestartCount := hd_RestartCount h, hd_ErrorCount := hd_ErrorCount h,
                             hd_LastError := hd_LastError h\<rparr>);
              s2 = set_handle pid new s1
          in case waitForHealthy (an_polls an) new s2 of
               (Some e, s3) \<Rightarrow>
                 (SyncDone False (Some (''health check failed: '' @ e)),
                  set_handle pid (new\<lparr>hd_LastError := Some e, hd_ErrorCount := hd_ErrorCount new + 1\<rparr>) (os_do (OsKill (hd_Pid new)) s3))
             | (None, s3) \<Rightarrow>
                 (let s4 = set_handle pid (new\<lparr>hd_ErrorCount := 0, hd_LastHealthy := an_now an, hd_LastError := None\<rparr>) s3
                  in case sv_processes s4 pid of
                       None \<Rightarrow> (SyncDone False None, s4)
                     | Some info \<Rightarrow>
                         (case old of
                            None \<Rightarrow> (SyncPanic, s4\<lparr>sv_panicked := True\<rparr>)
                          | Some h \<Rightarrow> (SyncDone False None, s4\<lparr>sv_processes := (sv_processes s4)
                              (pid \<mapsto> info\<lparr>pi_PID := hd_Pid h, pi_Address := hd_GRPCAddress h\<rparr>)\<rparr>)))))"

definition manifest_level :: "IsolationLevel \<Rightarrow> Manifest \<Rightarrow> IsolationLevel" where
  "manifest_level fallback m = (if mf_IsolationLevel m = ''none'' then IsolationNone
     else if mf_IsolationLevel m = ''namespace'' then IsolationNamespace
     else if mf_IsolationLevel m = ''session'' then IsolationSession else fallback)"

definition bad_config :: string where
  "bad_config = ''invalid config type: expected *isolation.ProcessConfig''"

definition SyncProcess :: "syncer_answers \<Rightarrow> processConfig ProcessConfig option \<Rightarrow> Service \<Rightarrow> sync_result \<times> Service" where
  "SyncProcess an config s =
    (case config of
       None \<Rightarrow> (SyncDone False (Some bad_config), s)
     | Some isoConfig \<Rightarrow>
         (let config = ic_BackendConfig isoConfig; level = cf_DefaultIsolation (sv_config s); pid = ProcessID (lc_Key config) level
          in case sv_handles s pid of
               None \<Rightarrow> start_process an pid config None s
             | Some h \<Rightarrow>
                 if an_alive an
                 then let s1 = checkHealth (an_healthy an) h s
                      in if an_healthy an
                         then (SyncDone False None, set_handle pid (h\<lparr>hd_ErrorCount := 0, hd_LastHealthy := an_now an\<rparr>) s1)
                         else let h1 = h\<lparr>hd_ErrorCount := hd_ErrorCount h + 1\<rparr>;
                                  s2 = os_do (OsKill (hd_Pid h)) (set_handle pid h1 s1)
                              in if hd_ErrorCount h1 \<ge> 5
                                 then (SyncDone True (Some ''process exceeded max consecutive errors: 5''), s2)
                                 else start_process an pid config (Some h1) s2
                 else let h1 = h\<lparr>hd_RestartCount := hd_RestartCount h + 1\<rparr>
                      in start_process an pid config (Some h1)
                           (on_metrics (RecordProcessRestart (lc_PatternName config) (manifest_level level (lc_Manifest (hd_Config h))))
                              (set_handle pid h1 s))))"

definition SyncTerminatingProcess :: "syncer_answers \<Rightarrow> processConfig ProcessConfig option \<Rightarrow> Service \<Rightarrow> string option \<times> Service" where
  "SyncTerminatingProcess an config s =
    (case config of
       None \<Rightarrow> (Some bad_config, s)
     | Some isoConfig \<Rightarrow>
         (case sv_handles s (ProcessID (lc_Key (ic_BackendConfig isoConfig)) (cf_DefaultIsolation (sv_config s))) of
            None \<Rightarrow> (None, s)
          | Some h \<Rightarrow>
              (let s1 = os_do (OsTerm (hd_Pid h)) s
               in if an_exits an then (None, s1)
                  else let s2 = os_do (OsKill (hd_Pid h)) s1
                       in case an_killError an of
                            Some e \<Rightarrow> (Some (''force kill: '' @ e), s2)
                          | None \<Rightarrow> if an_dies an then (None, s2) else (Some ''process did not die after SIGKILL'', s2))))"

definition SyncTerminatedProcess :: "processConfig ProcessConfig option \<Rightarrow> Service \<Rightarrow> string option \<times> Service" where
  "SyncTerminatedProcess config s =
    (case config of
       None \<Rightarrow> (Some bad_config, s)
     | Some isoConfig \<Rightarrow>
         (None, s\<lparr>sv_handles := (sv_handles s)
            (ProcessID (lc_Key (ic_BackendConfig isoConfig)) (cf_DefaultIsolation (sv_config s)) := None)\<rparr>))"

subsection \<open>The goroutines of the managers\<close>

text \<open>
  An event is an action of the process manager of one level, or the return of the call that
  one of its workers makes into the syncer.  Updates of other requests are actions too.
\<close>

datatype launcher_event =
    LAct IsolationLevel "processConfig ProcessConfig action"
  | LSync IsolationLevel nat syncer_answers

definition act_on :: "delay_env \<Rightarrow> IsolationLevel \<Rightarrow> processConfig ProcessConfig action \<Rightarrow> Service \<Rightarrow> Service" where
  "act_on env level act s =
    (case sv_managers s level of
       None \<Rightarrow> s
     | Some im \<Rightarrow> s\<lparr>sv_managers := (sv_managers s)(level \<mapsto> im_run env [act] im)\<rparr>)"

definition sync_return :: "delay_env \<Rightarrow> IsolationLevel \<Rightarrow> nat \<Rightarrow> string option \<times> Service \<Rightarrow> Service" where
  "sync_return env level w r = act_on env level (AReturn w False (map_option SyncerError (fst r))) (snd r)"

fun launcher_exec :: "delay_env \<Rightarrow> launcher_event \<Rightarrow> Service \<Rightarrow> Service" where
  "launcher_exec env (LAct level act) s = (case act of AReturn _ _ _ \<Rightarrow> s | _ \<Rightarrow> act_on env level act s)"
| "launcher_exec env (LSync level w an) s =
    (case sv_managers s level of
       None \<Rightarrow> s
     | Some im \<Rightarrow>
         if w < length (pm_workers (im_pm im))
         then case wk_pc (pm_workers (im_pm im) ! w) of
                WSyncing a u t \<Rightarrow>
                  (case SyncProcess an (pu_Config u) s of
                     (SyncPanic, s') \<Rightarrow> s'
                   | (SyncDone terminal err, s') \<Rightarrow> act_on env level (AReturn w terminal (map_option SyncerError err)) s')
              | WTerminating a u grace t \<Rightarrow> sync_return env level w (SyncTerminatingProcess an (pu_Config u) s)
              | WTerminated a u t \<Rightarrow> sync_return env level w (SyncTerminatedProcess (pu_Config u) s)
              | _ \<Rightarrow> s
         else s)"

definition launcher_run :: "delay_env \<Rightarrow> launcher_event list \<Rightarrow> Service \<Rightarrow> Service" where
  "launcher_run env = fold (\<lambda>ev s. if sv_panicked s then s else launcher_exec env ev s)"

text \<open>The manager of a level; the three levels have one from the start.\<close>

definition manager_of :: "IsolationLevel \<Rightarrow> Service \<Rightarrow> processConfig IsolationManager" where
  "manager_of level s = (case sv_managers s level of Some im \<Rightarrow> im | None \<Rightarrow> NewIsolationManager 0 level [])"

definition set_manager :: "IsolationLevel \<Rightarrow> processConfig IsolationManager \<Rightarrow> Service \<Rightarrow> Service" where
  "set_manager level im s = s\<lparr>sv_managers := (sv_managers s)(level \<mapsto> im)\<rparr>"

subsection \<open>The service\<close>

definition DefaultConfig :: LauncherConfig where
  "DefaultConfig = \<lparr>cf_PatternsDir = ''./patterns'', cf_DefaultIsolation = IsolationNamespace, cf_ResyncInterval = 30000000000,
     cf_BackOffPeriod = 5000000000, cf_CPULimit = 2, cf_MemoryLimit = ''1Gi''\<rparr>"

definition initIsolationManagers :: "go_time \<Rightarrow> LauncherConfig \<Rightarrow> (IsolationLevel \<rightharpoonup> processConfig IsolationManager)" where
  "initIsolationManagers now config =
    (let opts = [WithResyncInterval (cf_ResyncInterval config), WithBackOffPeriod (cf_BackOffPeriod config)]
     in fold (\<lambda>level m. m(level \<mapsto> NewIsolationManager now level opts))
          [IsolationNone, IsolationNamespace, IsolationSession] Map.empty)"

definition NewService :: "(bytes \<Rightarrow> string + Manifest) \<Rightarrow> file_system \<Rightarrow> go_time \<Rightarrow> LauncherConfig option \<Rightarrow> manifest_error + Service" where
  "NewService yaml F now given =
    (let config = (case given of None \<Rightarrow> DefaultConfig | Some c \<Rightarrow> c)
     in case Discover yaml F (NewRegistry (cf_PatternsDir config)) of
          (Inl e, _) \<Rightarrow> Inl e
        | (Inr _, registry) \<Rightarrow> Inr \<lparr>sv_config = config, sv_registry = registry, sv_managers = initIsolationManagers now config,
            sv_processes = Map.empty, sv_handles = Map.empty, sv_metrics = NewMetricsCollector now, sv_os = [],
            sv_startTime = now, sv_shutdown = False, sv_panicked = False\<rparr>)"

datatype pb_IsolationLevel = ISOLATION_LEVEL_UNSPECIFIED | ISOLATION_NONE | ISOLATION_NAMESPACE | ISOLATION_SESSION

datatype pb_ProcessState = STATE_UNSPECIFIED | STATE_STARTING | STATE_RUNNING | STATE_TERMINATING | STATE_TERMINATED | STATE_FAILED | STATE_FINISHED

fun protoToIsolationLevel :: "LauncherConfig \<Rightarrow> pb_IsolationLevel \<Rightarrow> IsolationLevel" where
  "protoToIsolationLevel c ISOLATION_NONE = IsolationNone"
| "protoToIsolationLevel c ISOLATION_NAMESPACE = IsolationNamespace"
| "protoToIsolationLevel c ISOLATION_SESSION = IsolationSession"
| "protoToIsolationLevel c ISOLATION_LEVEL_UNSPECIFIED = cf_DefaultIsolation c"

record LaunchRequest =
  lr_PatternName :: string
  lr_Isolation :: pb_IsolationLevel
  lr_Namespace :: string
  lr_SessionId :: string
  lr_Config :: "string \<rightharpoonup> string"
  lr_GracePeriodSecs :: int

record LaunchResponse =
  rs_ProcessId :: string
  rs_State :: pb_ProcessState
  rs_Address :: string
  rs_Healthy :: bool

datatype rpc_error = InvalidArgument string | NotFoundError string | NoManager IsolationLevel | LaunchFailed isolation_error

datatype 'a rpc_result = RpcPanic | RpcError rpc_error | RpcOk 'a

definition request_key :: "LaunchRequest \<Rightarrow> IsolationKey" where
  "request_key req = \<lparr>ik_Namespace = lr_Namespace req, ik_Session = lr_SessionId req\<rparr>"

definition launch_config :: "LaunchRequest \<Rightarrow> Manifest \<Rightarrow> processConfig ProcessConfig" where
  "launch_config req m = \<lparr>ic_Key = request_key req,
     ic_BackendConfig = \<lparr>lc_PatternName = lr_PatternName req, lc_Manifest = m, lc_Key = request_key req, lc_Config = lr_Config req,
       lc_GRPCPort = 0, lc_HealthPort = 0\<rparr>, ic_GracePeriodSec = lr_GracePeriodSecs req\<rparr>"

text \<open>
  \<open>slept\<close> are the events of the final 100 milliseconds; \<open>begun\<close>, \<open>took\<close> and \<open>now\<close> are the readings of
  the clock.  The last lookup panics when the entry has been removed meanwhile.
\<close>

definition LaunchPattern :: "delay_env \<Rightarrow> launcher_event wait_schedule \<Rightarrow> launcher_event list \<Rightarrow> duration \<Rightarrow> go_time \<Rightarrow> LaunchRequest
    \<Rightarrow> Service \<Rightarrow> LaunchResponse rpc_result \<times> Service" where
  "LaunchPattern env sch slept took now req s =
    (let name = lr_PatternName req; level = protoToIsolationLevel (sv_config s) (lr_Isolation req)
     in if name = [] then (RpcError (InvalidArgument ''pattern_name is required''), s)
        else case GetPattern name (sv_registry s) of
               None \<Rightarrow> (RpcError (NotFoundError (''pattern not found: '' @ name)), s)
             | Some manifest \<Rightarrow>
                 if level = IsolationNamespace \<and> lr_Namespace req = []
                 then (RpcError (InvalidArgument ''namespace is required for NAMESPACE isolation''), s)
                 else if level = IsolationSession \<and> lr_SessionId req = []
                 then (RpcError (InvalidArgument ''session_id is required for SESSION isolation''), s)
                 else if sv_managers s level = None then (RpcError (NoManager level), s)
                 else case GetOrCreateProcess (manager_of level) (set_manager level) (launcher_run env) sch
                             (request_key req) (launch_config req manifest) s of
                        (Inl e, s1) \<Rightarrow>
                          (RpcError (LaunchFailed e),
                           on_metrics (RecordLaunchDuration now name level took False) (on_metrics (RecordProcessFailure name level) s1))
                      | (Inr handle, s1) \<Rightarrow>
                          (let s2 = on_metrics (RecordLaunchDuration now name level took True) (on_metrics (RecordProcessStart name level) s1);
                               pid = ih_ID handle;
                               info = \<lparr>pi_ProcessID = pid, pi_PatternName = name, pi_Namespace = lr_Namespace req,
                                 pi_SessionID = lr_SessionId req, pi_Isolation = level, pi_Address = [], pi_PID = 0,
                                 pi_StartTime = now, pi_Config = lr_Config req, pi_RestartCount = 0, pi_ErrorCount = 0, pi_LastError = []\<rparr>;
                               s3 = launcher_run env slept (s2\<lparr>sv_processes := (sv_processes s2)(pid \<mapsto> info)\<rparr>)
                           in case sv_processes s3 pid of
                                None \<Rightarrow> (RpcPanic, s3)
                              | Some info' \<Rightarrow> (RpcOk \<lparr>rs_ProcessId = pid, rs_State = STATE_RUNNING, rs_Address = pi_Address info',
                                  rs_Healthy = ih_Health handle\<rparr>, s3)))"

record PatternInfo =
  pt_PatternName :: string
  pt_ProcessId :: string
  pt_State :: pb_ProcessState
  pt_Address :: string
  pt_Healthy :: bool
  pt_UptimeSeconds :: int
  pt_Namespace :: string
  pt_SessionId :: string
  pt_Pid :: int

definition pattern_info :: "(duration \<Rightarrow> int) \<Rightarrow> go_time \<Rightarrow> ProcessInfo \<Rightarrow> PatternInfo" where
  "pattern_info secs now info = \<lparr>pt_PatternName = pi_PatternName info, pt_ProcessId = pi_ProcessID info, pt_State = STATE_RUNNING,
     pt_Address = pi_Address info, pt_Healthy = True, pt_UptimeSeconds = secs (now - pi_StartTime info),
     pt_Namespace = pi_Namespace info, pt_SessionId = pi_SessionID info, pt_Pid = int32 (pi_PID info)\<rparr>"

record ListPatternsRequest =
  lq_PatternName :: string
  lq_Namespace :: string
  lq_State :: pb_ProcessState

definition ListPatterns :: "(duration \<Rightarrow> int) \<Rightarrow> go_time \<Rightarrow> string list \<Rightarrow> ListPatternsRequest \<Rightarrow> Service \<Rightarrow> PatternInfo list \<times> int" where
  "ListPatterns secs now ord req s =
    (map (pattern_info secs now) (filter (\<lambda>info.
        (lq_PatternName req = [] \<or> pi_PatternName info = lq_PatternName req)
        \<and> (lq_Namespace req = [] \<or> pi_Namespace info = lq_Namespace req)
        \<and> (lq_State req = STATE_RUNNING \<or> lq_State req = STATE_UNSPECIFIED)) (map_values ord (sv_processes s))),
     int32 (int (card (dom (sv_processes s)))))"

record TerminateRequest =
  tq_ProcessId :: string
  tq_GracePeriodSecs :: int
  tq_Force :: bool

definition TerminatePattern :: "delay_env \<Rightarrow> launcher_event list \<Rightarrow> launcher_event list \<Rightarrow> bool \<Rightarrow> nat \<Rightarrow> TerminateRequest
    \<Rightarrow> Service \<Rightarrow> (isolation_error + unit) rpc_result \<times> Service" where
  "TerminatePattern env sent waited ontime completedCh req s =
    (case sv_processes s (tq_ProcessId req) of
       None \<Rightarrow> (RpcError (NotFoundError (''process not found: '' @ tq_ProcessId req)), s)
     | Some info \<Rightarrow>
         let level = pi_Isolation info
         in if sv_managers s level = None then (RpcError (NoManager level), s)
            else case TerminateProcess (manager_of level) (set_manager level) (launcher_run env) sent waited ontime completedCh
                        \<lparr>ik_Namespace = pi_Namespace info, ik_Session = pi_SessionID info\<rparr>
                        (if tq_GracePeriodSecs req = 0 then 10 else tq_GracePeriodSecs req) s of
                   (Inl e, s1) \<Rightarrow> (RpcOk (Inl e), s1)
                 | (Inr _, s1) \<Rightarrow> (RpcOk (Inr ()),
                     (on_metrics (RecordProcessStop (pi_PatternName info) level) s1)
                       \<lparr>sv_processes := (sv_processes s1)(tq_ProcessId req := None)\<rparr>))"

definition sv_GetProcessStatus :: "(duration \<Rightarrow> int) \<Rightarrow> go_time \<Rightarrow> string \<Rightarrow> Service \<Rightarrow> PatternInfo option" where
  "sv_GetProcessStatus secs now pid s = map_option (pattern_info secs now) (sv_processes s pid)"

record HealthResponse =
  hr_Healthy :: bool
  hr_TotalProcesses :: int
  hr_RunningProcesses :: int
  hr_TerminatingProcesses :: int
  hr_FailedProcesses :: int
  hr_IsolationDistribution :: "string \<rightharpoonup> int"
  hr_Processes :: "PatternInfo list"
  hr_UptimeSeconds :: int

text \<open>Both loops run over the same processes; the counters of the distribution are 32-bit.\<close>

definition sv_Health :: "(duration \<Rightarrow> int) \<Rightarrow> go_time \<Rightarrow> string list \<Rightarrow> bool \<Rightarrow> Service \<Rightarrow> HealthResponse" where
  "sv_Health secs now ord includeProcesses s =
    (let infos = map_values ord (sv_processes s); n = int32 (int (length infos))
     in \<lparr>hr_Healthy = True, hr_TotalProcesses = n, hr_RunningProcesses = n, hr_TerminatingProcesses = 0, hr_FailedProcesses = 0,
         hr_IsolationDistribution = fold (\<lambda>info m. let k = level_String (pi_Isolation info) in m(k \<mapsto> int32 (count_of k m + 1))) infos Map.empty,
         hr_Processes = (if includeProcesses then map (pattern_info secs now) infos else []),
         hr_UptimeSeconds = secs (now - sv_startTime s)\<rparr>)"

text \<open>The wait of each manager for its goroutines is left out.  \<open>ords\<close> gives, per level, the order in which the manager visits its processes.\<close>

definition sv_Shutdown :: "IsolationLevel list \<Rightarrow> (IsolationLevel \<Rightarrow> string list) \<Rightarrow> Service \<Rightarrow> Service" where
  "sv_Shutdown levels ords s = fold (\<lambda>level s. case sv_managers s level of
      None \<Rightarrow> s | Some im \<Rightarrow> set_manager level (im_Shutdown (ords level) im) s) levels (s\<lparr>sv_shutdown := True\<rparr>)"

definition sv_GetMetrics :: "(real \<Rightarrow> real) \<Rightarrow> (real \<Rightarrow> int) \<Rightarrow> go_time \<Rightarrow> string list \<Rightarrow> Service \<Rightarrow> MetricsSnapshot" where
  "sv_GetMetrics fl oob now ord s = GetMetrics fl oob now (map pi_Isolation (map_values ord (sv_processes s))) (sv_metrics s)"

subsection \<open>Orphans and cleanup\<close>

text \<open>
  What the detector sees of \<open>/proc\<close>: its entries, or \<open>None\<close> when it cannot be read, and the
  environment of a process.  \<open>orphan_answers\<close> tells how a process reacts: whether it takes the
  first signal, whether it still exists at each check, and the result of killing it.
\<close>

record proc_view =
  pv_entries :: "(string \<times> bool) list option"
  pv_environ :: "int \<Rightarrow> string option"

record orphan_answers =
  oa_term :: bool
  oa_checks :: "bool list"
  oa_killError :: "string option"

definition all_digits :: "string \<Rightarrow> bool" where
  "all_digits ds \<longleftrightarrow> ds \<noteq> [] \<and> list_all (\<lambda>c. 48 \<le> (of_char c :: nat) \<and> (of_char c :: nat) < 58) ds"

text \<open>\<open>strconv.Atoi\<close> for 64-bit integers.\<close>

definition go_Atoi :: "string \<Rightarrow> int option" where
  "go_Atoi str =
    (let (neg, ds) = (case str of c # rest \<Rightarrow> if c = CHR ''-'' then (True, rest) else if c = CHR ''+'' then (False, rest) else (False, str)
                     | [] \<Rightarrow> (False, str));
         v = int (foldl (\<lambda>v c. 10 * v + digit_value c) 0 ds); n = (if neg then - v else v)
     in if all_digits ds \<and> - (2 ^ 63) \<le> n \<and> n < 2 ^ 63 then Some n else None)"

definition getAllPIDs :: "proc_view \<Rightarrow> int list" where
  "getAllPIDs pv = (case pv_entries pv of None \<Rightarrow> []
     | Some entries \<Rightarrow> List.map_filter (\<lambda>(name, dir). if dir then go_Atoi name else None) entries)"

definition isPatternProcess :: "proc_view \<Rightarrow> int \<Rightarrow> bool" where
  "isPatternProcess pv pid = (case pv_environ pv pid of None \<Rightarrow> False
     | Some data \<Rightarrow> list_ex (\<lambda>v. take 13 v = ''PATTERN_NAME='') (split_on (CHR 0x00) data))"

definition findPatternProcesses :: "proc_view \<Rightarrow> int list" where
  "findPatternProcesses pv = filter (isPatternProcess pv) (getAllPIDs pv)"

definition terminateOrphan :: "orphan_answers \<Rightarrow> int \<Rightarrow> Service \<Rightarrow> string option \<times> Service" where
  "terminateOrphan an pid s =
    (let s1 = os_do (OsTerm pid) s
     in if \<not> oa_term an \<or> False \<in> set (oa_checks an) then (None, s1)
        else (map_option (\<lambda>e. ''force kill: '' @ e) (oa_killError an), os_do (OsKill pid) s1))"

definition trackedPIDs :: "string list \<Rightarrow> Service \<Rightarrow> int list" where
  "trackedPIDs ord s = filter (\<lambda>pid. pid > 0) (map pi_PID (map_values ord (sv_processes s)))"

definition detectAndCleanup :: "string list \<Rightarrow> proc_view \<Rightarrow> (int \<Rightarrow> orphan_answers) \<Rightarrow> Service \<Rightarrow> Service" where
  "detectAndCleanup ord pv an s = fold (\<lambda>pid s. snd (terminateOrphan (an pid) pid s))
     (filter (\<lambda>pid. pid \<notin> set (trackedPIDs ord s)) (findPatternProcesses pv)) s"

definition CleanupProcess :: "string \<Rightarrow> Service \<Rightarrow> Service" where
  "CleanupProcess pid s = s\<lparr>sv_processes := (sv_processes s)(pid := None)\<rparr>"

definition VerifyCleanup :: "string \<Rightarrow> Service \<Rightarrow> string option" where
  "VerifyCleanup pid s = (if sv_processes s pid \<noteq> None then Some (''process '' @ pid @ '' still in tracking'') else None)"

end
