(* ===== verification/Launcher_Work.thy ===== *)
theory Launcher_Work
  imports Launcher
begin

text \<open>
  How the launcher and the process managers work together.  An event changes the managers by
  at most one action of one of them, which makes the launcher a world of each isolation
  manager; what a termination request and a repeated launch come to follows from that.
\<close>

subsection \<open>The syncer and the managers\<close>

lemma service_updates [simp]:
  "sv_managers (os_do c s) = sv_managers s" "sv_managers (set_handle pid h s) = sv_managers s" "sv_managers (on_metrics f s) = sv_managers s"
  "sv_config (os_do c s) = sv_config s" "sv_config (set_handle pid h s) = sv_config s" "sv_config (on_metrics f s) = sv_config s"
  "sv_processes (os_do c s) = sv_processes s" "sv_processes (set_handle pid h s) = sv_processes s" "sv_processes (on_metrics f s) = sv_processes s"
  "sv_handles (os_do c s) = sv_handles s" "sv_handles (set_handle pid h s) = (sv_handles s)(pid \<mapsto> h)" "sv_handles (on_metrics f s) = sv_handles s"
  "sv_os (os_do c s) = sv_os s @ [c]" "sv_os (set_handle pid h s) = sv_os s" "sv_os (on_metrics f s) = sv_os s"
  "sv_panicked (os_do c s) = sv_panicked s" "sv_panicked (set_handle pid h s) = sv_panicked s" "sv_panicked (on_metrics f s) = sv_panicked s"
  by (simp_all add: os_do_def set_handle_def on_metrics_def)

definition with_managers :: "(IsolationLevel \<rightharpoonup> processConfig IsolationManager) \<Rightarrow> Service \<Rightarrow> Service" where
  "with_managers M s = s\<lparr>sv_managers := M\<rparr>"

lemma with_managers_simps [simp]:
  "sv_managers (with_managers M s) = M" "sv_handles (with_managers M s) = sv_handles s" "sv_config (with_managers M s) = sv_config s"
  "sv_processes (with_managers M s) = sv_processes s" "sv_os (with_managers M s) = sv_os s" "sv_panicked (with_managers M s) = sv_panicked s"
  "sv_registry (with_managers M s) = sv_registry s"
  "with_managers N (with_managers M s) = with_managers N s"
  "allocatePort (with_managers M s) = allocatePort s"
  "os_do c (with_managers M s) = with_managers M (os_do c s)" "set_handle pid h (with_managers M s) = with_managers M (set_handle pid h s)"
  "on_metrics f (with_managers M s) = with_managers M (on_metrics f s)" "checkHealth ok h (with_managers M s) = with_managers M (checkHealth ok h s)"
  by (simp_all add: with_managers_def os_do_def set_handle_def on_metrics_def checkHealth_def allocatePort_def)

lemma waitForHealthy_managers:
  "waitForHealthy polls h (with_managers M s) = map_prod (\<lambda>x. x) (with_managers M) (waitForHealthy polls h s)"
  by (induction polls h s rule: waitForHealthy.induct) simp_all

lemma launchProcess_managers:
  "launchProcess an pid c (with_managers M s) = map_prod (\<lambda>x. x) (with_managers M) (launchProcess an pid c s)"
  by (simp add: launchProcess_def Let_def split: sum.splits)

lemma start_process_managers:
  "start_process an pid c old (with_managers M s) = map_prod (\<lambda>x. x) (with_managers M) (start_process an pid c old s)"
proof -
  obtain r s1 where launch: "launchProcess an pid c s = (r, s1)" by fastforce
  show ?thesis
  proof (cases r)
    case Inl
    then show ?thesis by (cases old) (simp_all add: start_process_def launchProcess_managers launch)
  next
    case (Inr h)
    let ?new = "case old of None \<Rightarrow> h | Some g \<Rightarrow> h\<lparr>hd_RestartCount := hd_RestartCount g, hd_ErrorCount := hd_ErrorCount g,
      hd_LastError := hd_LastError g\<rparr>"
    obtain e s3 where wait: "waitForHealthy (an_polls an) ?new (set_handle pid ?new s1) = (e, s3)" by fastforce
    show ?thesis
    proof (cases e)
      case None
      then show ?thesis using wait unfolding start_process_def launchProcess_managers launch Inr Let_def
        by (cases "sv_processes s3 pid"; cases old) (simp_all add: waitForHealthy_managers, simp_all add: with_managers_def)
    next
      case Some
      then show ?thesis using wait unfolding start_process_def launchProcess_managers launch Inr Let_def
        by (simp add: waitForHealthy_managers)
    qed
  qed
qed

lemma SyncProcess_managers:
  "SyncProcess an c (with_managers M s) = map_prod (\<lambda>x. x) (with_managers M) (SyncProcess an c s)"
proof (cases c)
  case (Some ic)
  then show ?thesis
    by (cases "sv_handles s (ProcessID (lc_Key (ic_BackendConfig ic)) (cf_DefaultIsolation (sv_config s)))")
       (simp_all add: SyncProcess_def start_process_managers Let_def)
qed (simp add: SyncProcess_def)


lemma with_managers_self: "with_managers (sv_managers s) s = s"
  by (simp add: with_managers_def)

lemma SyncProcess_keeps_managers: "sv_managers (snd (SyncProcess an c s)) = sv_managers s"
  using SyncProcess_managers [of an c "sv_managers s" s] unfolding with_managers_self by (metis snd_map_prod with_managers_simps(1))

lemma SyncTerminating_keeps_managers: "sv_managers (snd (SyncTerminatingProcess an c s)) = sv_managers s"
  by (simp add: SyncTerminatingProcess_def Let_def split: option.splits)

lemma SyncTerminated_keeps_managers: "sv_managers (snd (SyncTerminatedProcess c s)) = sv_managers s"
  by (simp add: SyncTerminatedProcess_def split: option.splits)

text \<open>What an event does to the managers: one action of one of them, or nothing.\<close>

definition exec_acts :: "launcher_event \<Rightarrow> Service \<Rightarrow> IsolationLevel \<Rightarrow> processConfig ProcessConfig action list" where
  "exec_acts ev s level =
    (case ev of
       LAct l act \<Rightarrow> (case act of AReturn _ _ _ \<Rightarrow> [] | _ \<Rightarrow> if l = level then [act] else [])
     | LSync l w an \<Rightarrow>
         (case sv_managers s l of
            None \<Rightarrow> []
          | Some im \<Rightarrow>
              if l \<noteq> level \<or> length (pm_workers (im_pm im)) \<le> w then []
              else case wk_pc (pm_workers (im_pm im) ! w) of
                     WSyncing a u t \<Rightarrow> (case fst (SyncProcess an (pu_Config u) s) of SyncPanic \<Rightarrow> []
                       | SyncDone terminal err \<Rightarrow> [AReturn w terminal (map_option SyncerError err)])
                   | WTerminating a u g t \<Rightarrow> [AReturn w False (map_option SyncerError (fst (SyncTerminatingProcess an (pu_Config u) s)))]
                   | WTerminated a u t \<Rightarrow> [AReturn w False (map_option SyncerError (fst (SyncTerminatedProcess (pu_Config u) s)))]
                   | _ \<Rightarrow> []))"

lemma im_run_Nil [simp]: "im_run env [] im = im"
  by (simp add: im_run_def)

lemma map_im_run_Nil [simp]: "map_option (im_run env []) x = x"
  by (cases x) simp_all

lemma act_on_managers: "sv_managers (act_on env l act s) level = map_option (im_run env (if l = level then [act] else [])) (sv_managers s level)"
  by (auto simp: act_on_def split: option.splits)

lemma exec_managers: "sv_managers (launcher_exec env ev s) level = map_option (im_run env (exec_acts ev s level)) (sv_managers s level)"
proof (cases ev)
  case (LAct l act)
  then show ?thesis by (cases act) (auto simp: exec_acts_def act_on_managers)
next
  case (LSync l w an)
  show ?thesis
  proof (cases "sv_managers s l")
    case None
    then show ?thesis using LSync by (auto simp: exec_acts_def)
  next
    case (Some im)
    show ?thesis
    proof (cases "wk_pc (pm_workers (im_pm im) ! w)")
      case (WSyncing a u t)
      obtain r s' where r: "SyncProcess an (pu_Config u) s = (r, s')" by fastforce
      then have "sv_managers s' = sv_managers s" using SyncProcess_keeps_managers by (metis snd_conv)
      then show ?thesis using LSync Some WSyncing r by (cases r) (auto simp: exec_acts_def act_on_managers)
    next
      case (WTerminating a u g t)
      then show ?thesis using LSync Some
        by (auto simp: exec_acts_def act_on_managers sync_return_def SyncTerminating_keeps_managers)
    next
      case (WTerminated a u t)
      then show ?thesis using LSync Some
        by (auto simp: exec_acts_def act_on_managers sync_return_def SyncTerminated_keeps_managers)
    qed (use LSync Some in \<open>auto simp: exec_acts_def\<close>)
  qed
qed

definition calm :: "launcher_event \<Rightarrow> bool" where
  "calm ev \<longleftrightarrow> (\<forall>l act. ev = LAct l act \<longrightarrow> \<not> forgets act)"

lemma exec_acts_cases [case_names Idle Act Return]:
  obtains (Idle) "exec_acts ev s level = []"
  | (Act) act where "exec_acts ev s level = [act]" "ev = LAct level act" "\<forall>w t e. act \<noteq> AReturn w t e"
  | (Return) w an im t e where "exec_acts ev s level = [AReturn w t e]" "ev = LSync level w an" "sv_managers s level = Some im"
      "w < length (pm_workers (im_pm im))"
      "\<forall>a u g t'. wk_pc (pm_workers (im_pm im) ! w) = WTerminating a u g t' \<longrightarrow> e = map_option SyncerError (fst (SyncTerminatingProcess an (pu_Config u) s))"
proof (cases ev)
  case (LAct l act)
  then show ?thesis using Idle Act by (cases "l = level"; cases act) (simp_all add: exec_acts_def)
next
  case (LSync l w an)
  show ?thesis
  proof (cases "sv_managers s l")
    case None
    then show ?thesis using Idle LSync by (simp add: exec_acts_def)
  next
    case im: (Some im)
    show ?thesis
    proof (cases "l = level \<and> w < length (pm_workers (im_pm im))")
      case False
      then show ?thesis using Idle LSync im by (auto simp: exec_acts_def)
    next
      case True
      then have mgr: "sv_managers s level = Some im" "ev = LSync level w an" "w < length (pm_workers (im_pm im))" using im LSync by auto
      show ?thesis
      proof (cases "wk_pc (pm_workers (im_pm im) ! w)")
        case (WSyncing a u t)
        show ?thesis
        proof (cases "fst (SyncProcess an (pu_Config u) s)")
          case SyncPanic
          then show ?thesis using Idle mgr WSyncing by (simp add: exec_acts_def)
        next
          case (SyncDone t' e)
          have "exec_acts ev s level = [AReturn w t' (map_option SyncerError e)]" using mgr by (simp add: exec_acts_def WSyncing SyncDone)
          then show ?thesis by (rule Return [OF _ mgr(2,1,3)]) (simp add: WSyncing SyncDone)
        qed
      next
        case (WTerminating a u g t)
        have "exec_acts ev s level = [AReturn w False (map_option SyncerError (fst (SyncTerminatingProcess an (pu_Config u) s)))]" using mgr by (simp add: exec_acts_def WTerminating)
        then show ?thesis by (rule Return [OF _ mgr(2,1,3)]) (simp add: WTerminating)
      next
        case (WTerminated a u t)
        have "exec_acts ev s level = [AReturn w False (map_option SyncerError (fst (SyncTerminatedProcess (pu_Config u) s)))]" using mgr by (simp add: exec_acts_def WTerminated)
        then show ?thesis by (rule Return [OF _ mgr(2,1,3)]) (simp add: WTerminated)
      qed (use Idle mgr in \<open>simp_all add: exec_acts_def\<close>)
    qed
  qed
qed

lemma exec_acts_calm:
  assumes "calm ev" "act \<in> set (exec_acts ev s level)"
  shows "\<not> forgets act"
  by (cases ev s level rule: exec_acts_cases) (use assms in \<open>auto simp: calm_def forgets_def\<close>)

lemma manager_of_exec: "manager_of level (launcher_exec env ev s) = (if sv_managers s level = None then manager_of level s else im_run env (exec_acts ev s level) (manager_of level s))"
  by (auto simp: manager_of_def exec_managers split: option.splits)

lemma pm_later_trans: "pm_later pm1 pm2 \<Longrightarrow> pm_later pm pm1 \<Longrightarrow> pm_later pm pm2"
  by (induction rule: pm_later.induct) (auto intro: pm_later.step)

lemma launcher_run_later:
  "\<forall>ev \<in> set evs. calm ev \<Longrightarrow> pm_later (im_pm (manager_of level s)) (im_pm (manager_of level (launcher_run env evs s)))"
proof (induction evs arbitrary: s)
  case (Cons ev evs)
  have "pm_later (im_pm (manager_of level s)) (im_pm (manager_of level (launcher_exec env ev s)))"
    using Cons.prems exec_acts_calm [of ev] by (auto simp: manager_of_exec im_run_def intro: pm_later.here pm_later_fold)
  then show ?case using Cons by (auto simp: launcher_run_def intro: pm_later_trans)
qed (simp add: launcher_run_def pm_later.here)

interpretation lw: isolation_world "manager_of level" "set_manager level" "launcher_run env" calm
proof unfold_locales
  show "manager_of level (set_manager level im w) = im" for im w by (simp add: manager_of_def set_manager_def)
qed (rule launcher_run_later)

subsection \<open>Termination requests\<close>

definition names_chan :: "nat \<Rightarrow> 'c ProcessUpdate \<Rightarrow> bool" where
  "names_chan ch u \<longleftrightarrow> (\<exists>opts. pu_TerminateOptions u = Some opts \<and> to_CompletedCh opts = Some ch)"

definition bare :: "nat \<Rightarrow> 'c ProcessUpdate \<Rightarrow> bool" where
  "bare ch u \<longleftrightarrow> (names_chan ch u \<longrightarrow> pu_Config u = None)"

fun pc_updates :: "'c worker_pc \<Rightarrow> 'c ProcessUpdate list" where
  "pc_updates (WExecute a u st) = [u]"
| "pc_updates (WSyncing a u t) = [u]"
| "pc_updates (WTerminating a u g t) = [u]"
| "pc_updates (WTerminated a u t) = [u]"
| "pc_updates _ = []"

definition chan_open :: "nat \<Rightarrow> 'c ProcessManager \<Rightarrow> bool" where
  "chan_open ch pm \<longleftrightarrow> ch \<notin> set (pm_closed pm)
     \<and> (\<forall>a u. ps_pending (pm_mem pm a) = Some u \<or> ps_active (pm_mem pm a) = Some u \<longrightarrow> bare ch u)
     \<and> (\<forall>wk \<in> set (pm_workers pm). \<forall>u \<in> set (pc_updates (wk_pc wk)). bare ch u)"

lemma bare_None [simp]: "pu_Config u = None \<Longrightarrow> bare ch u" "pu_TerminateOptions u = None \<Longrightarrow> bare ch u"
  by (simp_all add: bare_def names_chan_def)

lemma bare_start [simp]: "bare ch (u\<lparr>pu_StartTime := t\<rparr>) = bare ch u"
  by (simp add: bare_def names_chan_def)

lemma handleTermination_updates [simp]:
  "ps_pending (handleTerminationRequest now opts s) = ps_pending s" "ps_active (handleTerminationRequest now opts s) = ps_active s"
  by (auto simp: handleTerminationRequest_def cancel_ctx_def Let_def split: option.splits)

lemma UpdateProcess_effect:
  "\<exists>a st. (\<forall>b. pm_mem (UpdateProcess u pm) b = (if b = a then st else pm_mem pm b))
    \<and> ps_pending st \<in> {ps_pending (pm_mem pm a), None, Some u, Some (u\<lparr>pu_StartTime := pm_clock pm\<rparr>)}
    \<and> ps_active st \<in> {ps_active (pm_mem pm a), None} \<and> pm_closed (UpdateProcess u pm) = pm_closed pm
    \<and> (pm_workers (UpdateProcess u pm) = pm_workers pm \<or> (\<exists>pid ch. pm_workers (UpdateProcess u pm) = pm_workers pm @ [\<lparr>wk_id = pid, wk_chan = ch, wk_pc = WWait\<rparr>]))"
proof (cases "pm_processStatuses pm (pu_ID u)")
  case None
  show ?thesis
    by (rule exI [of _ "pm_next pm"], rule exI [of _ "pm_mem (UpdateProcess u pm) (pm_next pm)"])
       (simp add: UpdateProcess_def get_or_create_status_def get_or_create_worker_def Let_def None new_processStatus_def IsFinished_def split: option.split)
next
  case (Some a)
  show ?thesis
    by (rule exI [of _ a], rule exI [of _ "pm_mem (UpdateProcess u pm) a"])
       (simp add: UpdateProcess_def get_or_create_status_def get_or_create_worker_def Let_def Some split: option.split)
qed

lemma chan_open_update:
  assumes "chan_open ch pm" "bare ch u"
  shows "chan_open ch (UpdateProcess u pm)"
proof -
  from UpdateProcess_effect [of u pm] obtain a st where a: "\<forall>b. pm_mem (UpdateProcess u pm) b = (if b = a then st else pm_mem pm b)"
    "ps_pending st \<in> {ps_pending (pm_mem pm a), None, Some u, Some (u\<lparr>pu_StartTime := pm_clock pm\<rparr>)}"
    "ps_active st \<in> {ps_active (pm_mem pm a), None}" "pm_closed (UpdateProcess u pm) = pm_closed pm"
    "pm_workers (UpdateProcess u pm) = pm_workers pm \<or> (\<exists>pid ch. pm_workers (UpdateProcess u pm) = pm_workers pm @ [\<lparr>wk_id = pid, wk_chan = ch, wk_pc = WWait\<rparr>])"
    by blast
  have "bare ch x" if "ps_pending st = Some x \<or> ps_active st = Some x" for x using that a(2,3) assms by (auto simp: chan_open_def)
  then show ?thesis using assms(1) a(1,4,5) by (auto simp: chan_open_def)
qed

lemma chan_open_worker:
  assumes "chan_open ch pm" "set (pm_closed pm') \<subseteq> insert c (set (pm_closed pm))" "c = ch \<longrightarrow> ch \<in> set (pm_closed pm)"
    and "\<And>b. ps_pending (pm_mem pm' b) \<in> {ps_pending (pm_mem pm b), None} \<or> (\<exists>u. ps_pending (pm_mem pm' b) = Some u \<and> bare ch u)"
    and "\<And>b. ps_active (pm_mem pm' b) \<in> {ps_active (pm_mem pm b), ps_pending (pm_mem pm b)}"
    and "pm_workers pm' = (pm_workers pm)[w := pm_workers pm' ! w]" "\<forall>u \<in> set (pc_updates (wk_pc (pm_workers pm' ! w))). bare ch u"
  shows "chan_open ch pm'"
  unfolding chan_open_def
proof (intro conjI allI impI ballI)
  show "ch \<notin> set (pm_closed pm')" using assms(1-3) by (auto simp: chan_open_def)
  show "bare ch u" if "ps_pending (pm_mem pm' a) = Some u \<or> ps_active (pm_mem pm' a) = Some u" for a u
    using that assms(1) assms(4,5) [of a] by (auto simp: chan_open_def)
  show "bare ch u" if "x \<in> set (pm_workers pm')" "u \<in> set (pc_updates (wk_pc x))" for x u
    using that assms(1,7) set_update_subset_insert [of "pm_workers pm" w "pm_workers pm' ! w"] unfolding assms(6) [symmetric]
    by (auto simp: chan_open_def)
qed

lemma chan_open_quiet: "chan_open ch pm \<Longrightarrow> pm_mem pm' = pm_mem pm \<Longrightarrow> pm_closed pm' = pm_closed pm \<Longrightarrow> pm_workers pm' = pm_workers pm \<Longrightarrow> chan_open ch pm'"
  by (simp add: chan_open_def)

lemma chan_open_pc:
  assumes "chan_open ch pm" "pm_mem pm' = pm_mem pm" "pm_closed pm' = pm_closed pm" "pm_workers pm' = (pm_workers pm)[w := pm_workers pm' ! w]"
    and "\<forall>u \<in> set (pc_updates (wk_pc (pm_workers pm' ! w))). bare ch u"
  shows "chan_open ch pm'"
  by (rule chan_open_worker [OF assms(1), where c = "Suc ch"]) (use assms in auto)

lemma chan_open_processUpdate:
  assumes "chan_open ch pm" "w < length (pm_workers pm)"
  shows "chan_open ch (processUpdate w pm)"
proof -
  let ?pid = "wk_id (pm_workers pm ! w)"
  show ?thesis
  proof (cases "\<exists>a u. pm_processStatuses pm ?pid = Some a \<and> \<not> IsFinished (pm_mem pm a) \<and> \<not> ps_working (pm_mem pm a) \<and> ps_pending (pm_mem pm a) = Some u")
    case True
    then obtain a u where a: "pm_processStatuses pm ?pid = Some a" "\<not> IsFinished (pm_mem pm a)" "\<not> ps_working (pm_mem pm a)" "ps_pending (pm_mem pm a) = Some u"
      by blast
    then have "bare ch u" using assms(1) by (auto simp: chan_open_def)
    then show ?thesis using a assms(2)
      by (intro chan_open_worker [OF assms(1), where c = "Suc ch" and w = w]) (auto simp: processUpdate_def Let_def)
  next
    case False
    then show ?thesis using assms(2)
      by (intro chan_open_pc [OF assms(1), where w = w]) (auto simp: processUpdate_def Let_def split: option.splits)
  qed
qed

lemma pc_bare: "chan_open ch pm \<Longrightarrow> w < length (pm_workers pm) \<Longrightarrow> u \<in> set (pc_updates (wk_pc (pm_workers pm ! w))) \<Longrightarrow> bare ch u"
  by (auto simp: chan_open_def)

lemma chan_open_step:
  assumes inv: "chan_open ch pm" and step: "pm_step env act pm = Some pm'" and "\<not> forgets act"
    and "\<And>u. act = AUpdate u \<Longrightarrow> bare ch u"
    and "\<And>w t a u g t'. act = AReturn w t None \<Longrightarrow> wk_pc (pm_workers pm ! w) = WTerminating a u g t' \<Longrightarrow> \<not> names_chan ch u"
  shows "chan_open ch pm'"
  using step
proof (cases rule: pm_step_cases)
  case (Update u)
  then show ?thesis using chan_open_update [OF inv] assms(4) by simp
next
  case (SyncKnown ord desired)
  then show ?thesis using assms(3) by (simp add: forgets_def)
next
  case (Process w)
  then show ?thesis using chan_open_processUpdate [OF inv] by simp
next
  case (Receive w)
  then show ?thesis by (intro chan_open_pc [OF inv, where w = w]) auto
next
  case (WorkerExit w)
  then show ?thesis by (intro chan_open_pc [OF inv, where w = w]) auto
next
  case (Execute w a u st)
  then have "bare ch u" using pc_bare [OF inv] by simp
  then show ?thesis using Execute
    by (intro chan_open_pc [OF inv, where w = w]) (auto simp: executeSync_def Let_def split: ProcessState.splits)
next
  case (Sync w a u t terminal err)
  then show ?thesis
    by (intro chan_open_worker [OF inv, where c = "Suc ch" and w = w]) (auto simp: syncProcess_def fail_status_def Let_def split: option.splits)
next
  case (Terminating w a u g t terminal err)
  define c where "c = (case pu_TerminateOptions u of Some opts \<Rightarrow> (case to_CompletedCh opts of Some c \<Rightarrow> c | None \<Rightarrow> Suc ch) | None \<Rightarrow> Suc ch)"
  have "err = None \<Longrightarrow> c \<noteq> ch" using assms(5) [of w terminal a u g t] Terminating by (auto simp: names_chan_def c_def split: option.splits)
  then show ?thesis using Terminating
    by (intro chan_open_worker [OF inv, where c = "if err = None then c else Suc ch" and w = w])
       (auto simp: syncTerminating_def fail_status_def close_chan_def c_def Let_def split: option.splits if_splits)
next
  case (Terminated w a u t terminal err)
  then show ?thesis
    by (intro chan_open_worker [OF inv, where c = "Suc ch" and w = w]) (auto simp: syncTerminated_def fail_status_def Let_def split: option.splits)
next
  case (Complete w err)
  then show ?thesis
    by (intro chan_open_worker [OF inv, where c = "Suc ch" and w = w]) (auto simp: completeWork_def Let_def split: option.splits)
next
  case (Signal w c)
  then show ?thesis by (intro chan_open_pc [OF inv, where w = w]) (auto split: option.splits)
next
  case (Item pid)
  then show ?thesis using inv by (auto simp: consumer_item_def chan_open_def Let_def split: option.splits)
qed (use inv in \<open>auto simp: consumer_dequeue_def chan_open_def split: prod.splits option.splits\<close>)

definition apart :: "nat \<Rightarrow> launcher_event \<Rightarrow> bool" where
  "apart ch ev \<longleftrightarrow> calm ev \<and> (\<forall>l u. ev = LAct l (AUpdate u) \<longrightarrow> \<not> names_chan ch u)"

lemma chan_open_try:
  assumes "chan_open ch pm" "\<not> forgets act" "\<And>u. act = AUpdate u \<Longrightarrow> bare ch u"
    and "\<And>w t a u g t'. act = AReturn w t None \<Longrightarrow> wk_pc (pm_workers pm ! w) = WTerminating a u g t' \<Longrightarrow> \<not> names_chan ch u"
  shows "chan_open ch (pm_try env act pm)"
  using chan_open_step [OF assms(1) _ assms(2-4)] assms(1) by (cases "pm_step env act pm") (simp_all add: pm_try_def)

lemma exec_chan_open:
  assumes inv: "chan_open ch (im_pm (manager_of level s))" and ev: "apart ch ev"
  shows "chan_open ch (im_pm (manager_of level (launcher_exec env ev s)))"
proof (cases ev s level rule: exec_acts_cases)
  case Idle
  then show ?thesis unfolding manager_of_exec using inv by simp
next
  case (Act act)
  then have "\<not> forgets act" "\<And>u. act = AUpdate u \<Longrightarrow> bare ch u" using ev by (auto simp: apart_def calm_def bare_def)
  then have "chan_open ch (pm_try env act (im_pm (manager_of level s)))" using inv Act(3) by (intro chan_open_try) auto
  then show ?thesis unfolding manager_of_exec Act(1) using inv by (simp add: im_run_def)
next
  case (Return w an im t e)
  then have im: "manager_of level s = im" by (simp add: manager_of_def)
  have "\<not> names_chan ch u" if "e = None" "wk_pc (pm_workers (im_pm im) ! w) = WTerminating a u g t'" for a u g t'
  proof
    assume "names_chan ch u"
    then have "pu_Config u = None" using pc_bare [of ch "im_pm im" w u] that inv im Return(4) by (simp add: bare_def)
    then show False using that Return(5) by (simp add: SyncTerminatingProcess_def)
  qed
  then have "chan_open ch (pm_try env (AReturn w t e) (im_pm im))"
    using inv im by (intro chan_open_try) (auto simp: forgets_def)
  then show ?thesis unfolding manager_of_exec Return(1) using Return(3) im by (simp add: im_run_def)
qed

lemma run_chan_open:
  "chan_open ch (im_pm (manager_of level s)) \<Longrightarrow> \<forall>ev \<in> set evs. apart ch ev \<Longrightarrow> chan_open ch (im_pm (manager_of level (launcher_run env evs s)))"
proof (induction evs arbitrary: s)
  case (Cons ev evs)
  then show ?case using exec_chan_open [of ch level s ev env] by (simp add: launcher_run_def)
qed (simp add: launcher_run_def)


definition unnamed :: "nat \<Rightarrow> 'c ProcessManager \<Rightarrow> bool" where
  "unnamed ch pm \<longleftrightarrow> ch \<notin> set (pm_closed pm)
     \<and> (\<forall>a u. ps_pending (pm_mem pm a) = Some u \<or> ps_active (pm_mem pm a) = Some u \<longrightarrow> \<not> names_chan ch u)
     \<and> (\<forall>wk \<in> set (pm_workers pm). \<forall>u \<in> set (pc_updates (wk_pc wk)). \<not> names_chan ch u)"

end
