(* ===== verification/Launcher_Properties.thy ===== *)
theory Launcher_Properties
  imports Launcher_Work
begin

text \<open>
  What a launch request comes to: the events of a worker that starts a process, the effect of
  the syncer on handles, tracked entries and operating-system processes, and the properties of
  the launcher with their examples.
\<close>

subsection \<open>Starting a process\<close>

lemma im_run_Cons: "im_run env (act # acts) im = im_run env acts (im_run env [act] im)"
  by (simp add: im_run_def)

lemma act_on_with_managers:
  "M level = Some im \<Longrightarrow> act_on env level act (with_managers M s) = with_managers (M(level \<mapsto> im_run env [act] im)) s"
  by (simp add: act_on_def with_managers_def)

lemma launcher_run_acts:
  assumes "\<not> sv_panicked s" "sv_managers s level = Some im" "\<forall>act \<in> set acts. act_worker act \<noteq> None \<and> (\<forall>w t e. act \<noteq> AReturn w t e)"
  shows "launcher_run env (map (LAct level) acts) s = with_managers ((sv_managers s)(level \<mapsto> im_run env acts im)) s"
  using assms
proof (induction acts arbitrary: s im)
  case Nil
  then show ?case using with_managers_self [of s] by (simp add: launcher_run_def fun_upd_idem)
next
  case (Cons act acts)
  let ?s = "with_managers ((sv_managers s)(level \<mapsto> im_run env [act] im)) s"
  have "launcher_exec env (LAct level act) s = ?s"
    using Cons.prems by (cases act) (auto simp: act_on_def with_managers_def)
  then have "launcher_run env (map (LAct level) (act # acts)) s = launcher_run env (map (LAct level) acts) ?s"
    using Cons.prems(1) by (simp add: launcher_run_def)
  also have "\<dots> = with_managers ((sv_managers ?s)(level \<mapsto> im_run env acts (im_run env [act] im))) ?s"
    using Cons.prems by (intro Cons.IH) auto
  also have "\<dots> = with_managers ((sv_managers s)(level \<mapsto> im_run env (act # acts) im)) s"
    by (simp only: im_run_Cons [of env act acts] with_managers_simps fun_upd_upd)
  finally show ?case .
qed

definition fresh_pid :: "string \<Rightarrow> 'b IsolationManager \<Rightarrow> bool" where
  "fresh_pid pid im \<longleftrightarrow> im_processes im pid = None \<and> pm_processStatuses (im_pm im) pid = None \<and> pm_processUpdates (im_pm im) pid = None
     \<and> pm_hasSyncer (im_pm im) \<and> \<not> pm_panicked (im_pm im) \<and> 0 < pm_clock (im_pm im)"

definition start_events :: "IsolationLevel \<Rightarrow> nat \<Rightarrow> syncer_answers \<Rightarrow> launcher_event list" where
  "start_events level w an = map (LAct level) [AReceive w, AProcess w, AExecute w] @ [LSync level w an]"

lemma start_events_run:
  assumes im: "sv_managers s level = Some im" "fresh_pid pid im" "\<not> sv_panicked s" and w: "w = length (pm_workers (im_pm im))"
    and sub: "im2 = submit (create_request pid config (pm_clock (im_pm im))) (im\<lparr>im_processes := procs\<rparr>)"
    and sync: "SyncProcess an (Some config) s = (SyncDone False None, s')"
  shows "\<exists>im4. launcher_run env (start_events level w an) (with_managers ((sv_managers s)(level \<mapsto> im2)) s)
      = with_managers ((sv_managers s)(level \<mapsto> im4)) s'
    \<and> (\<exists>st. running_status pid im4 = Some st \<and> pst_Healthy st) \<and> running_status pid im2 = None"
proof -
  let ?u = "create_request pid config (pm_clock (im_pm im))" and ?a = "pm_next (im_pm im)"
  let ?M = "\<lambda>im. (sv_managers s)(level \<mapsto> im)"
  have pm2: "im_pm im2 = UpdateProcess ?u (im_pm im)" by (simp add: sub submit_def)
  have up: "ready (im_pm im2) w pid ?a WWait \<and> pm_chans (im_pm im2) (wk_chan (pm_workers (im_pm im2) ! w))
      \<and> pm_mem (im_pm im2) ?a = new_processStatus\<lparr>ps_pending := Some ?u\<rparr>"
    unfolding pm2 by (rule UpdateProcess_starts) (use im(2) w in \<open>simp_all add: fresh_pid_def\<close>)
  obtain pm3 where three: "pm_run env [AReceive w, AProcess w, AExecute w] (im_pm im2) = Some pm3"
      "ready pm3 w pid ?a (WSyncing ?a ?u (pm_clock (im_pm im2)))"
      "pm_mem pm3 ?a = new_processStatus\<lparr>ps_active := Some ?u, ps_working := True, ps_ctx := Some False\<rparr>"
    using worker_begins_sync up by blast
  let ?im3 = "im2\<lparr>im_pm := pm3\<rparr>" and ?pm4 = "syncProcess w ?a ?u (pm_clock (im_pm im2)) False None pm3"
  note fin = sync_succeeds [OF three(2,3), of env]
  have im3: "im_run env [AReceive w, AProcess w, AExecute w] im2 = ?im3" unfolding im_run_def pm_run_try [OF three(1)] ..
  have im4: "im_run env [AReturn w False None] ?im3 = ?im3\<lparr>im_pm := ?pm4\<rparr>" using fin by (simp add: im_run_def pm_try_def)
  have "launcher_run env (map (LAct level) [AReceive w, AProcess w, AExecute w]) (with_managers (?M im2) s) = with_managers (?M ?im3) s"
    using launcher_run_acts [of "with_managers (?M im2) s" level im2 "[AReceive w, AProcess w, AExecute w]" env] im(3) im3 by simp
  moreover have "launcher_exec env (LSync level w an) (with_managers (?M ?im3) s) = with_managers (?M (?im3\<lparr>im_pm := ?pm4\<rparr>)) s'"
    using three(2) sync im4 by (simp add: ready_def SyncProcess_managers act_on_with_managers create_request_def)
  ultimately have "launcher_run env (start_events level w an) (with_managers (?M im2) s) = with_managers (?M (?im3\<lparr>im_pm := ?pm4\<rparr>)) s'"
    using im(3) by (simp add: launcher_run_def start_events_def del: list.map)
  moreover have "running_status pid im2 = None" using up by (intro not_started_yet) auto
  moreover have "\<exists>st. running_status pid (?im3\<lparr>im_pm := ?pm4\<rparr>) = Some st \<and> pst_Healthy st" using fin by (simp add: running_status_def)
  ultimately show ?thesis by blast
qed

definition launch_info :: "go_time \<Rightarrow> LaunchRequest \<Rightarrow> IsolationLevel \<Rightarrow> string \<Rightarrow> ProcessInfo" where
  "launch_info now req level pid = \<lparr>pi_ProcessID = pid, pi_PatternName = lr_PatternName req, pi_Namespace = lr_Namespace req,
     pi_SessionID = lr_SessionId req, pi_Isolation = level, pi_Address = [], pi_PID = 0, pi_StartTime = now, pi_Config = lr_Config req,
     pi_RestartCount = 0, pi_ErrorCount = 0, pi_LastError = []\<rparr>"

definition acceptable :: "LaunchRequest \<Rightarrow> Manifest \<Rightarrow> Service \<Rightarrow> bool" where
  "acceptable req m s \<longleftrightarrow> lr_PatternName req \<noteq> [] \<and> GetPattern (lr_PatternName req) (sv_registry s) = Some m
     \<and> (protoToIsolationLevel (sv_config s) (lr_Isolation req) = IsolationNamespace \<longrightarrow> lr_Namespace req \<noteq> [])
     \<and> (protoToIsolationLevel (sv_config s) (lr_Isolation req) = IsolationSession \<longrightarrow> lr_SessionId req \<noteq> [])"

definition launchable :: "LaunchRequest \<Rightarrow> Manifest \<Rightarrow> IsolationLevel \<Rightarrow> processConfig IsolationManager \<Rightarrow> Service \<Rightarrow> bool" where
  "launchable req m level im s \<longleftrightarrow> level = protoToIsolationLevel (sv_config s) (lr_Isolation req) \<and> acceptable req m s
     \<and> sv_managers s level = Some im \<and> im_level im = level \<and> fresh_pid (ProcessID (request_key req) level) im \<and> \<not> sv_panicked s"

definition start_schedule :: "IsolationLevel \<Rightarrow> processConfig IsolationManager \<Rightarrow> nat \<Rightarrow> syncer_answers \<Rightarrow> launcher_event wait_schedule" where
  "start_schedule level im n an = \<lparr>ws_checked = [], ws_submitted = [],
     ws_ticks = replicate n [] @ [start_events level (length (pm_workers (im_pm im))) an]\<rparr>"

lemma launch_fresh:
  assumes launchable: "launchable req m level im s" and pid: "pid = ProcessID (request_key req) level" and "sch = start_schedule level im n an"
    and sync: "SyncProcess an (Some (launch_config req m)) s = (SyncDone False None, s')"
  shows "\<exists>t. LaunchPattern env sch [] took now req s = (RpcOk \<lparr>rs_ProcessId = pid, rs_State = STATE_RUNNING, rs_Address = [], rs_Healthy = True\<rparr>, t)
    \<and> sv_os t = sv_os s' \<and> sv_handles t = sv_handles s' \<and> sv_processes t = (sv_processes s')(pid \<mapsto> launch_info now req level pid)"
proof -
  have req: "level = protoToIsolationLevel (sv_config s) (lr_Isolation req)" "acceptable req m s"
    and im: "sv_managers s level = Some im" "im_level im = level" "pid = ProcessID (request_key req) level" "fresh_pid pid im" "\<not> sv_panicked s"
    using launchable pid by (auto simp: launchable_def)
  note sch = assms(3) [unfolded start_schedule_def]
  let ?c = "launch_config req m" and ?w = "length (pm_workers (im_pm im))"
  let ?im1 = "im\<lparr>im_processes := (im_processes im)(pid \<mapsto> ?c)\<rparr>"
  let ?im2 = "submit (create_request pid ?c (pm_clock (im_pm im))) ?im1"
  obtain im4 st where run: "launcher_run env (start_events level ?w an) (with_managers ((sv_managers s)(level \<mapsto> ?im2)) s)
      = with_managers ((sv_managers s)(level \<mapsto> im4)) s'" (is "_ = ?s4")
    and st: "running_status pid im4 = Some st" "pst_Healthy st" and none: "running_status pid ?im2 = None"
    using start_events_run [OF im(1,4,5) refl refl sync] by blast
  have mgr: "manager_of level s = im" "set_manager level j s = with_managers ((sv_managers s)(level \<mapsto> j)) s" for j
    using im(1) by (simp_all add: manager_of_def set_manager_def with_managers_def)
  have "GetOrCreateProcess (manager_of level) (set_manager level) (launcher_run env) sch (request_key req) ?c s
      = (Inr \<lparr>ih_ID = pid, ih_Key = request_key req, ih_Config = ?c, ih_Health = pst_Healthy st\<rparr>,
         launcher_run env (start_events level ?w an) (with_managers ((sv_managers s)(level \<mapsto> ?im2)) s))"
  proof (rule GetOrCreate_fresh [OF _ _ sch])
    show "set_manager level ((manager_of level s)\<lparr>im_processes := (im_processes (manager_of level s))(pid \<mapsto> ?c)\<rparr>) s
        = set_manager level ((manager_of level s)\<lparr>im_processes := (im_processes (manager_of level s))(pid \<mapsto> ?c)\<rparr>) s" ..
    show "launcher_run env [] v = v" for v by (simp add: launcher_run_def)
    show "with_managers ((sv_managers s)(level \<mapsto> ?im2)) s
        = set_manager level (submit (create_request pid ?c (pm_clock (im_pm (manager_of level (set_manager level ((manager_of level s)\<lparr>im_processes := (im_processes (manager_of level s))(pid \<mapsto> ?c)\<rparr>) s)))))
            (manager_of level (set_manager level ((manager_of level s)\<lparr>im_processes := (im_processes (manager_of level s))(pid \<mapsto> ?c)\<rparr>) s)))
            (set_manager level ((manager_of level s)\<lparr>im_processes := (im_processes (manager_of level s))(pid \<mapsto> ?c)\<rparr>) s)"
      by (simp add: lw.get_put mgr(1)) (simp add: set_manager_def with_managers_def)
  qed (use im run st none in \<open>simp_all add: mgr(1) fresh_pid_def, simp_all add: manager_of_def\<close>)
  then show ?thesis using req im(1) st(2) unfolding run
    by (simp add: LaunchPattern_def acceptable_def Let_def launcher_run_def launch_info_def)
qed

definition becomes_healthy :: "syncer_answers \<Rightarrow> bool" where
  "becomes_healthy an \<longleftrightarrow> (\<exists>k. an_polls an = replicate k (Some False) @ [Some True])"

lemma checkHealth_fields [simp]:
  "sv_os (checkHealth ok h s) = sv_os s" "sv_handles (checkHealth ok h s) = sv_handles s" "sv_processes (checkHealth ok h s) = sv_processes s"
  "sv_config (checkHealth ok h s) = sv_config s" "sv_panicked (checkHealth ok h s) = sv_panicked s"
  by (simp_all add: checkHealth_def)

lemma waitForHealthy_ok:
  assumes "becomes_healthy an"
  shows "\<exists>s'. waitForHealthy (an_polls an) h s = (None, s') \<and> sv_os s' = sv_os s \<and> sv_handles s' = sv_handles s
    \<and> sv_processes s' = sv_processes s \<and> sv_config s' = sv_config s \<and> sv_panicked s' = sv_panicked s"
proof -
  have "\<exists>s'. waitForHealthy (replicate k (Some False) @ [Some True]) h s = (None, s') \<and> sv_os s' = sv_os s \<and> sv_handles s' = sv_handles s
    \<and> sv_processes s' = sv_processes s \<and> sv_config s' = sv_config s \<and> sv_panicked s' = sv_panicked s" for k
  proof (induction k arbitrary: s)
    case (Suc k)
    show ?case using Suc [of "checkHealth False h s"] by simp
  qed simp
  then show ?thesis using assms by (auto simp: becomes_healthy_def)
qed

text \<open>A successful start, with and without a handle of an earlier process.\<close>

lemma start_process_ok:
  assumes "an_start an = Inr ospid" "becomes_healthy an" "old = None \<longrightarrow> sv_processes s pid = None"
  shows "\<exists>s' h. start_process an pid config old s = (SyncDone False None, s')
    \<and> sv_os s' = sv_os s @ [OsStart (ExecutablePath (lc_Manifest config)) (launch_env an pid (allocatePort s) config) ospid]
    \<and> sv_handles s' = (sv_handles s)(pid \<mapsto> h) \<and> hd_Pid h = ospid \<and> hd_GRPCAddress h = ''localhost:'' @ itoa (allocatePort s)
    \<and> sv_processes s' = (sv_processes s)(pid := (case (old, sv_processes s pid) of
         (Some g, Some info) \<Rightarrow> Some (info\<lparr>pi_PID := hd_Pid g, pi_Address := hd_GRPCAddress g\<rparr>) | _ \<Rightarrow> sv_processes s pid))
    \<and> sv_config s' = sv_config s"
proof -
  obtain h s1 where launch: "launchProcess an pid config s = (Inr h, s1)" and h: "hd_Pid h = ospid" "hd_GRPCAddress h = ''localhost:'' @ itoa (allocatePort s)"
    and s1: "s1 = os_do (OsStart (ExecutablePath (lc_Manifest config)) (launch_env an pid (allocatePort s) config) ospid) s"
    using assms(1) by (simp add: launchProcess_def Let_def)
  let ?new = "case old of None \<Rightarrow> h | Some g \<Rightarrow> h\<lparr>hd_RestartCount := hd_RestartCount g, hd_ErrorCount := hd_ErrorCount g, hd_LastError := hd_LastError g\<rparr>"
  obtain s3 where wait: "waitForHealthy (an_polls an) ?new (set_handle pid ?new s1) = (None, s3)"
    and s3: "sv_os s3 = sv_os s1" "sv_handles s3 = (sv_handles s)(pid \<mapsto> ?new)" "sv_processes s3 = sv_processes s" "sv_config s3 = sv_config s"
    using waitForHealthy_ok [OF assms(2), of ?new "set_handle pid ?new s1"] s1 by auto
  let ?h = "?new\<lparr>hd_ErrorCount := 0, hd_LastHealthy := an_now an, hd_LastError := None\<rparr>"
  have fields: "hd_Pid ?h = ospid" "hd_GRPCAddress ?h = ''localhost:'' @ itoa (allocatePort s)" using h by (cases old; simp)+
  show ?thesis
  proof (cases "sv_processes s pid")
    case None
    then have "start_process an pid config old s = (SyncDone False None, set_handle pid ?h s3)"
      using s3(3) unfolding start_process_def launch Let_def by (simp add: wait)
    then show ?thesis using None s3 s1 fields by (intro exI [of _ "set_handle pid ?h s3"] exI [of _ ?h]) (cases old; auto)
  next
    case (Some info)
    then obtain g where g: "old = Some g" using assms(3) by (cases old) auto
    let ?s = "(set_handle pid ?h s3)\<lparr>sv_processes := (sv_processes s3)(pid \<mapsto> info\<lparr>pi_PID := hd_Pid g, pi_Address := hd_GRPCAddress g\<rparr>)\<rparr>"
    have "start_process an pid config old s = (SyncDone False None, ?s)"
      using s3(3) Some g wait unfolding start_process_def launch Let_def by simp
    then show ?thesis using Some s3 s1 fields g by (intro exI [of _ "?s"] exI [of _ ?h]) auto
  qed
qed


lemma launch_ok:
  assumes "launchable req m level im s" "pid = ProcessID (request_key req) level" "sch = start_schedule level im n an"
    and key: "q = ProcessID (request_key req) (cf_DefaultIsolation (sv_config s))" "sv_handles s q = None" "sv_processes s q = None"
    and an: "an_start an = Inr ospid" "becomes_healthy an"
  shows "\<exists>t h. LaunchPattern env sch [] took now req s = (RpcOk \<lparr>rs_ProcessId = pid, rs_State = STATE_RUNNING, rs_Address = [], rs_Healthy = True\<rparr>, t)
    \<and> sv_os t = sv_os s @ [OsStart (ExecutablePath m) (launch_env an q (allocatePort s) (ic_BackendConfig (launch_config req m))) ospid]
    \<and> sv_handles t = (sv_handles s)(q \<mapsto> h) \<and> hd_Pid h = ospid \<and> hd_GRPCAddress h = ''localhost:'' @ itoa (allocatePort s)
    \<and> sv_processes t = (sv_processes s)(pid \<mapsto> launch_info now req level pid)"
proof -
  let ?c = "ic_BackendConfig (launch_config req m)"
  have "lc_Key ?c = request_key req" "lc_Manifest ?c = m" by (simp_all add: launch_config_def)
  then have "SyncProcess an (Some (launch_config req m)) s = start_process an q ?c None s"
    using key by (simp add: SyncProcess_def Let_def)
  then obtain s' h where sync: "SyncProcess an (Some (launch_config req m)) s = (SyncDone False None, s')"
    and s': "sv_os s' = sv_os s @ [OsStart (ExecutablePath m) (launch_env an q (allocatePort s) ?c) ospid]" "sv_handles s' = (sv_handles s)(q \<mapsto> h)"
      "hd_Pid h = ospid" "hd_GRPCAddress h = ''localhost:'' @ itoa (allocatePort s)" "sv_processes s' = sv_processes s"
    using start_process_ok [OF an, of None s q ?c] key(3) \<open>lc_Manifest ?c = m\<close> by (auto simp: fun_upd_idem)
  then show ?thesis using launch_fresh [OF assms(1-3) sync, of env took now] by auto
qed

lemma terminateOrphan_signals: "\<exists>calls. sv_os (snd (terminateOrphan an pid s)) = sv_os s @ OsTerm pid # calls"
  by (simp add: terminateOrphan_def Let_def)

abbreviation terminateOrphans :: "(int \<Rightarrow> orphan_answers) \<Rightarrow> int list \<Rightarrow> Service \<Rightarrow> Service" where
  "terminateOrphans an \<equiv> fold (\<lambda>pid s. snd (terminateOrphan (an pid) pid s))"

lemma terminateOrphans_trace: "\<exists>calls. sv_os (terminateOrphans an pids s) = sv_os s @ calls"
proof (induction pids arbitrary: s)
  case (Cons p pids)
  obtain cs where "sv_os (snd (terminateOrphan (an p) p s)) = sv_os s @ OsTerm p # cs" using terminateOrphan_signals by blast
  moreover obtain ds where "sv_os (terminateOrphans an pids (snd (terminateOrphan (an p) p s))) = sv_os (snd (terminateOrphan (an p) p s)) @ ds"
    using Cons by blast
  ultimately show ?case by simp
qed simp

lemma terminateOrphans_signal:
  "pid \<in> set pids \<Longrightarrow> \<exists>calls. sv_os (terminateOrphans an pids s) = sv_os s @ calls \<and> OsTerm pid \<in> set calls"
proof (induction pids arbitrary: s)
  case (Cons p pids)
  let ?s = "snd (terminateOrphan (an p) p s)"
  obtain cs where cs: "sv_os ?s = sv_os s @ OsTerm p # cs" using terminateOrphan_signals by blast
  obtain ds where ds: "sv_os (terminateOrphans an pids ?s) = sv_os ?s @ ds" "pid \<noteq> p \<longrightarrow> OsTerm pid \<in> set ds"
  proof (cases "pid = p")
    case True
    then show thesis using terminateOrphans_trace [of an pids ?s] that by blast
  next
    case False
    then show thesis using Cons.IH [of ?s] Cons.prems that by auto
  qed
  then show ?case using cs by (intro exI [of _ "OsTerm p # cs @ ds"]) auto
qed simp


text \<open>
  C39: the orphan detector terminates a process that the launcher has just started and reported
  as running: its entry has no process identifier, so the detector takes the process for an
  orphan.  This holds for every process with the launcher's environment whose identifier no
  other entry happens to carry.
\<close>

theorem orphan_detector_kills_launched:
  assumes "launchable req m level im s" "pid = ProcessID (request_key req) level" "sch = start_schedule level im n an"
    and key: "q = ProcessID (request_key req) (cf_DefaultIsolation (sv_config s))" "sv_handles s q = None" "sv_processes s q = None"
    and an: "an_start an = Inr ospid" "becomes_healthy an"
    and seen: "ospid \<in> set (findPatternProcesses pv)" "\<forall>info \<in> ran (sv_processes s). pi_PID info \<noteq> ospid" "0 < ospid"
    and run: "LaunchPattern env sch [] took now req s = (r, t)"
  shows "\<exists>calls. sv_os (detectAndCleanup ord pv oa t) = sv_os t @ calls \<and> OsTerm ospid \<in> set calls"
proof -
  obtain t' where "LaunchPattern env sch [] took now req s = (RpcOk \<lparr>rs_ProcessId = pid, rs_State = STATE_RUNNING, rs_Address = [], rs_Healthy = True\<rparr>, t')"
      "sv_processes t' = (sv_processes s)(pid \<mapsto> launch_info now req level pid)"
    using launch_ok [OF assms(1-8), of env took now] by blast
  then have "sv_processes t = (sv_processes s)(pid \<mapsto> launch_info now req level pid)" using run by simp
  then have "ospid \<notin> set (trackedPIDs ord t)"
    using seen(2,3) by (auto simp: trackedPIDs_def set_map_values launch_info_def ran_def split: if_splits)
  then show ?thesis unfolding detectAndCleanup_def using seen(1) by (intro terminateOrphans_signal) simp
qed

text \<open>
  Session isolation is not kept by the syncer.  With the default isolation by namespace, a
  request for a session of its own in a namespace that already has a healthy process is
  answered with a new process identifier and the state running, but no operating-system
  process is started: the session shares the process of the namespace.
\<close>

theorem sessions_share_process:
  assumes "launchable req m IsolationSession im s" "sch = start_schedule IsolationSession im n an"
    and "cf_DefaultIsolation (sv_config s) = IsolationNamespace" "sv_handles s (''ns:'' @ lr_Namespace req) = Some h" "an_alive an" "an_healthy an"
    and run: "LaunchPattern env sch [] took now req s = (r, t)"
  shows "r = RpcOk \<lparr>rs_ProcessId = ''session:'' @ lr_SessionId req, rs_State = STATE_RUNNING, rs_Address = [], rs_Healthy = True\<rparr>
    \<and> sv_os t = sv_os s \<and> dom (sv_handles t) = dom (sv_handles s)"
proof -
  have "lc_Key (ic_BackendConfig (launch_config req m)) = request_key req" by (simp add: launch_config_def)
  then obtain s' where sync: "SyncProcess an (Some (launch_config req m)) s = (SyncDone False None, s')"
      and s': "sv_os s' = sv_os s" "dom (sv_handles s') = dom (sv_handles s)"
    using assms(3-6) by (auto simp: SyncProcess_def Let_def request_key_def)
  then show ?thesis using launch_fresh [OF assms(1) refl assms(2) sync, of env took now] run by (auto simp: request_key_def)
qed

lemma sync_restart:
  assumes "q = ProcessID (lc_Key (ic_BackendConfig c)) (cf_DefaultIsolation (sv_config s))" "sv_handles s q = Some h" "\<not> an_alive an"
    and "an_start an = Inr ospid" "becomes_healthy an"
  shows "\<exists>s' g. SyncProcess an (Some c) s = (SyncDone False None, s') \<and> sv_handles s' = (sv_handles s)(q \<mapsto> g) \<and> hd_Pid g = ospid
    \<and> hd_GRPCAddress g = ''localhost:'' @ itoa (allocatePort s) \<and> sv_config s' = sv_config s
    \<and> sv_processes s' = (sv_processes s)(q := map_option (\<lambda>info. info\<lparr>pi_PID := hd_Pid h, pi_Address := hd_GRPCAddress h\<rparr>) (sv_processes s q))"
proof -
  let ?h = "h\<lparr>hd_RestartCount := hd_RestartCount h + 1\<rparr>"
  let ?s = "on_metrics (RecordProcessRestart (lc_PatternName (ic_BackendConfig c))
    (manifest_level (cf_DefaultIsolation (sv_config s)) (lc_Manifest (hd_Config h)))) (set_handle q ?h s)"
  have "allocatePort ?s = allocatePort s" using assms(2) by (simp add: allocatePort_def insert_absorb domI)
  moreover have "SyncProcess an (Some c) s = start_process an q (ic_BackendConfig c) (Some ?h) ?s"
    using assms(1-3) by (simp add: SyncProcess_def Let_def)
  ultimately obtain s' g where "SyncProcess an (Some c) s = (SyncDone False None, s')" "sv_handles s' = (sv_handles s)(q \<mapsto> g)" "hd_Pid g = ospid"
      "hd_GRPCAddress g = ''localhost:'' @ itoa (allocatePort s)" "sv_config s' = sv_config s"
      "sv_processes s' = (sv_processes s)(q := (case sv_processes s q of None \<Rightarrow> None | Some info \<Rightarrow> Some (info\<lparr>pi_PID := hd_Pid h, pi_Address := hd_GRPCAddress h\<rparr>)))"
    using start_process_ok [OF assms(4,5), of "Some ?h" ?s q "ic_BackendConfig c"] by (cases "sv_processes s q") auto
  then show ?thesis by (intro exI [of _ s'] exI [of _ g]) (simp add: map_option_case)
qed

text \<open>
  When the process of a tracked entry has died and is started again, the entry receives
  the process identifier and the address of the dead process, not those of the new one.
\<close>

theorem restart_records_dead_process:
  assumes "q = ProcessID (lc_Key (ic_BackendConfig c)) (cf_DefaultIsolation (sv_config s))" "sv_handles s q = Some h" "\<not> an_alive an"
    and "an_start an = Inr ospid" "becomes_healthy an" "sv_processes s q = Some info"
  shows "\<exists>s' g. SyncProcess an (Some c) s = (SyncDone False None, s') \<and> sv_handles s' q = Some g \<and> hd_Pid g = ospid
    \<and> sv_processes s' q = Some (info\<lparr>pi_PID := hd_Pid h, pi_Address := hd_GRPCAddress h\<rparr>)"
  using sync_restart [OF assms(1-5)] assms(6) by auto

text \<open>
  Ports are given out twice.  After a process has been restarted, the next process that is
  started gets the same address, while the restarted one still has it.
\<close>

theorem restarted_port_given_twice:
  assumes "q = ProcessID (lc_Key (ic_BackendConfig c)) (cf_DefaultIsolation (sv_config s))" "sv_handles s q = Some h" "\<not> an_alive an"
    and "an_start an = Inr ospid" "becomes_healthy an" "SyncProcess an (Some c) s = (r, s1)"
    and new: "p = ProcessID (lc_Key (ic_BackendConfig d)) (cf_DefaultIsolation (sv_config s))" "sv_handles s p = None" "sv_processes s p = None"
    and "an_start bn = Inr newpid" "becomes_healthy bn" "SyncProcess bn (Some d) s1 = (r', s2)"
  shows "\<exists>g g'. sv_handles s2 q = Some g \<and> sv_handles s2 p = Some g' \<and> hd_Pid g = ospid \<and> hd_Pid g' = newpid \<and> hd_GRPCAddress g = hd_GRPCAddress g'"
proof -
  have pq: "p \<noteq> q" using assms(2,8) by auto
  obtain g where g: "sv_handles s1 = (sv_handles s)(q \<mapsto> g)" "hd_Pid g = ospid" "hd_GRPCAddress g = ''localhost:'' @ itoa (allocatePort s)"
      "sv_config s1 = sv_config s" "sv_processes s1 p = None"
    using sync_restart [OF assms(1-5)] assms(6) new(3) pq by auto
  then have "allocatePort s1 = allocatePort s" using assms(2) by (simp add: allocatePort_def insert_absorb domI)
  moreover have "SyncProcess bn (Some d) s1 = start_process bn p (ic_BackendConfig d) None s1"
    using new g pq by (simp add: SyncProcess_def Let_def)
  ultimately obtain g' where "sv_handles s2 = (sv_handles s1)(p \<mapsto> g')" "hd_Pid g' = newpid" "hd_GRPCAddress g' = ''localhost:'' @ itoa (allocatePort s)"
    using start_process_ok [OF assms(10,11), of None s1 p "ic_BackendConfig d"] assms(12) g(5) by auto
  then show ?thesis using g pq by auto
qed



subsection \<open>Examples\<close>

definition demo_request :: "pb_IsolationLevel \<Rightarrow> LaunchRequest" where
  "demo_request isolation = \<lparr>lr_PatternName = ''consumer'', lr_Isolation = isolation, lr_Namespace = ''a'', lr_SessionId = ''s'',
     lr_Config = Map.empty, lr_GracePeriodSecs = 10\<rparr>"

definition demo_answers :: "int \<Rightarrow> bool \<Rightarrow> syncer_answers" where
  "demo_answers ospid alive = \<lparr>an_now = 1, an_alive = alive, an_healthy = True, an_start = Inr ospid, an_polls = [Some False, Some True],
     an_environ = [], an_configOrder = [], an_envOrder = [], an_exits = True, an_killError = None, an_dies = True\<rparr>"

definition demo_manager :: "IsolationLevel \<Rightarrow> processConfig IsolationManager" where
  "demo_manager level = NewIsolationManager 1 level [WithResyncInterval 30000000000, WithBackOffPeriod 5000000000]"

definition demo_launcher :: Service where
  "demo_launcher = \<lparr>sv_config = DefaultConfig, sv_registry = \<lparr>rg_patterns = [''consumer'' \<mapsto> demo_manifest], rg_directory = ''p''\<rparr>,
     sv_managers = initIsolationManagers 1 DefaultConfig, sv_processes = Map.empty, sv_handles = Map.empty, sv_metrics = NewMetricsCollector 1,
     sv_os = [], sv_startTime = 1, sv_shutdown = False, sv_panicked = False\<rparr>"

lemma demo_launcher_fields [simp]:
  "cf_DefaultIsolation (sv_config demo_launcher) = IsolationNamespace" "sv_managers demo_launcher IsolationNamespace = Some (demo_manager IsolationNamespace)"
  "sv_managers demo_launcher IsolationSession = Some (demo_manager IsolationSession)" "sv_processes demo_launcher = Map.empty"
  "sv_handles demo_launcher = Map.empty" "sv_os demo_launcher = []" "\<not> sv_panicked demo_launcher"
  "GetPattern ''consumer'' (sv_registry demo_launcher) = Some demo_manifest" "finite (dom (sv_handles demo_launcher))"
  by (simp_all add: demo_launcher_def DefaultConfig_def initIsolationManagers_def demo_manager_def GetPattern_def Let_def)

lemma demo_manager_fields [simp]:
  "im_level (demo_manager l) = l" "im_processes (demo_manager l) = Map.empty" "pm_processStatuses (im_pm (demo_manager l)) = Map.empty"
  "pm_workers (im_pm (demo_manager l)) = []" "pm_closed (im_pm (demo_manager l)) = []" "pm_mem (im_pm (demo_manager l)) = (\<lambda>_. new_processStatus)"
  "pm_clock (im_pm (demo_manager l)) = 1" "\<not> pm_panicked (im_pm (demo_manager l))"
  by (simp_all add: demo_manager_def NewIsolationManager_def NewProcessManager_def)

lemma demo_manager_reachable: "reachable (im_pm (demo_manager l))"
  by (simp add: demo_manager_def NewIsolationManager_def reachable.init)

lemma demo_fresh: "fresh_pid pid (demo_manager l)"
  by (simp add: fresh_pid_def demo_manager_def NewIsolationManager_def NewProcessManager_def)

lemma demo_healthy: "becomes_healthy (demo_answers ospid alive)"
  unfolding becomes_healthy_def by (rule exI [of _ 1]) (simp add: demo_answers_def)

lemma demo_launchable:
  "launchable (demo_request ISOLATION_NAMESPACE) demo_manifest IsolationNamespace (demo_manager IsolationNamespace) demo_launcher"
  "launchable (demo_request ISOLATION_SESSION) demo_manifest IsolationSession (demo_manager IsolationSession) (demo_launcher\<lparr>sv_handles := hs\<rparr>)"
  by (simp_all add: launchable_def acceptable_def demo_request_def demo_fresh)

lemma demo_request_key [simp]: "request_key (demo_request l) = \<lparr>ik_Namespace = ''a'', ik_Session = ''s''\<rparr>"
  by (simp add: request_key_def demo_request_def)


theorem orphan_detector_kills_launched_witness:
  "\<exists>r t. LaunchPattern demo_env (start_schedule IsolationNamespace (demo_manager IsolationNamespace) 2 (demo_answers 42 True)) [] 7 9
       (demo_request ISOLATION_NAMESPACE) demo_launcher = (r, t)
    \<and> (\<exists>calls. sv_os (detectAndCleanup [''ns:a''] \<lparr>pv_entries = Some [(''42'', True)], pv_environ = (\<lambda>_. Some ''PATTERN_NAME=consumer'')\<rparr>
         (\<lambda>_. \<lparr>oa_term = True, oa_checks = [], oa_killError = None\<rparr>) t) = sv_os t @ calls \<and> OsTerm 42 \<in> set calls)"
proof -
  obtain r t where run: "LaunchPattern demo_env (start_schedule IsolationNamespace (demo_manager IsolationNamespace) 2 (demo_answers 42 True)) [] 7 9
       (demo_request ISOLATION_NAMESPACE) demo_launcher = (r, t)" by fastforce
  have seen: "42 \<in> set (findPatternProcesses \<lparr>pv_entries = Some [(''42'', True)], pv_environ = (\<lambda>_. Some ''PATTERN_NAME=consumer'')\<rparr>)"
    by (simp add: findPatternProcesses_def isPatternProcess_def getAllPIDs_def map_filter_simps go_Atoi_def all_digits_def digit_value_def)
  show ?thesis
    using orphan_detector_kills_launched [OF demo_launchable(1) refl refl _ _ _ _ demo_healthy seen _ _ run, of "''ns:a''"] run
    by (auto simp: demo_answers_def)
qed

definition demo_handle :: processHandle where
  "demo_handle = \<lparr>hd_Pid = 42, hd_Config = ic_BackendConfig (launch_config (demo_request ISOLATION_NAMESPACE) demo_manifest), hd_StartTime = 1,
     hd_GRPCAddress = ''localhost:50051'', hd_HealthURL = [], hd_RestartCount = 0, hd_LastError = None, hd_ErrorCount = 0, hd_LastHealthy = 1\<rparr>"

definition demo_config_of :: "string \<Rightarrow> processConfig ProcessConfig" where
  "demo_config_of namespace = launch_config ((demo_request ISOLATION_NAMESPACE)\<lparr>lr_Namespace := namespace\<rparr>) demo_manifest"

lemma demo_config_key [simp]: "lc_Key (ic_BackendConfig (demo_config_of ns)) = \<lparr>ik_Namespace = ns, ik_Session = ''s''\<rparr>"
  by (simp add: demo_config_of_def launch_config_def request_key_def demo_request_def)

theorem sessions_share_process_witness:
  "\<exists>t. LaunchPattern demo_env (start_schedule IsolationSession (demo_manager IsolationSession) 2 (demo_answers 43 True)) [] 7 9
       (demo_request ISOLATION_SESSION) (demo_launcher\<lparr>sv_handles := [''ns:a'' \<mapsto> demo_handle]\<rparr>)
     = (RpcOk \<lparr>rs_ProcessId = ''session:s'', rs_State = STATE_RUNNING, rs_Address = [], rs_Healthy = True\<rparr>, t) \<and> sv_os t = []"
proof -
  obtain r t where run: "LaunchPattern demo_env (start_schedule IsolationSession (demo_manager IsolationSession) 2 (demo_answers 43 True)) [] 7 9
       (demo_request ISOLATION_SESSION) (demo_launcher\<lparr>sv_handles := [''ns:a'' \<mapsto> demo_handle]\<rparr>) = (r, t)" by fastforce
  show ?thesis using sessions_share_process [OF demo_launchable(2) refl _ _ _ _ run] run by (simp add: demo_request_def demo_answers_def)
qed

theorem restart_records_dead_process_witness:
  "\<exists>s' g. SyncProcess (demo_answers 43 False) (Some (demo_config_of ''a''))
       (demo_launcher\<lparr>sv_handles := [''ns:a'' \<mapsto> demo_handle], sv_processes := [''ns:a'' \<mapsto> launch_info 1 (demo_request ISOLATION_NAMESPACE) IsolationNamespace ''ns:a'']\<rparr>)
     = (SyncDone False None, s') \<and> sv_handles s' ''ns:a'' = Some g \<and> hd_Pid g = 43 \<and> map_option pi_PID (sv_processes s' ''ns:a'') = Some 42"
  using restart_records_dead_process [of "''ns:a''" "demo_config_of ''a''"
    "demo_launcher\<lparr>sv_handles := [''ns:a'' \<mapsto> demo_handle], sv_processes := [''ns:a'' \<mapsto> launch_info 1 (demo_request ISOLATION_NAMESPACE) IsolationNamespace ''ns:a'']\<rparr>"
    demo_handle "demo_answers 43 False" 43] demo_healthy [of 43 False]
  by (fastforce simp: demo_answers_def demo_handle_def)

theorem restarted_port_given_twice_witness:
  "\<exists>r s1 r' s2 g g'. SyncProcess (demo_answers 43 False) (Some (demo_config_of ''a'')) (demo_launcher\<lparr>sv_handles := [''ns:a'' \<mapsto> demo_handle]\<rparr>) = (r, s1)
    \<and> SyncProcess (demo_answers 44 True) (Some (demo_config_of ''b'')) s1 = (r', s2)
    \<and> sv_handles s2 ''ns:a'' = Some g \<and> sv_handles s2 ''ns:b'' = Some g' \<and> hd_GRPCAddress g = hd_GRPCAddress g'"
proof -
  obtain r s1 where one: "SyncProcess (demo_answers 43 False) (Some (demo_config_of ''a'')) (demo_launcher\<lparr>sv_handles := [''ns:a'' \<mapsto> demo_handle]\<rparr>) = (r, s1)"
    by fastforce
  obtain r' s2 where two: "SyncProcess (demo_answers 44 True) (Some (demo_config_of ''b'')) s1 = (r', s2)" by fastforce
  show ?thesis
    using restarted_port_given_twice [OF _ _ _ _ demo_healthy one _ _ _ _ demo_healthy two, of "''ns:a''" demo_handle 43 "''ns:b''" 44] one two
    by (auto simp: demo_answers_def)
qed

definition demo_stopping :: Service where
  "demo_stopping = set_manager IsolationNamespace (submit (stop_request ''ns:a'' 0 5) (demo_manager IsolationNamespace)) demo_launcher"


definition demo_tracked :: Service where
  "demo_tracked = set_manager IsolationNamespace ((demo_manager IsolationNamespace)\<lparr>im_processes := [''ns:a'' \<mapsto> demo_config_of ''a'']\<rparr>)
     (demo_launcher\<lparr>sv_processes := [''ns:a'' \<mapsto> launch_info 1 (demo_request ISOLATION_NAMESPACE) IsolationNamespace ''ns:a'']\<rparr>)"


end
