(* ===== verification/Multicast_Coordinator.thy ===== *)
theory Multicast_Coordinator
  imports Multicast_Adapters
begin

text \<open>
  The coordinator of the multicast registry (\<open>patterns/multicast_registry/coordinator.go\<close> and
  \<open>config.go\<close>) over any backends.  The operations under the coordinator's lock are functions
  on its state.  A multicast starts one goroutine per target; they run interleaved, so its
  model takes a schedule, a list of pairs of a target's number and the clock: each entry lets
  that goroutine make one delivery attempt or report its failure, and the results are
  collected in the order in which the goroutines report.  The delay between attempts is not
  modelled.
\<close>

subsection \<open>Configuration\<close>

datatype DeliverySemantics = DeliveryAtMostOnce | DeliveryAtLeastOnce | DeliveryExactlyOnce | DeliveryOther string

record RegistrySlotConfig =
  rsc_Type :: string
  rsc_Host :: string
  rsc_Port :: int
  rsc_Options :: "(string \<times> go_value) list"
  rsc_TTLField :: string

record MessagingSlotConfig =
  msc_Type :: string
  msc_Servers :: "string list"
  msc_TopicPrefix :: string
  msc_Delivery :: DeliverySemantics
  msc_Options :: "(string \<times> go_value) list"
  msc_RetryAttempts :: int
  msc_RetryDelay :: duration

record DurabilitySlotConfig =
  dsc_Enabled :: bool
  dsc_Type :: string
  dsc_Options :: "(string \<times> go_value) list"
  dsc_UseMessaging :: bool
  dsc_RetentionDays :: int

record McConfig =
  mcc_PatternName :: string
  mcc_DefaultTTL :: duration
  mcc_MaxIdentities :: int
  mcc_MaxFilterDepth :: int
  mcc_MaxClauses :: int
  mcc_Registry :: RegistrySlotConfig
  mcc_Messaging :: MessagingSlotConfig
  mcc_Durability :: DurabilitySlotConfig

definition DefaultConfig :: McConfig where
  "DefaultConfig = \<lparr>mcc_PatternName = ''multicast-registry'', mcc_DefaultTTL = 300000000000, mcc_MaxIdentities = 0,
     mcc_MaxFilterDepth = 5, mcc_MaxClauses = 20,
     mcc_Registry = \<lparr>rsc_Type = ''memstore'', rsc_Host = '''', rsc_Port = 0, rsc_Options = [], rsc_TTLField = ''''\<rparr>,
     mcc_Messaging = \<lparr>msc_Type = ''nats'', msc_Servers = [], msc_TopicPrefix = '''', msc_Delivery = DeliveryAtMostOnce,
       msc_Options = [], msc_RetryAttempts = 3, msc_RetryDelay = 100000000\<rparr>,
     mcc_Durability = \<lparr>dsc_Enabled = False, dsc_Type = '''', dsc_Options = [], dsc_UseMessaging = False, dsc_RetentionDays = 0\<rparr>\<rparr>"

subsection \<open>The coordinator\<close>

datatype mc_error =
    RegistryRequired
  | MessagingRequired
  | AlreadyRegistered string
  | MaxIdentitiesReached int
  | RegistrySetFailed slot_error
  | RegistryDeleteFailed slot_error
  | CloseErrors nat

record ('r, 'm, 'd) Coordinator =
  co_config :: McConfig
  co_registry :: 'r
  co_messaging :: 'm
  co_durability :: "'d option"
  co_identities :: "string \<rightharpoonup> Identity"
  co_stopped :: bool

definition NewCoordinator :: "McConfig option \<Rightarrow> 'r option \<Rightarrow> 'm option \<Rightarrow> 'd option \<Rightarrow> mc_error + ('r, 'm, 'd) Coordinator" where
  "NewCoordinator config registry messaging durability =
    (case registry of
       None \<Rightarrow> Inl RegistryRequired
     | Some r \<Rightarrow>
         (case messaging of
            None \<Rightarrow> Inl MessagingRequired
          | Some m \<Rightarrow> Inr \<lparr>co_config = (case config of None \<Rightarrow> DefaultConfig | Some c \<Rightarrow> c), co_registry = r,
              co_messaging = m, co_durability = durability, co_identities = Map.empty, co_stopped = False\<rparr>))"

definition new_identity :: "go_time \<Rightarrow> string \<Rightarrow> (string \<times> go_value) list \<Rightarrow> duration \<Rightarrow> Identity" where
  "new_identity now identity metadata ttl = \<lparr>id_ID = identity, id_Metadata = metadata, id_RegisteredAt = now,
     id_ExpiresAt = (if ttl > 0 then Some (now + ttl) else None), id_TTL = ttl\<rparr>"

text \<open>\<open>ord\<close> lists the keys of the local map, of which \<open>Register\<close> takes the number.\<close>

definition Register :: "'r RegistryBackend \<Rightarrow> string list \<Rightarrow> go_time \<Rightarrow> string \<Rightarrow> (string \<times> go_value) list \<Rightarrow> duration
    \<Rightarrow> ('r, 'm, 'd) Coordinator \<Rightarrow> (mc_error + unit) option \<times> ('r, 'm, 'd) Coordinator" where
  "Register B ord now identity metadata ttl c =
    (let maxIds = mcc_MaxIdentities (co_config c)
     in if co_identities c identity \<noteq> None then (Some (Inl (AlreadyRegistered identity)), c)
        else if maxIds > 0 \<and> int (length ord) \<ge> maxIds then (Some (Inl (MaxIdentitiesReached maxIds)), c)
        else case rb_Set B now identity metadata ttl (co_registry c) of
               (Panicked, r) \<Rightarrow> (None, c\<lparr>co_registry := r\<rparr>)
             | (Failed e, r) \<Rightarrow> (Some (Inl (RegistrySetFailed e)), c\<lparr>co_registry := r\<rparr>)
             | (Ok _, r) \<Rightarrow> (Some (Inr ()), c\<lparr>co_registry := r,
                 co_identities := (co_identities c)(identity \<mapsto> new_identity now identity metadata ttl)\<rparr>))"

definition expired_at :: "go_time \<Rightarrow> Identity \<Rightarrow> bool" where
  "expired_at now i = (case id_ExpiresAt i of None \<Rightarrow> False | Some e \<Rightarrow> e < now)"

text \<open>The fallback of \<open>Enumerate\<close>: a panic of the filter ends the operation.\<close>

fun enumerate_local :: "string list \<Rightarrow> go_time \<Rightarrow> Filter option \<Rightarrow> Identity list \<Rightarrow> Identity list option" where
  "enumerate_local ford now f [] = Some []"
| "enumerate_local ford now f (i # is) =
    (if expired_at now i then enumerate_local ford now f is
     else case Matches ford f (map_of (id_Metadata i)) of
            None \<Rightarrow> None
          | Some b \<Rightarrow> map_option (\<lambda>rest. if b then i # rest else rest) (enumerate_local ford now f is))"

definition Enumerate :: "'r RegistryBackend \<Rightarrow> string list \<Rightarrow> string list \<Rightarrow> go_time \<Rightarrow> Filter option
    \<Rightarrow> ('r, 'm, 'd) Coordinator \<Rightarrow> Identity list option" where
  "Enumerate B ord ford now f c =
    (case rb_Enumerate B f (co_registry c) of
       Ok (Some results) \<Rightarrow> Some results
     | Panicked \<Rightarrow> None
     | _ \<Rightarrow> enumerate_local ford now f (map_values ord (co_identities c)))"

definition Unregister :: "'r RegistryBackend \<Rightarrow> string \<Rightarrow> ('r, 'm, 'd) Coordinator \<Rightarrow> (mc_error + unit) option \<times> ('r, 'm, 'd) Coordinator" where
  "Unregister B identity c =
    (if co_identities c identity = None then (Some (Inr ()), c)
     else case rb_Delete B identity (co_registry c) of
            (Panicked, r) \<Rightarrow> (None, c\<lparr>co_registry := r\<rparr>)
          | (Failed e, r) \<Rightarrow> (Some (Inl (RegistryDeleteFailed e)), c\<lparr>co_registry := r\<rparr>)
          | (Ok _, r) \<Rightarrow> (Some (Inr ()), c\<lparr>co_registry := r, co_identities := (co_identities c)(identity := None)\<rparr>))"

definition delete_expired :: "'r RegistryBackend \<Rightarrow> string \<Rightarrow> ('r, 'm, 'd) Coordinator \<Rightarrow> ('r, 'm, 'd) Coordinator" where
  "delete_expired B identity c = c\<lparr>co_registry := snd (rb_Delete B identity (co_registry c)),
     co_identities := (co_identities c)(identity := None)\<rparr>"

definition performCleanup :: "'r RegistryBackend \<Rightarrow> string list \<Rightarrow> go_time \<Rightarrow> ('r, 'm, 'd) Coordinator \<Rightarrow> ('r, 'm, 'd) Coordinator" where
  "performCleanup B ord now c =
    (let expired = filter (\<lambda>k. case co_identities c k of None \<Rightarrow> False | Some i \<Rightarrow> expired_at now i) ord
     in fold (delete_expired B) expired c)"

text \<open>Closing twice panics on the channel of the cleanup goroutine.\<close>

definition Close :: "'r RegistryBackend \<Rightarrow> 'm MessagingBackend \<Rightarrow> 'd DurabilityBackend \<Rightarrow> ('r, 'm, 'd) Coordinator
    \<Rightarrow> ((mc_error + unit) \<times> ('r, 'm, 'd) Coordinator) option" where
  "Close B M D c =
    (if co_stopped c then None
     else let (r1, reg) = rb_Close B (co_registry c);
              (r2, mes) = mb_Close M (co_messaging c);
              (r3, dur) = (case co_durability c of None \<Rightarrow> (Inr (), None)
                | Some d \<Rightarrow> (case db_Close D d of (r, d') \<Rightarrow> (r, Some d')));
              errs = (if r1 = Ok () then 0 else 1) + (if r2 = Inr () then 0 else 1) + (if r3 = Inr () then 0 else 1)
          in Some (if errs > 0 then Inl (CloseErrors errs) else Inr (),
               c\<lparr>co_registry := reg, co_messaging := mes, co_durability := dur, co_stopped := True\<rparr>))"

definition identityTopic :: "McConfig \<Rightarrow> string \<Rightarrow> string" where
  "identityTopic config identity =
    (let p = msc_TopicPrefix (mcc_Messaging config)
     in (if p = '''' then ''prism.multicast.'' else p) @ identity)"

subsection \<open>Multicast\<close>

datatype DeliveryStatus = DeliveryStatusDelivered | DeliveryStatusPending | DeliveryStatusFailed | DeliveryStatusTimeout

record DeliveryResult =
  dr_Identity :: string
  dr_Status :: DeliveryStatus
  dr_Error :: "string option"
  dr_Latency :: duration

record MulticastResponse =
  mr_TargetCount :: nat
  mr_DeliveredCount :: nat
  mr_FailedCount :: nat
  mr_Results :: "DeliveryResult list"

text \<open>The state of one delivery goroutine.\<close>

record delivery =
  dl_identity :: string
  dl_start :: "go_time option"
  dl_attempt :: int
  dl_lastErr :: "string option"
  dl_done :: bool

record 'm multicast_state =
  mu_deliveries :: "delivery list"
  mu_results :: "DeliveryResult list"
  mu_messaging :: 'm

definition start_delivery :: "Identity \<Rightarrow> delivery" where
  "start_delivery i = \<lparr>dl_identity = id_ID i, dl_start = None, dl_attempt = 0, dl_lastErr = None, dl_done = False\<rparr>"

definition deliver_step :: "'m MessagingBackend \<Rightarrow> McConfig \<Rightarrow> bytes \<Rightarrow> nat \<times> go_time \<Rightarrow> 'm multicast_state \<Rightarrow> 'm multicast_state" where
  "deliver_step M config payload p s =
    (case p of (i, now) \<Rightarrow>
      if i < length (mu_deliveries s) \<and> \<not> dl_done (mu_deliveries s ! i)
      then let d = mu_deliveries s ! i;
               start = (case dl_start d of None \<Rightarrow> now | Some t \<Rightarrow> t);
               finish = (\<lambda>status err. s\<lparr>mu_deliveries := (mu_deliveries s)[i := d\<lparr>dl_start := Some start, dl_done := True\<rparr>],
                 mu_results := mu_results s @ [\<lparr>dr_Identity = dl_identity d, dr_Status = status, dr_Error = err,
                   dr_Latency = now - start\<rparr>]\<rparr>)
           in if dl_attempt d \<le> msc_RetryAttempts (mcc_Messaging config)
              then (case mb_Publish M (identityTopic config (dl_identity d)) payload (mu_messaging s) of
                      (Inr _, m) \<Rightarrow> (finish DeliveryStatusDelivered None)\<lparr>mu_messaging := m\<rparr>
                    | (Inl e, m) \<Rightarrow> s\<lparr>mu_deliveries := (mu_deliveries s)[i := d\<lparr>dl_start := Some start,
                        dl_attempt := dl_attempt d + 1, dl_lastErr := Some e\<rparr>], mu_messaging := m\<rparr>)
              else finish DeliveryStatusFailed (dl_lastErr d)
      else s)"

definition multicast_start :: "Identity list \<Rightarrow> 'm \<Rightarrow> 'm multicast_state" where
  "multicast_start targets m = \<lparr>mu_deliveries = map start_delivery targets, mu_results = [], mu_messaging = m\<rparr>"

definition aggregate :: "nat \<Rightarrow> DeliveryResult list \<Rightarrow> MulticastResponse" where
  "aggregate n results = \<lparr>mr_TargetCount = n,
     mr_DeliveredCount = length (filter (\<lambda>r. dr_Status r = DeliveryStatusDelivered) results),
     mr_FailedCount = length (filter (\<lambda>r. dr_Status r \<noteq> DeliveryStatusDelivered) results),
     mr_Results = results\<rparr>"

datatype multicast_outcome = McPanicked | McRunning | McResponse MulticastResponse

definition Multicast :: "'r RegistryBackend \<Rightarrow> 'm MessagingBackend \<Rightarrow> string list \<Rightarrow> string list \<Rightarrow> (nat \<times> go_time) list \<Rightarrow> go_time
    \<Rightarrow> Filter option \<Rightarrow> bytes \<Rightarrow> ('r, 'm, 'd) Coordinator \<Rightarrow> multicast_outcome \<times> ('r, 'm, 'd) Coordinator" where
  "Multicast B M ord ford sched now f payload c =
    (case Enumerate B ord ford now f c of
       None \<Rightarrow> (McPanicked, c)
     | Some targets \<Rightarrow>
         (let s = fold (deliver_step M (co_config c) payload) sched (multicast_start targets (co_messaging c))
          in (if list_all dl_done (mu_deliveries s) then McResponse (aggregate (length targets) (mu_results s)) else McRunning,
              c\<lparr>co_messaging := mu_messaging s\<rparr>)))"

subsection \<open>What enumeration returns\<close>

definition cond_holds :: "Filter option \<Rightarrow> Identity \<Rightarrow> bool" where
  "cond_holds f i \<longleftrightarrow> (\<forall>g k v. f = Some g \<longrightarrow> fi_Conditions g k = Some v \<longrightarrow> field_is (map_of (id_Metadata i)) k (\<lambda>a. value_eq a v))"

definition filter_ok :: "string list \<Rightarrow> Filter option \<Rightarrow> bool" where
  "filter_ok ford f \<longleftrightarrow> (\<forall>g. f = Some g \<longrightarrow> map_order ford (fi_Conditions g) \<and> (\<forall>v \<in> ran (fi_Conditions g). comparable v))"

lemma Matches_cond_holds:
  assumes "filter_ok ford f"
  shows "Matches ford f (map_of (id_Metadata i)) = Some (cond_holds f i)"
proof (cases f)
  case None
  then show ?thesis by (simp add: Matches_def cond_holds_def)
next
  case (Some g)
  then have "\<forall>k \<in> set ford. \<exists>v. fi_Conditions g k = Some v \<and> comparable v"
    using assms by (auto simp: filter_ok_def map_order_def ran_def dom_def)
  then have "Matches ford f (map_of (id_Metadata i)) =
      Some (\<forall>k \<in> set ford. field_is (map_of (id_Metadata i)) k (\<lambda>a. value_eq a (the (fi_Conditions g k))))"
    using Some by (simp add: Matches_def match_conditions_conj)
  also have "(\<forall>k \<in> set ford. field_is (map_of (id_Metadata i)) k (\<lambda>a. value_eq a (the (fi_Conditions g k)))) = cond_holds f i"
    using Some assms by (force simp: cond_holds_def filter_ok_def map_order_def dom_def)
  finally show ?thesis .
qed

lemma enumerate_local_filter:
  "filter_ok ford f \<Longrightarrow> enumerate_local ford now f is = Some (filter (\<lambda>i. \<not> expired_at now i \<and> cond_holds f i) is)"
  by (induction "is") (simp_all add: Matches_cond_holds)


subsection \<open>The invariant of the coordinator\<close>

definition co_inv :: "('r, 'm, 'd) Coordinator \<Rightarrow> bool" where
  "co_inv c \<longleftrightarrow> finite (dom (co_identities c))
     \<and> (\<forall>k i. co_identities c k = Some i \<longrightarrow> id_ID i = k
          \<and> id_ExpiresAt i = (if id_TTL i > 0 then Some (id_RegisteredAt i + id_TTL i) else None))
     \<and> (mcc_MaxIdentities (co_config c) > 0 \<longrightarrow> int (card (dom (co_identities c))) \<le> mcc_MaxIdentities (co_config c))"

inductive co_step :: "'r RegistryBackend \<Rightarrow> 'm MessagingBackend \<Rightarrow> ('r, 'm, 'd) Coordinator \<Rightarrow> ('r, 'm, 'd) Coordinator \<Rightarrow> bool" where
  register: "map_order ord (co_identities c) \<Longrightarrow> co_step B M c (snd (Register B ord now identity metadata ttl c))"
| unregister: "co_step B M c (snd (Unregister B identity c))"
| cleanup: "map_order ord (co_identities c) \<Longrightarrow> co_step B M c (performCleanup B ord now c)"
| multicast: "co_step B M c (snd (Multicast B M ord ford sched now f payload c))"

lemma Register_inv:
  assumes inv: "co_inv c" and ord: "map_order ord (co_identities c)"
  shows "co_inv (snd (Register B ord now identity metadata ttl c))"
proof -
  have len: "length ord = card (dom (co_identities c))"
    using ord distinct_card [of ord] by (simp add: map_order_def)
  show ?thesis
  proof (cases "rb_Set B now identity metadata ttl (co_registry c)")
    case (Pair res r)
    show ?thesis
      using inv len Pair
      by (cases res) (auto simp: Register_def co_inv_def new_identity_def Let_def card_insert_if)
  qed
qed

lemma Unregister_inv: "co_inv c \<Longrightarrow> co_inv (snd (Unregister B identity c))"
proof (cases "rb_Delete B identity (co_registry c)")
  case (Pair res r)
  assume inv: "co_inv c"
  have "card (dom (co_identities c) - {identity}) \<le> card (dom (co_identities c))" by (rule card_Diff1_le)
  then show ?thesis
    using inv Pair by (cases res) (auto simp: Unregister_def co_inv_def)
qed

lemma delete_expired_inv: "co_inv c \<Longrightarrow> co_inv (delete_expired B identity c)"
  using card_Diff1_le [of "dom (co_identities c)" identity] by (auto simp: delete_expired_def co_inv_def)

lemma fold_delete_expired_inv: "co_inv c \<Longrightarrow> co_inv (fold (delete_expired B) ks c)"
  by (induction ks arbitrary: c) (simp_all add: delete_expired_inv)

lemma co_step_inv: "co_step B M c c' \<Longrightarrow> co_inv c \<Longrightarrow> co_inv c'"
proof (induction rule: co_step.induct)
  case (multicast c B M ord ford sched now f payload)
  then show ?case by (auto simp: Multicast_def co_inv_def Let_def split: option.splits)
qed (simp_all add: Register_inv Unregister_inv performCleanup_def Let_def fold_delete_expired_inv)


text \<open>
  C30: registration, removal, cleanup and multicasts keep every identity under its own name,
  with an expiry that is its registration time plus a positive time to live, and never hold
  more identities than the configured maximum, whatever the backends answer.
\<close>

theorem coordinator_invariant:
  assumes "NewCoordinator config registry messaging durability = Inr c0" "(co_step B M)\<^sup>*\<^sup>* c0 c"
    and "co_identities c k = Some i"
  shows "id_ID i = k \<and> (id_ExpiresAt i = Some e \<longleftrightarrow> id_TTL i > 0 \<and> e = id_RegisteredAt i + id_TTL i)
    \<and> (mcc_MaxIdentities (co_config c) > 0 \<longrightarrow> int (card (dom (co_identities c))) \<le> mcc_MaxIdentities (co_config c))"
proof -
  have "co_inv c0"
    using assms(1) by (auto simp: NewCoordinator_def co_inv_def split: option.splits)
  with assms(2) have "co_inv c" by (induction rule: rtranclp_induct) (auto intro: co_step_inv)
  then show ?thesis using assms(3) unfolding co_inv_def by (auto split: if_splits)
qed

subsection \<open>Delivery\<close>

definition logged :: "'m MessagingBackend \<Rightarrow> ('m \<times> (string \<times> bool) list) MessagingBackend" where
  "logged M = \<lparr>mb_Publish = (\<lambda>topic payload (m, l). case mb_Publish M topic payload m of
       (r, m') \<Rightarrow> (r, m', l @ [(topic, case r of Inl _ \<Rightarrow> False | Inr _ \<Rightarrow> True)])),
     mb_Close = (\<lambda>(m, l). case mb_Close M m of (r, m') \<Rightarrow> (r, m', l))\<rparr>"

definition attempts :: "string \<Rightarrow> (string \<times> bool) list \<Rightarrow> bool list" where
  "attempts topic l = map snd (filter (\<lambda>(t, b). t = topic) l)"

definition result_ok :: "int \<Rightarrow> DeliveryResult \<Rightarrow> bool list \<Rightarrow> bool" where
  "result_ok R r bs \<longleftrightarrow>
     dr_Status r = DeliveryStatusDelivered \<and> (\<exists>k. int k \<le> R \<and> bs = replicate k False @ [True])
     \<or> dr_Status r = DeliveryStatusFailed \<and> bs = replicate (nat (R + 1)) False"

definition mu_inv :: "McConfig \<Rightarrow> string list \<Rightarrow> ('m \<times> (string \<times> bool) list) multicast_state \<Rightarrow> bool" where
  "mu_inv config ids s \<longleftrightarrow> map dl_identity (mu_deliveries s) = ids
     \<and> mset (map dr_Identity (mu_results s)) = mset (map dl_identity (filter dl_done (mu_deliveries s)))
     \<and> (\<forall>d \<in> set (mu_deliveries s). \<not> dl_done d \<longrightarrow> 0 \<le> dl_attempt d
          \<and> dl_attempt d \<le> max 0 (msc_RetryAttempts (mcc_Messaging config) + 1)
          \<and> attempts (identityTopic config (dl_identity d)) (snd (mu_messaging s)) = replicate (nat (dl_attempt d)) False)
     \<and> (\<forall>r \<in> set (mu_results s). result_ok (msc_RetryAttempts (mcc_Messaging config)) r
          (attempts (identityTopic config (dr_Identity r)) (snd (mu_messaging s))))"

lemma identityTopic_inj [simp]: "identityTopic config a = identityTopic config b \<longleftrightarrow> a = b"
  by (simp add: identityTopic_def Let_def)

lemma attempts_append: "attempts t (l @ [(t', b)]) = attempts t l @ (if t = t' then [b] else [])"
  by (simp add: attempts_def)

lemma mset_filter_update:
  "i < length xs \<Longrightarrow> \<not> P (xs ! i) \<Longrightarrow> P y \<Longrightarrow> f y = f (xs ! i) \<Longrightarrow>
     mset (map f (filter P (xs[i := y]))) = mset (map f (filter P xs)) + {#f (xs ! i)#}"
  by (induction xs arbitrary: i) (auto split: nat.splits simp: nth_Cons)

lemma filter_update_neg:
  "i < length xs \<Longrightarrow> \<not> P (xs ! i) \<Longrightarrow> \<not> P y \<Longrightarrow> filter P (xs[i := y]) = filter P xs"
  by (induction xs arbitrary: i) (auto split: nat.splits simp: nth_Cons)

text \<open>A step of goroutine \<open>i\<close> only affects its own delivery, its result and the attempts on its topic.\<close>

lemma mu_inv_update:
  assumes inv: "mu_inv config ids s" and ids: "distinct ids" and i: "i < length (mu_deliveries s)"
    and open': "\<not> dl_done (mu_deliveries s ! i)"
    and d': "dl_identity d' = dl_identity (mu_deliveries s ! i)"
    and s': "mu_deliveries s' = (mu_deliveries s)[i := d']" "mu_results s' = mu_results s @ rs"
    and log: "\<And>t. t \<noteq> identityTopic config (dl_identity d') \<Longrightarrow>
        attempts t (snd (mu_messaging s')) = attempts t (snd (mu_messaging s))"
    and running: "\<not> dl_done d' \<Longrightarrow> rs = [] \<and> 0 \<le> dl_attempt d'
        \<and> dl_attempt d' \<le> max 0 (msc_RetryAttempts (mcc_Messaging config) + 1)
        \<and> attempts (identityTopic config (dl_identity d')) (snd (mu_messaging s')) = replicate (nat (dl_attempt d')) False"
    and finished: "dl_done d' \<Longrightarrow> \<exists>r. rs = [r] \<and> dr_Identity r = dl_identity d'
        \<and> result_ok (msc_RetryAttempts (mcc_Messaging config)) r
            (attempts (identityTopic config (dl_identity d')) (snd (mu_messaging s')))"
  shows "mu_inv config ids s'"
proof -
  let ?ds = "mu_deliveries s"
  have names: "map dl_identity (mu_deliveries s') = ids"
  proof -
    have "map dl_identity (mu_deliveries s') = (map dl_identity ?ds)[i := map dl_identity ?ds ! i]"
      using i d' by (simp add: s' map_update)
    then show ?thesis using inv by (simp only: list_update_id mu_inv_def)
  qed
  have "distinct (map dl_identity ?ds)" using inv ids by (simp add: mu_inv_def)
  then have other: "dl_identity (?ds ! j) \<noteq> dl_identity d'" if "j < length ?ds" "j \<noteq> i" for j
    using that i d' by (auto simp: distinct_conv_nth)
  have done': "dr_Identity r \<noteq> dl_identity d'" if "r \<in> set (mu_results s)" for r
  proof -
    have "mset (map dr_Identity (mu_results s)) = mset (map dl_identity (filter dl_done ?ds))"
      using inv by (simp only: mu_inv_def)
    then have "set (map dr_Identity (mu_results s)) = set (map dl_identity (filter dl_done ?ds))"
      by (rule mset_eq_setD)
    then have "dr_Identity r \<in> dl_identity ` set (filter dl_done ?ds)" using that by force
    then obtain j where "j < length ?ds" "dl_done (?ds ! j)" "dr_Identity r = dl_identity (?ds ! j)"
      by (auto simp: in_set_conv_nth)
    then show ?thesis using other [of j] open' by (cases "j = i") auto
  qed
  have "mset (map dr_Identity (mu_results s')) = mset (map dl_identity (filter dl_done (mu_deliveries s')))"
  proof (cases "dl_done d'")
    case True
    then obtain r where "rs = [r]" "dr_Identity r = dl_identity d'" using finished by blast
    then show ?thesis
      using inv True d' mset_filter_update [of i ?ds dl_done d' dl_identity, OF i open'] by (simp add: s' mu_inv_def)
  next
    case False
    then show ?thesis using inv running filter_update_neg [OF i open' False] by (simp add: s' mu_inv_def)
  qed
  moreover have "0 \<le> dl_attempt d \<and> dl_attempt d \<le> max 0 (msc_RetryAttempts (mcc_Messaging config) + 1)
      \<and> attempts (identityTopic config (dl_identity d)) (snd (mu_messaging s')) = replicate (nat (dl_attempt d)) False"
    if d: "d \<in> set (mu_deliveries s')" "\<not> dl_done d" for d
  proof (cases "d = d'")
    case True
    then show ?thesis using running d by blast
  next
    case False
    obtain j where j: "j < length ?ds" "d = ?ds[i := d'] ! j" using d by (auto simp: s' in_set_conv_nth)
    then have j: "j < length ?ds" "j \<noteq> i" "d = ?ds ! j" using False by (cases "j = i", auto)+
    have "dl_identity d \<noteq> dl_identity d'" using other [of j] j by simp
    then show ?thesis using inv d(2) j log by (auto simp: mu_inv_def)
  qed
  moreover have "result_ok (msc_RetryAttempts (mcc_Messaging config)) r
      (attempts (identityTopic config (dr_Identity r)) (snd (mu_messaging s')))" if "r \<in> set (mu_results s')" for r
  proof (cases "r \<in> set (mu_results s)")
    case True
    then show ?thesis using inv log done' by (simp add: mu_inv_def)
  next
    case False
    then have "rs \<noteq> []" using that by (auto simp: s')
    then have "dl_done d'" using running by blast
    then show ?thesis using finished that False by (auto simp: s')
  qed
  ultimately show ?thesis using names unfolding mu_inv_def by blast
qed

lemma deliver_step_inv:
  assumes inv: "mu_inv config ids s" and ids: "distinct ids"
  shows "mu_inv config ids (deliver_step (logged M) config payload p s)"
proof -
  obtain i now where p: "p = (i, now)" by fastforce
  obtain m l where ml: "mu_messaging s = (m, l)" by fastforce
  show ?thesis
  proof (cases "i < length (mu_deliveries s) \<and> \<not> dl_done (mu_deliveries s ! i)")
    case False
    then show ?thesis using inv by (auto simp: deliver_step_def p)
  next
    case True
    define d where "d = mu_deliveries s ! i"
    define start where "start = (case dl_start d of None \<Rightarrow> now | Some t \<Rightarrow> t)"
    have d: "0 \<le> dl_attempt d" "dl_attempt d \<le> max 0 (msc_RetryAttempts (mcc_Messaging config) + 1)"
      "attempts (identityTopic config (dl_identity d)) l = replicate (nat (dl_attempt d)) False"
      using inv True ml by (auto simp: mu_inv_def d_def)
    note upd = mu_inv_update [OF inv ids conjunct1 [OF True] conjunct2 [OF True]]
    show ?thesis
    proof (cases "dl_attempt d \<le> msc_RetryAttempts (mcc_Messaging config)")
      case False
      then have R: "nat (dl_attempt d) = nat (msc_RetryAttempts (mcc_Messaging config) + 1)" using d by auto
      show ?thesis
        by (rule upd [where d' = "d\<lparr>dl_start := Some start, dl_done := True\<rparr>" and rs = "[\<lparr>dr_Identity = dl_identity d,
              dr_Status = DeliveryStatusFailed, dr_Error = dl_lastErr d, dr_Latency = now - start\<rparr>]"])
           (use False True d R in \<open>simp_all add: deliver_step_def p d_def [symmetric] start_def [symmetric] Let_def ml result_ok_def\<close>)
    next
      case att: True
      obtain r m' where pub: "mb_Publish M (identityTopic config (dl_identity d)) payload m = (r, m')" by fastforce
      show ?thesis
      proof (cases r)
        case (Inl e)
        have grow: "replicate (nat (dl_attempt d)) False @ [False] = replicate (nat (dl_attempt d + 1)) False"
          using d(1) by (simp add: nat_add_distrib replicate_append_same)
        show ?thesis
          by (rule upd [where d' = "d\<lparr>dl_start := Some start, dl_attempt := dl_attempt d + 1, dl_lastErr := Some e\<rparr>" and rs = "[]"])
             (use Inl True att d pub grow in \<open>simp_all add: deliver_step_def p d_def [symmetric] start_def [symmetric] Let_def ml
               logged_def attempts_append\<close>)
      next
        case (Inr u)
        have "\<exists>k. int k \<le> msc_RetryAttempts (mcc_Messaging config) \<and> replicate (nat (dl_attempt d)) False @ [True] = replicate k False @ [True]"
          using d(1) att by (intro exI [of _ "nat (dl_attempt d)"]) simp
        then show ?thesis
          by (intro upd [where d' = "d\<lparr>dl_start := Some start, dl_done := True\<rparr>" and rs = "[\<lparr>dr_Identity = dl_identity d,
              dr_Status = DeliveryStatusDelivered, dr_Error = None, dr_Latency = now - start\<rparr>]"])
             (use Inr True att d pub in \<open>simp_all add: deliver_step_def p d_def [symmetric] start_def [symmetric] Let_def ml
               logged_def attempts_append result_ok_def\<close>)
      qed
    qed
  qed
qed

lemma mu_inv_start: "mu_inv config (map id_ID targets) (multicast_start targets (m, []))"
  by (auto simp: mu_inv_def multicast_start_def start_delivery_def attempts_def comp_def)

lemma fold_deliver_inv:
  "mu_inv config ids s \<Longrightarrow> distinct ids \<Longrightarrow> mu_inv config ids (fold (deliver_step (logged M) config payload) sched s)"
  by (induction sched arbitrary: s) (simp_all add: deliver_step_inv)

text \<open>
  C31: whatever the interleaving of the deliveries and the answers of the messaging backend, a
  multicast that returns reports every target once, its counts add up, and a target is
  reported delivered after at most \<open>RetryAttempts\<close> failed attempts followed by one success,
  never published to again, or failed after exactly \<open>RetryAttempts + 1\<close> failed attempts.
\<close>

theorem multicast_accounts:
  assumes targets: "Enumerate B ord ford now f c = Some targets" "distinct (map id_ID targets)"
    and log: "co_messaging c = (m, [])"
    and ret: "Multicast B (logged M) ord ford sched now f payload c = (McResponse resp, c')"
  shows "mr_TargetCount resp = length targets \<and> mr_DeliveredCount resp + mr_FailedCount resp = mr_TargetCount resp
    \<and> mset (map dr_Identity (mr_Results resp)) = mset (map id_ID targets)
    \<and> (\<forall>r \<in> set (mr_Results resp). result_ok (msc_RetryAttempts (mcc_Messaging (co_config c))) r
          (attempts (identityTopic (co_config c) (dr_Identity r)) (snd (co_messaging c'))))"
proof -
  define s where "s = fold (deliver_step (logged M) (co_config c) payload) sched (multicast_start targets (m, []))"
  have inv: "mu_inv (co_config c) (map id_ID targets) s"
    unfolding s_def by (rule fold_deliver_inv [OF mu_inv_start targets(2)])
  have fin: "list_all dl_done (mu_deliveries s)" "resp = aggregate (length targets) (mu_results s)" "c' = c\<lparr>co_messaging := mu_messaging s\<rparr>"
    using ret targets(1) log by (auto simp: Multicast_def Let_def s_def split: if_splits)
  have "filter dl_done (mu_deliveries s) = mu_deliveries s" using fin(1) by (simp add: list_all_iff)
  then have ids: "mset (map dr_Identity (mu_results s)) = mset (map id_ID targets)"
    using inv unfolding mu_inv_def by metis
  then have "length (mu_results s) = length targets" by (metis length_map mset_eq_length)
  moreover have "length (filter P xs) + length (filter (\<lambda>r. \<not> P r) xs) = length xs" for P and xs :: "DeliveryResult list"
    by (rule sum_length_filter_compl)
  ultimately show ?thesis using inv ids fin(2,3) by (simp add: aggregate_def mu_inv_def)
qed

text \<open>Enough turns of its goroutine end every delivery.\<close>

lemma deliver_step_progress:
  assumes "i < length (mu_deliveries s)"
  shows "length (mu_deliveries (deliver_step M config payload (j, now) s)) = length (mu_deliveries s)"
    "dl_done (mu_deliveries s ! i) \<Longrightarrow> dl_done (mu_deliveries (deliver_step M config payload (j, now) s) ! i)"
    "\<not> dl_done (mu_deliveries (deliver_step M config payload (j, now) s) ! i) \<Longrightarrow>
       dl_attempt (mu_deliveries (deliver_step M config payload (j, now) s) ! i)
         = dl_attempt (mu_deliveries s ! i) + (if i = j then 1 else 0)
       \<and> (i = j \<longrightarrow> dl_attempt (mu_deliveries s ! i) \<le> msc_RetryAttempts (mcc_Messaging config))"
  using assms
  by (cases "i = j"; auto simp: deliver_step_def Let_def split: prod.splits sum.splits if_splits)+

lemma fold_deliver_progress:
  assumes "i < length (mu_deliveries s)" "\<not> dl_done (mu_deliveries (fold (deliver_step M config payload) sched s) ! i)"
  shows "dl_attempt (mu_deliveries s ! i) + int (count_list (map fst sched) i)
      \<le> max (dl_attempt (mu_deliveries s ! i)) (msc_RetryAttempts (mcc_Messaging config) + 1)"
  using assms
proof (induction sched arbitrary: s)
  case (Cons p sched)
  obtain j now where p: "p = (j, now)" by fastforce
  let ?s = "deliver_step M config payload p s"
  have len: "i < length (mu_deliveries ?s)" using Cons.prems(1) deliver_step_progress(1) p by metis
  have IH: "dl_attempt (mu_deliveries ?s ! i) + int (count_list (map fst sched) i)
      \<le> max (dl_attempt (mu_deliveries ?s ! i)) (msc_RetryAttempts (mcc_Messaging config) + 1)"
    using Cons.IH [OF len] Cons.prems(2) by simp
  have "\<not> dl_done (mu_deliveries ?s ! i)"
  proof
    assume "dl_done (mu_deliveries ?s ! i)"
    then have "dl_done (mu_deliveries (fold (deliver_step M config payload) sched ?s) ! i)"
      using len
    proof (induction sched arbitrary: s p)
      case (Cons q sched)
      then show ?case using deliver_step_progress(1,2) by (metis fold_simps(2) surj_pair)
    qed simp
    then show False using Cons.prems(2) by simp
  qed
  then show ?case
    using IH deliver_step_progress(3) [OF Cons.prems(1), of M config payload j now] p by (auto split: if_splits)
qed simp

text \<open>
  A multicast returns: if the schedule gives each delivery goroutine at least
  \<open>RetryAttempts + 2\<close> turns, in any order and whatever the backend answers, all goroutines
  report and the response is complete.
\<close>

theorem multicast_returns:
  assumes targets: "Enumerate B ord ford now f c = Some targets"
    and fair: "\<forall>i < length targets. max 0 (msc_RetryAttempts (mcc_Messaging (co_config c)) + 1) < int (count_list (map fst sched) i)"
  shows "\<exists>resp c'. Multicast B M ord ford sched now f payload c = (McResponse resp, c')"
proof -
  define s0 where "s0 = multicast_start targets (co_messaging c)"
  define s where "s = fold (deliver_step M (co_config c) payload) sched s0"
  have len: "length (mu_deliveries s0) = length targets" by (simp add: s0_def multicast_start_def)
  have "length (mu_deliveries (fold (deliver_step M (co_config c) payload) ps x)) = length (mu_deliveries x)" for ps x
    by (induction ps arbitrary: x) (auto simp: deliver_step_def Let_def split: prod.splits sum.splits)
  then have len': "length (mu_deliveries s) = length targets" using len by (simp add: s_def)
  have "dl_done (mu_deliveries s ! i)" if i: "i < length targets" for i
  proof (rule ccontr)
    assume nd: "\<not> dl_done (mu_deliveries s ! i)"
    have "dl_attempt (mu_deliveries s0 ! i) = 0" using i by (simp add: s0_def multicast_start_def start_delivery_def)
    then have "int (count_list (map fst sched) i) \<le> max 0 (msc_RetryAttempts (mcc_Messaging (co_config c)) + 1)"
      using fold_deliver_progress [of i s0 M "co_config c" payload sched] i len nd by (simp add: s_def)
    then show False using fair i by force
  qed
  then have "list_all dl_done (mu_deliveries s)" using len' by (simp add: list_all_length)
  then show ?thesis using targets by (simp add: Multicast_def Let_def s_def s0_def)
qed

text \<open>
  Cleanup removes exactly the identities that have expired, and until it runs an expired
  identity still blocks a new registration under its name.
\<close>

theorem cleanup_removes_expired:
  assumes "map_order ord (co_identities c)"
  shows "co_identities (performCleanup B ord now c) k =
      (case co_identities c k of None \<Rightarrow> None | Some i \<Rightarrow> if expired_at now i then None else Some i)
    \<and> (co_identities c k = Some i \<longrightarrow> Register B ord' now k metadata ttl c = (Some (Inl (AlreadyRegistered k)), c))"
proof -
  have fold: "co_identities (fold (delete_expired B) ks c) k = (if k \<in> set ks then None else co_identities c k)" for ks c
    by (induction ks arbitrary: c) (simp_all add: delete_expired_def)
  show ?thesis
    using assms by (auto simp: performCleanup_def Let_def fold Register_def map_order_def dom_def split: option.splits)
qed

subsection \<open>A small registry\<close>

definition demo_backend :: "MemStore RegistryBackend" where
  "demo_backend = kv_registry (demo_codec 0) memstore_kv NewKeyValueRegistryBackend"

definition demo_coordinator :: "(MemStore, nat \<times> (string \<times> bool) list, unit) Coordinator" where
  "demo_coordinator = \<lparr>co_config = DefaultConfig, co_registry = NewMemStore, co_messaging = (0, []), co_durability = None,
     co_identities = [''u'' \<mapsto> new_identity 5 ''u'' [(''room'', VString ''r'')] 10], co_stopped = False\<rparr>"

text \<open>A messaging backend that fails once.\<close>

definition demo_messaging :: "nat MessagingBackend" where
  "demo_messaging = \<lparr>mb_Publish = (\<lambda>t p n. (if n = 0 then Inl ''down'' else Inr (), Suc n)), mb_Close = (\<lambda>n. (Inr (), n))\<rparr>"

lemma demo_order: "map_order [''u''] (co_identities demo_coordinator)" "filter_ok [] None"
  by (auto simp: map_order_def demo_coordinator_def filter_ok_def)

lemma demo_enumerate: "Enumerate demo_backend [''u''] [] 6 None demo_coordinator = Some [new_identity 5 ''u'' [(''room'', VString ''r'')] 10]"
  by (simp add: Enumerate_def demo_backend_def kv_registry_def kra_Enumerate_def demo_coordinator_def new_identity_def
    expired_at_def Matches_def)


theorem coordinator_invariant_witness:
  "\<exists>c0 c. NewCoordinator None (Some NewMemStore) (Some (0 :: nat)) (None :: unit option) = Inr c0
     \<and> (co_step (demo_backend\<lparr>rb_Set := \<lambda>_ _ _ _ s. (Ok (), s)\<rparr>) demo_messaging)\<^sup>*\<^sup>* c0 c \<and> id_ID (the (co_identities c ''u'')) = ''u''"
proof -
  define c0 :: "(MemStore, nat, unit) Coordinator" where "c0 = projr (NewCoordinator None (Some NewMemStore) (Some 0) None)"
  define B where "B = demo_backend\<lparr>rb_Set := \<lambda>_ _ _ _ s. (Ok (), s)\<rparr>"
  define c where "c = snd (Register B [] 5 ''u'' [] 10 c0)"
  have new: "NewCoordinator None (Some NewMemStore) (Some (0 :: nat)) (None :: unit option) = Inr c0"
    by (simp add: c0_def NewCoordinator_def)
  have "co_step B demo_messaging c0 c"
    unfolding c_def by (rule co_step.register) (simp add: c0_def NewCoordinator_def map_order_def)
  then have run: "(co_step B demo_messaging)\<^sup>*\<^sup>* c0 c" by blast
  have i: "co_identities c ''u'' = Some (new_identity 5 ''u'' [] 10)"
    by (simp add: c_def Register_def B_def c0_def NewCoordinator_def DefaultConfig_def Let_def)
  show ?thesis
    using coordinator_invariant [OF new run i, of 15] new run i unfolding B_def by auto
qed

lemma demo_multicast:
  "Multicast demo_backend (logged demo_messaging) [''u''] [] [(0, 6), (0, 7)] 6 None ''hi'' demo_coordinator
     = (McResponse (aggregate 1 [\<lparr>dr_Identity = ''u'', dr_Status = DeliveryStatusDelivered, dr_Error = None, dr_Latency = 1\<rparr>]),
        demo_coordinator\<lparr>co_messaging := (2, [(''prism.multicast.u'', False), (''prism.multicast.u'', True)])\<rparr>)"
  unfolding Multicast_def demo_enumerate option.case
  by (simp add: Let_def deliver_step_def multicast_start_def start_delivery_def new_identity_def
    demo_coordinator_def DefaultConfig_def logged_def demo_messaging_def identityTopic_def)

theorem multicast_accounts_witness:
  "mr_DeliveredCount (aggregate 1 [\<lparr>dr_Identity = ''u'', dr_Status = DeliveryStatusDelivered, dr_Error = None, dr_Latency = 1\<rparr>]) = 1"
proof -
  have "distinct (map id_ID [new_identity 5 ''u'' [(''room'', VString ''r'')] 10])" by simp
  moreover have "co_messaging demo_coordinator = (0, [])" by (simp add: demo_coordinator_def)
  ultimately show ?thesis
    using multicast_accounts [OF demo_enumerate _ _ demo_multicast] by (simp add: aggregate_def)
qed

theorem multicast_returns_witness:
  "\<exists>resp c'. Multicast demo_backend (logged demo_messaging) [''u''] [] (replicate 5 (0, 6)) 6 None ''hi'' demo_coordinator = (McResponse resp, c')"
  by (rule multicast_returns [OF demo_enumerate])
     (simp add: demo_coordinator_def DefaultConfig_def numeral_eq_Suc)

theorem cleanup_removes_expired_witness:
  "co_identities (performCleanup demo_backend [''u''] 16 demo_coordinator) ''u'' = None"
  using cleanup_removes_expired [OF demo_order(1), of demo_backend 16 "''u''"]
  by (simp add: demo_coordinator_def new_identity_def expired_at_def)

end
