(* ===== verification/Messaging_Slots.thy ===== *)
theory Messaging_Slots
  imports Multicast_Adapters
begin

text \<open>
  What the producer and the consumer share: the interfaces of the backends bound to their
  slots (\<open>src/pkg/plugin/interfaces.go\<close>), the claim check message and the compression
  helpers of \<open>src/pkg/patterns/common\<close>, and Go's parser of durations, on which both
  configurations rely.

  The hash, the compressor and the JSON codec of the standard library are the fields of
  \<open>message_env\<close>; what a property needs of them is a hypothesis of that property.
\<close>

subsection \<open>Parsing durations\<close>

definition is_digit :: "char \<Rightarrow> bool" where
  "is_digit c \<longleftrightarrow> (48 :: nat) \<le> of_char c \<and> of_char c \<le> (57 :: nat)"

definition unit_char :: "char \<Rightarrow> bool" where
  "unit_char c \<longleftrightarrow> c \<noteq> CHR ''.'' \<and> \<not> is_digit c"

fun leadingInt :: "nat \<Rightarrow> string \<Rightarrow> (nat \<times> string) option" where
  "leadingInt x [] = Some (x, [])"
| "leadingInt x (c # s) =
    (if \<not> is_digit c then Some (x, c # s)
     else if x > 2 ^ 63 div 10 then None
     else let y = x * 10 + digit_value c in if y > 2 ^ 63 then None else leadingInt y s)"

fun leadingFraction :: "nat \<Rightarrow> nat \<Rightarrow> bool \<Rightarrow> string \<Rightarrow> nat \<times> nat \<times> string" where
  "leadingFraction x scale overflow [] = (x, scale, [])"
| "leadingFraction x scale overflow (c # s) =
    (if \<not> is_digit c then (x, scale, c # s)
     else if overflow \<or> x > (2 ^ 63 - 1) div 10 then leadingFraction x scale True s
     else let y = x * 10 + digit_value c
          in if y > 2 ^ 63 then leadingFraction x scale True s else leadingFraction y (scale * 10) False s)"

text \<open>The units, the micro sign and the Greek letter mu among them in UTF-8.\<close>

definition unitMap :: "string \<rightharpoonup> nat" where
  "unitMap = map_of [(''ns'', 1), (''us'', 1000), ([CHR 0xC2, CHR 0xB5, CHR ''s''], 1000), ([CHR 0xCE, CHR 0xBC, CHR ''s''], 1000),
     (''ms'', 1000000), (''s'', 1000000000), (''m'', 60000000000), (''h'', 3600000000000)]"

definition fraction_part :: "string \<Rightarrow> (nat \<times> nat \<times> bool) \<times> string" where
  "fraction_part s =
    (case s of
       [] \<Rightarrow> ((0, 1, False), s)
     | c # s' \<Rightarrow>
         if c = CHR ''.'' then (case leadingFraction 0 1 False s' of (f, scale, r) \<Rightarrow> ((f, scale, length r \<noteq> length s'), r))
         else ((0, 1, False), s))"

lemma leadingInt_length: "leadingInt x s = Some (v, r) \<Longrightarrow> length r \<le> length s"
  by (induction x s rule: leadingInt.induct) (auto simp: Let_def split: if_splits)

lemma leadingFraction_length: "length (snd (snd (leadingFraction x scale overflow s))) \<le> length s"
  by (induction x scale overflow s rule: leadingFraction.induct) (auto simp: Let_def)

lemma fraction_part_length: "length (snd (fraction_part s)) \<le> length s"
  using leadingFraction_length [of 0 1 False "tl s"]
  by (auto simp: fraction_part_def split: list.splits prod.splits)

function parse_units :: "(real \<Rightarrow> real) \<Rightarrow> nat \<Rightarrow> string \<Rightarrow> nat option" where
  "parse_units fl d s =
    (if s = [] then Some d
     else if unit_char (hd s) then None
     else (case leadingInt 0 s of
        None \<Rightarrow> None
      | Some (v, s1) \<Rightarrow>
          (let (f, scale, post) = fst (fraction_part s1);
               s2 = snd (fraction_part s1);
               u = takeWhile unit_char s2
           in if length s1 = length s \<and> \<not> post then None
              else if u = [] then None
              else (case unitMap u of
                 None \<Rightarrow> None
               | Some unit \<Rightarrow>
                   if v > 2 ^ 63 div unit then None
                   else (let v' = v * unit + (if f > 0 then nat \<lfloor>fl (fl (real f) * fl (real unit / fl (real scale)))\<rfloor> else 0);
                             d' = (d + v') mod 2 ^ 64
                         in if v' > 2 ^ 63 \<or> d' > 2 ^ 63 then None else parse_units fl d' (dropWhile unit_char s2))))))"
  by pat_completeness auto

lemma dropWhile_shorter: "takeWhile P s \<noteq> [] \<Longrightarrow> length (dropWhile P s) < length s"
  by (metis length_append length_greater_0_conv less_add_same_cancel2 takeWhile_dropWhile_id)

termination parse_units
proof (relation "measure (\<lambda>(fl, d, s). length s)", goal_cases)
  case (2 fl d s a v s1 x f y scale post s2 u unit v' d')
  have "length s1 \<le> length s" using 2(3,4) leadingInt_length by blast
  moreover have "length s2 \<le> length s1" using 2(8) fraction_part_length by simp
  moreover have "length (dropWhile unit_char s2) < length s2" using 2(9,11) dropWhile_shorter by blast
  ultimately show ?case by simp
qed simp

declare parse_units.simps [simp del]

definition ParseDuration :: "(real \<Rightarrow> real) \<Rightarrow> string \<Rightarrow> duration option" where
  "ParseDuration fl s =
    (let signed = s \<noteq> [] \<and> (hd s = CHR ''-'' \<or> hd s = CHR ''+'');
         neg = (s \<noteq> [] \<and> hd s = CHR ''-'');
         s' = (if signed then tl s else s)
     in if s' = ''0'' then Some 0
        else if s' = [] then None
        else (case parse_units fl 0 s' of
           None \<Rightarrow> None
         | Some d \<Rightarrow> if neg then Some (- int d) else if d > 2 ^ 63 - 1 then None else Some (int d)))"

lemma foldl_digits_ge: "(x :: nat) \<le> foldl (\<lambda>v c. 10 * v + digit_value c) x ds"
proof (induction ds arbitrary: x)
  case (Cons c ds)
  show ?case using Cons [of "10 * x + digit_value c"] by simp
qed simp

lemma leadingInt_digits:
  assumes "\<forall>c \<in> set ds. is_digit c" "u = [] \<or> \<not> is_digit (hd u)"
    and "foldl (\<lambda>v c. 10 * v + digit_value c) x ds \<le> 2 ^ 63"
  shows "leadingInt x (ds @ u) = Some (foldl (\<lambda>v c. 10 * v + digit_value c) x ds, u)"
  using assms
proof (induction ds arbitrary: x)
  case Nil
  then show ?case by (cases u) auto
next
  case (Cons c ds)
  have le: "10 * x + digit_value c \<le> 2 ^ 63"
    using Cons.prems(3) foldl_digits_ge [of "10 * x + digit_value c" ds] by simp
  then have "\<not> x > 2 ^ 63 div 10" by simp
  moreover have "leadingInt (10 * x + digit_value c) (ds @ u)
      = Some (foldl (\<lambda>v c. 10 * v + digit_value c) (10 * x + digit_value c) ds, u)"
    using Cons by simp
  ultimately show ?case using Cons.prems(1) le by (simp add: Let_def mult.commute)
qed

text \<open>A printed number with a unit is read back, as long as it fits.\<close>

lemma ParseDuration_unit:
  assumes u: "unitMap u = Some k" and chars: "\<forall>c \<in> set u. unit_char c" and fits: "n * k < 2 ^ 63" "n \<le> 2 ^ 63 div k"
  shows "ParseDuration fl (nat_digits n @ u) = Some (int (n * k))"
proof -
  let ?s = "nat_digits n @ u"
  have ne: "u \<noteq> []" using u by (auto simp: unitMap_def)
  have k: "0 < k" using u by (auto simp: unitMap_def split: if_splits)
  have dg: "\<forall>c \<in> set (nat_digits n). is_digit c"
    using nat_digits_chars by (fastforce simp: is_digit_def)
  have hd: "is_digit (hd ?s)" using dg by (simp add: hd_append)
  then have sign: "hd ?s \<noteq> CHR ''-''" "hd ?s \<noteq> CHR ''+''" "\<not> unit_char (hd ?s)"
    by (auto simp: is_digit_def unit_char_def)
  have nd: "\<not> is_digit (hd u)" using chars hd_in_set [OF ne] by (simp add: unit_char_def)
  have "n \<le> n * k" using k by simp
  then have le: "n \<le> 2 ^ 63" using fits(1) by linarith
  have lead: "leadingInt 0 ?s = Some (n, u)"
    using leadingInt_digits [OF dg disjI2 [OF nd], of 0] le unfolding nat_digits_value by blast
  have frac: "fraction_part u = ((0, 1, False), u)"
    using ne chars by (cases u) (simp_all add: fraction_part_def unit_char_def)
  have tw: "takeWhile unit_char u = u" "dropWhile unit_char u = []"
    using chars by (simp_all only: takeWhile_eq_all_conv dropWhile_eq_Nil_conv)
  have md: "(0 + n * k) mod 2 ^ 64 = n * k" using fits(1) by simp
  have units: "parse_units fl 0 ?s = parse_units fl (n * k) []"
    unfolding parse_units.simps [of fl 0 ?s] lead
    using u fits sign(3) ne by (simp add: frac tw md not_less Let_def)
  have "parse_units fl (n * k) [] = Some (n * k)" by (simp add: parse_units.simps)
  moreover have "?s \<noteq> ''0''"
  proof
    assume s: "?s = ''0''"
    then have "length (nat_digits n) + length u = 1" by (metis One_nat_def length_Cons length_append list.size(3))
    then show False using ne by (cases "nat_digits n") (auto simp: neq_Nil_conv)
  qed
  ultimately show ?thesis using sign(1,2) fits(1) units by (simp add: ParseDuration_def Let_def)
qed

subsection \<open>Backend interfaces\<close>

text \<open>A call of a backend panics, fails or returns.\<close>

datatype 'a call = Panics go_panic | Fails string | Returns 'a

text \<open>A message sink implements \<open>PubSubInterface\<close> or \<open>QueueInterface\<close>; any other value is refused.\<close>

type_synonym 'k send_op = "string \<Rightarrow> bytes \<Rightarrow> (string \<rightharpoonup> string) \<Rightarrow> 'k \<Rightarrow> string call \<times> 'k"

datatype 'k MessageSink = PubSubSink "'k send_op" | QueueSink "'k send_op" | OtherSink

record ObjectMetadata =
  om_Size :: int
  om_ContentType :: string
  om_LastModified :: int
  om_ETag :: string

record 'o ObjectStoreInterface =
  os_Put :: "string \<Rightarrow> string \<Rightarrow> bytes \<Rightarrow> 'o \<Rightarrow> (string + unit) \<times> 'o"
  os_Get :: "string \<Rightarrow> string \<Rightarrow> 'o \<Rightarrow> (string + bytes) \<times> 'o"
  os_Delete :: "string \<Rightarrow> string \<Rightarrow> 'o \<Rightarrow> (string + unit) \<times> 'o"
  os_SetTTL :: "string \<Rightarrow> string \<Rightarrow> int \<Rightarrow> 'o \<Rightarrow> (string + unit) \<times> 'o"
  os_Exists :: "string \<Rightarrow> string \<Rightarrow> 'o \<Rightarrow> (string + bool) \<times> 'o"
  os_GetMetadata :: "string \<Rightarrow> string \<Rightarrow> 'o \<Rightarrow> (string + ObjectMetadata) \<times> 'o"

record SlotBinding =
  sb_Driver :: string
  sb_Config :: "(string \<times> go_value) list"

record ClaimCheckMessage =
  cm_ClaimID :: string
  cm_Bucket :: string
  cm_ObjectKey :: string
  cm_OriginalSize :: int
  cm_Compression :: string
  cm_ContentType :: string
  cm_Checksum :: string
  cm_ExpiresAt :: int

record message_env =
  CalculateSHA256 :: "bytes \<Rightarrow> string"
  CompressGzip :: "bytes \<Rightarrow> string + bytes"
  DecompressGzip :: "bytes \<Rightarrow> string + bytes"
  claim_Marshal :: "ClaimCheckMessage \<Rightarrow> string + bytes"
  claim_Unmarshal :: "bytes \<Rightarrow> string + ClaimCheckMessage"
  time_Marshal :: "go_time \<Rightarrow> string + bytes"
  time_Unmarshal :: "bytes \<Rightarrow> string + go_time"
  me_fl :: "real \<Rightarrow> real"
  me_oob :: "real \<Rightarrow> int"

text \<open>The driver of the in-memory publish/subscribe backend as a sink.\<close>

definition mps_sink :: "string \<Rightarrow> go_time \<Rightarrow> MemPubSub MessageSink" where
  "mps_sink messageID now = PubSubSink (\<lambda>topic payload metadata m.
     case mps_Publish messageID now topic payload metadata m of Inl e \<Rightarrow> (Panics e, m) | Inr (i, m') \<Rightarrow> (Returns i, m'))"

definition go_seconds :: "message_env \<Rightarrow> duration \<Rightarrow> int" where
  "go_seconds E d = (if d < 0 then - seconds_int64 (me_fl E) (me_oob E) (- d) else seconds_int64 (me_fl E) (me_oob E) d)"

end
