(* ===== verification/Producer.thy ===== *)
theory Producer
  imports Messaging_Slots
begin

text \<open>
  The producer pattern (\<open>src/patterns/producer\<close>): its configuration, the slots bound to it,
  publishing with deduplication, claim checks for large payloads and retries, and batching.

  The record \<open>Producer\<close> holds the fields of the Go struct and the states of the backends
  bound to its slots.  An operation reads the clock at its start and again after the calls of
  the backends; these are the arguments \<open>now\<close> and \<open>later\<close>.  The lock \<open>mu\<close> is a field,
  because \<open>Stop\<close> holds it while it flushes: an operation that needs a lock its own goroutine
  holds never returns.  Log lines are left out.
\<close>

subsection \<open>Configuration\<close>

record ProducerClaimCheckConfig =
  pcc_Enabled :: bool
  pcc_Threshold :: int
  pcc_Bucket :: string
  pcc_TTL :: int
  pcc_Compression :: string

record ProducerBehaviorConfig =
  pb_MaxRetries :: int
  pb_RetryBackoff :: string
  pb_BatchSize :: int
  pb_BatchInterval :: string
  pb_Deduplication :: bool
  pb_DeduplicationWindowDuration :: string
  pb_Compression :: bool
  pb_CompressionAlgorithm :: string
  pb_OrderingKey :: string
  pb_ClaimCheck :: "ProducerClaimCheckConfig option"

record ProducerSlotConfig =
  psl_MessageSink :: SlotBinding
  psl_StateStore :: SlotBinding
  psl_ObjectStore :: SlotBinding

record ProducerConfig =
  pc_Name :: string
  pc_Description :: string
  pc_Slots :: ProducerSlotConfig
  pc_Behavior :: ProducerBehaviorConfig

datatype producer_error =
    NameRequired | NegativeMaxRetries | NegativeBatchSize | BatchIntervalRequired
  | InvalidRetryBackoff | InvalidBatchInterval | InvalidDeduplicationWindow
  | BindWhileRunning | BadMessageSink | AlreadyRunning | SinkNotBound | NotRunning
  | DedupCheckFailed string | SinkFailed string | PublishFailed int string
  | NoObjectStore | UploadFailed string | ClaimMarshalFailed string | CompressionFailed string | UnsupportedCompression string

text \<open>The defaults are filled in on the way; the checks are in the order of the code.\<close>

definition fill_defaults :: "ProducerBehaviorConfig \<Rightarrow> ProducerBehaviorConfig" where
  "fill_defaults b =
    (let b1 = (if pb_Deduplication b \<and> pb_DeduplicationWindowDuration b = [] then b\<lparr>pb_DeduplicationWindowDuration := ''5m''\<rparr> else b);
         b2 = (if pb_Compression b1 \<and> pb_CompressionAlgorithm b1 = [] then b1\<lparr>pb_CompressionAlgorithm := ''gzip''\<rparr> else b1)
     in if pb_RetryBackoff b2 = [] then b2\<lparr>pb_RetryBackoff := ''1s''\<rparr> else b2)"

definition pr_Validate :: "(real \<Rightarrow> real) \<Rightarrow> ProducerConfig \<Rightarrow> producer_error + ProducerConfig" where
  "pr_Validate fl c =
    (let b = pc_Behavior c; b' = fill_defaults b; ok = (\<lambda>s. s = [] \<or> ParseDuration fl s \<noteq> None)
     in if pc_Name c = [] then Inl NameRequired
        else if pb_MaxRetries b < 0 then Inl NegativeMaxRetries
        else if pb_BatchSize b < 0 then Inl NegativeBatchSize
        else if pb_BatchSize b > 0 \<and> pb_BatchInterval b = [] then Inl BatchIntervalRequired
        else if \<not> ok (pb_RetryBackoff b) then Inl InvalidRetryBackoff
        else if \<not> ok (pb_BatchInterval b') then Inl InvalidBatchInterval
        else if \<not> ok (pb_DeduplicationWindowDuration b') then Inl InvalidDeduplicationWindow
        else Inr (c\<lparr>pc_Behavior := b'\<rparr>))"

definition duration_or :: "(real \<Rightarrow> real) \<Rightarrow> duration \<Rightarrow> string \<Rightarrow> duration" where
  "duration_or fl d s = (if s = [] then d else (case ParseDuration fl s of None \<Rightarrow> 0 | Some x \<Rightarrow> x))"

definition RetryBackoffDuration :: "(real \<Rightarrow> real) \<Rightarrow> ProducerBehaviorConfig \<Rightarrow> duration" where
  "RetryBackoffDuration fl b = duration_or fl 1000000000 (pb_RetryBackoff b)"

definition BatchIntervalDuration :: "(real \<Rightarrow> real) \<Rightarrow> ProducerBehaviorConfig \<Rightarrow> duration" where
  "BatchIntervalDuration fl b = duration_or fl 100000000 (pb_BatchInterval b)"

definition DeduplicationWindow :: "(real \<Rightarrow> real) \<Rightarrow> ProducerBehaviorConfig \<Rightarrow> duration" where
  "DeduplicationWindow fl b = duration_or fl 300000000000 (pb_DeduplicationWindowDuration b)"

subsection \<open>The producer\<close>

record Message =
  m_Topic :: string
  m_Payload :: bytes
  m_Metadata :: "string \<rightharpoonup> string"
  m_ID :: string
  m_retryCount :: int
  m_enqueued :: go_time

record ProducerMetrics =
  pm_MessagesPublished :: int
  pm_MessagesFailed :: int
  pm_MessagesDedup :: int
  pm_BytesPublished :: int
  pm_BatchesPublished :: int
  pm_PublishLatencyP50 :: duration
  pm_PublishLatencyP99 :: duration
  pm_LastPublishTime :: go_time
  pm_LastPublishDuration :: duration

record ('k, 's, 'o) Producer =
  pr_name :: string
  pr_config :: ProducerConfig
  pr_messageSink :: "'k MessageSink option"
  pr_stateStore :: "'s KeyValueBasicInterface option"
  pr_objectStore :: "'o ObjectStoreInterface option"
  pr_running :: bool
  pr_locked :: bool
  pr_batch :: "Message list"
  pr_batchTime :: go_time
  pr_metrics :: ProducerMetrics
  pr_sink :: 'k
  pr_store :: 's
  pr_objects :: 'o

datatype 'a presult = PrPanicked go_panic | PrBlocked | PrErr producer_error | PrOk 'a

definition no_metrics :: ProducerMetrics where
  "no_metrics = \<lparr>pm_MessagesPublished = 0, pm_MessagesFailed = 0, pm_MessagesDedup = 0, pm_BytesPublished = 0,
     pm_BatchesPublished = 0, pm_PublishLatencyP50 = 0, pm_PublishLatencyP99 = 0, pm_LastPublishTime = 0, pm_LastPublishDuration = 0\<rparr>"

definition pr_New :: "(real \<Rightarrow> real) \<Rightarrow> go_time \<Rightarrow> 'k \<Rightarrow> 's \<Rightarrow> 'o \<Rightarrow> ProducerConfig \<Rightarrow> producer_error + ('k, 's, 'o) Producer" where
  "pr_New fl now k s ob config =
    (case pr_Validate fl config of
       Inl e \<Rightarrow> Inl e
     | Inr c \<Rightarrow> Inr \<lparr>pr_name = pc_Name c, pr_config = c, pr_messageSink = None, pr_stateStore = None, pr_objectStore = None,
         pr_running = False, pr_locked = False, pr_batch = [], pr_batchTime = now, pr_metrics = no_metrics,
         pr_sink = k, pr_store = s, pr_objects = ob\<rparr>)"

definition pr_BindSlots :: "'k MessageSink \<Rightarrow> 's KeyValueBasicInterface option \<Rightarrow> 'o ObjectStoreInterface option
    \<Rightarrow> ('k, 's, 'o) Producer \<Rightarrow> unit presult \<times> ('k, 's, 'o) Producer" where
  "pr_BindSlots messageSink stateStore objectStore p =
    (if pr_locked p then (PrBlocked, p)
     else if pr_running p then (PrErr BindWhileRunning, p)
     else (case messageSink of
        OtherSink \<Rightarrow> (PrErr BadMessageSink, p)
      | _ \<Rightarrow> (PrOk (), p\<lparr>pr_messageSink := Some messageSink, pr_stateStore := stateStore, pr_objectStore := objectStore\<rparr>)))"

text \<open>
  Starting the batch flusher creates a ticker, which panics on an interval that is not
  positive; the panic of the goroutine takes the process down.
\<close>

definition pr_Start :: "(real \<Rightarrow> real) \<Rightarrow> ('k, 's, 'o) Producer \<Rightarrow> unit presult \<times> ('k, 's, 'o) Producer" where
  "pr_Start fl p =
    (if pr_locked p then (PrBlocked, p)
     else if pr_running p then (PrErr AlreadyRunning, p)
     else if Option.is_none (pr_messageSink p) then (PrErr SinkNotBound, p)
     else if pb_BatchSize (pc_Behavior (pr_config p)) > 0 \<and> BatchIntervalDuration fl (pc_Behavior (pr_config p)) \<le> 0
     then (PrPanicked NonPositiveTicker, p\<lparr>pr_running := True\<rparr>)
     else (PrOk (), p\<lparr>pr_running := True\<rparr>))"

subsection \<open>Deduplication\<close>

definition generateMessageID :: "message_env \<Rightarrow> string \<Rightarrow> bytes \<Rightarrow> string" where
  "generateMessageID E topic payload = CalculateSHA256 E (topic @ payload)"

definition dedupKey :: "('k, 's, 'o) Producer \<Rightarrow> string \<Rightarrow> string" where
  "dedupKey p messageID = ''producer:'' @ pr_name p @ '':dedup:'' @ messageID"

definition isDuplicate :: "message_env \<Rightarrow> go_time \<Rightarrow> string \<Rightarrow> ('k, 's, 'o) Producer \<Rightarrow> (string + bool) \<times> ('k, 's, 'o) Producer" where
  "isDuplicate E now messageID p =
    (case pr_stateStore p of
       None \<Rightarrow> (Inr False, p)
     | Some I \<Rightarrow>
         (case kvb_Get I now (dedupKey p messageID) (pr_store p) of
            (r, s) \<Rightarrow>
              (case r of
                 Inl e \<Rightarrow> Inl e
               | Inr None \<Rightarrow> Inr False
               | Inr (Some data) \<Rightarrow>
                   (case time_Unmarshal E data of
                      Inl e \<Rightarrow> Inl e
                    | Inr ts \<Rightarrow> Inr (now - ts < DeduplicationWindow (me_fl E) (pc_Behavior (pr_config p)))),
               p\<lparr>pr_store := s\<rparr>)))"

definition recordMessageID :: "message_env \<Rightarrow> go_time \<Rightarrow> string \<Rightarrow> ('k, 's, 'o) Producer \<Rightarrow> (string + unit) \<times> ('k, 's, 'o) Producer" where
  "recordMessageID E now messageID p =
    (case pr_stateStore p of
       None \<Rightarrow> (Inr (), p)
     | Some I \<Rightarrow>
         (case time_Marshal E now of
            Inl e \<Rightarrow> (Inl e, p)
          | Inr data \<Rightarrow>
              (case kvb_Set I now (dedupKey p messageID) data
                      (go_seconds E (DeduplicationWindow (me_fl E) (pc_Behavior (pr_config p)))) (pr_store p) of
                 (r, s) \<Rightarrow> (r, p\<lparr>pr_store := s\<rparr>))))"

definition count_dedup :: "('k, 's, 'o) Producer \<Rightarrow> ('k, 's, 'o) Producer" where
  "count_dedup p = p\<lparr>pr_metrics := (pr_metrics p)\<lparr>pm_MessagesDedup := pm_MessagesDedup (pr_metrics p) + 1\<rparr>\<rparr>"

definition count_failed :: "('k, 's, 'o) Producer \<Rightarrow> ('k, 's, 'o) Producer" where
  "count_failed p = p\<lparr>pr_metrics := (pr_metrics p)\<lparr>pm_MessagesFailed := pm_MessagesFailed (pr_metrics p) + 1\<rparr>\<rparr>"

subsection \<open>Claim checks\<close>

definition shouldUseClaimCheck :: "('k, 's, 'o) Producer \<Rightarrow> bytes \<Rightarrow> bool" where
  "shouldUseClaimCheck p payload =
    (case pb_ClaimCheck (pc_Behavior (pr_config p)) of
       None \<Rightarrow> False
     | Some cfg \<Rightarrow> pcc_Enabled cfg \<and> \<not> Option.is_none (pr_objectStore p) \<and> int (length payload) > pcc_Threshold cfg)"

definition compressPayload :: "message_env \<Rightarrow> bytes \<Rightarrow> string \<Rightarrow> producer_error + bytes" where
  "compressPayload E payload algorithm =
    (if algorithm = ''gzip'' then (case CompressGzip E payload of Inl e \<Rightarrow> Inl (CompressionFailed e) | Inr d \<Rightarrow> Inr d)
     else Inl (UnsupportedCompression algorithm))"

text \<open>The data to store and the name of the compression; a failing compression is skipped.\<close>

definition claim_data :: "message_env \<Rightarrow> ProducerClaimCheckConfig \<Rightarrow> bytes \<Rightarrow> bytes \<times> string" where
  "claim_data E cfg payload =
    (if pcc_Compression cfg \<noteq> [] \<and> pcc_Compression cfg \<noteq> ''none''
     then (case compressPayload E payload (pcc_Compression cfg) of Inl _ \<Rightarrow> (payload, ''none'') | Inr d \<Rightarrow> (d, pcc_Compression cfg))
     else (payload, ''none''))"

definition claim_of :: "message_env \<Rightarrow> string \<Rightarrow> go_time \<Rightarrow> ProducerClaimCheckConfig \<Rightarrow> string \<Rightarrow> Message \<Rightarrow> ClaimCheckMessage" where
  "claim_of E claimID now cfg name msg =
    \<lparr>cm_ClaimID = claimID, cm_Bucket = pcc_Bucket cfg, cm_ObjectKey = name @ ''/'' @ m_Topic msg @ ''/'' @ claimID,
     cm_OriginalSize = int (length (m_Payload msg)), cm_Compression = snd (claim_data E cfg (m_Payload msg)),
     cm_ContentType = (case m_Metadata msg ''content-type'' of None \<Rightarrow> [] | Some v \<Rightarrow> v),
     cm_Checksum = CalculateSHA256 E (m_Payload msg),
     cm_ExpiresAt = (if pcc_TTL cfg > 0 then unix_seconds (now + int64 (pcc_TTL cfg * 1000000000)) else 0)\<rparr>"

definition createClaimCheck :: "message_env \<Rightarrow> string \<Rightarrow> go_time \<Rightarrow> Message \<Rightarrow> ('k, 's, 'o) Producer
    \<Rightarrow> (producer_error + bytes \<times> (string \<rightharpoonup> string)) \<times> ('k, 's, 'o) Producer" where
  "createClaimCheck E claimID now msg p =
    (case (pr_objectStore p, pb_ClaimCheck (pc_Behavior (pr_config p))) of
       (Some ob, Some cfg) \<Rightarrow>
         (let claim = claim_of E claimID now cfg (pr_name p) msg
          in case os_Put ob (pcc_Bucket cfg) (cm_ObjectKey claim) (fst (claim_data E cfg (m_Payload msg))) (pr_objects p) of
               (Inl e, o1) \<Rightarrow> (Inl (UploadFailed e), p\<lparr>pr_objects := o1\<rparr>)
             | (Inr _, o1) \<Rightarrow>
                 (let o2 = (if pcc_TTL cfg > 0 then snd (os_SetTTL ob (pcc_Bucket cfg) (cm_ObjectKey claim) (pcc_TTL cfg) o1) else o1)
                  in case claim_Marshal E claim of
                       Inl e \<Rightarrow> (Inl (ClaimMarshalFailed e), p\<lparr>pr_objects := o2\<rparr>)
                     | Inr payload \<Rightarrow> (Inr (payload, (m_Metadata msg)(''prism-claim-check'' \<mapsto> ''true'')), p\<lparr>pr_objects := o2\<rparr>)))
     | _ \<Rightarrow> (Inl NoObjectStore, p))"

subsection \<open>Publishing\<close>

definition sink_op :: "('k, 's, 'o) Producer \<Rightarrow> 'k send_op" where
  "sink_op p = (case pr_messageSink p of
     Some (PubSubSink f) \<Rightarrow> f | Some (QueueSink f) \<Rightarrow> f | _ \<Rightarrow> (\<lambda>_ _ _ k. (Returns [], k)))"

text \<open>
  The loop over the attempts: the pauses it makes are collected in \<open>slept\<close>, and \<open>err\<close> is the
  variable that holds the last error.
\<close>

function publish_loop :: "('k \<Rightarrow> string call \<times> 'k) \<Rightarrow> int \<Rightarrow> duration \<Rightarrow> int \<Rightarrow> string option \<Rightarrow> duration list \<Rightarrow> 'k
    \<Rightarrow> unit call \<times> duration list \<times> 'k" where
  "publish_loop send maxRetries backoff attempt err slept k =
    (if attempt \<le> maxRetries
     then (let slept' = (if attempt > 0 then slept @ [int64 (attempt * backoff)] else slept)
           in case send k of
                (Panics e, k') \<Rightarrow> (Panics e, slept', k')
              | (Returns _, k') \<Rightarrow> (Returns (), slept', k')
              | (Fails e, k') \<Rightarrow> publish_loop send maxRetries backoff (attempt + 1) (Some e) slept' k')
     else (case err of None \<Rightarrow> Returns () | Some e \<Rightarrow> Fails e, slept, k))"
  by pat_completeness auto
termination publish_loop by (relation "measure (\<lambda>(send, maxRetries, backoff, attempt, err, slept, k). nat (maxRetries + 1 - attempt))") auto

declare publish_loop.simps [simp del]

definition count_published :: "go_time \<Rightarrow> go_time \<Rightarrow> Message list \<Rightarrow> ('k, 's, 'o) Producer \<Rightarrow> ('k, 's, 'o) Producer" where
  "count_published now later msgs p =
    (let q = pr_metrics p
     in p\<lparr>pr_metrics := q\<lparr>pm_MessagesPublished := pm_MessagesPublished q + int (length msgs),
            pm_BytesPublished := pm_BytesPublished q + sum_list (map (int \<circ> length \<circ> m_Payload) msgs),
            pm_LastPublishTime := later, pm_LastPublishDuration := later - now\<rparr>\<rparr>)"

definition publishMessage :: "message_env \<Rightarrow> string \<Rightarrow> go_time \<Rightarrow> go_time \<Rightarrow> Message \<Rightarrow> ('k, 's, 'o) Producer
    \<Rightarrow> unit presult \<times> ('k, 's, 'o) Producer" where
  "publishMessage E claimID now later msg p =
    (let b = pc_Behavior (pr_config p)
     in case (if shouldUseClaimCheck p (m_Payload msg) then createClaimCheck E claimID now msg p
              else (Inr (m_Payload msg, m_Metadata msg), p)) of
          (Inl e, p1) \<Rightarrow> (PrErr e, p1)
        | (Inr (payload, metadata), p1) \<Rightarrow>
            (case publish_loop (sink_op p1 (m_Topic msg) payload metadata) (pb_MaxRetries b)
                    (RetryBackoffDuration (me_fl E) b) 0 None [] (pr_sink p1) of
               (r, slept, k) \<Rightarrow>
                 (let p2 = p1\<lparr>pr_sink := k\<rparr>
                  in case r of
                       Panics e \<Rightarrow> (PrPanicked e, p2)
                     | Fails e \<Rightarrow> (PrErr (PublishFailed (pb_MaxRetries b) e), count_failed p2)
                     | Returns _ \<Rightarrow>
                         (let p3 = count_published now later [msg] p2
                          in (PrOk (), if m_ID msg \<noteq> [] \<and> pb_Deduplication b then snd (recordMessageID E later (m_ID msg) p3) else p3)))))"

subsection \<open>Batches\<close>

text \<open>The first loop of \<open>PublishBatch\<close> drops the messages published before and fills in the identifiers.\<close>

fun dedup_filter :: "message_env \<Rightarrow> go_time \<Rightarrow> Message list \<Rightarrow> ('k, 's, 'o) Producer
    \<Rightarrow> (string + Message list) \<times> ('k, 's, 'o) Producer" where
  "dedup_filter E now [] p = (Inr [], p)"
| "dedup_filter E now (msg # msgs) p =
    (let msg' = (if m_ID msg = [] then msg\<lparr>m_ID := generateMessageID E (m_Topic msg) (m_Payload msg)\<rparr> else msg)
     in case isDuplicate E now (m_ID msg') p of
          (Inl e, p1) \<Rightarrow> (Inl e, p1)
        | (Inr True, p1) \<Rightarrow> dedup_filter E now msgs (count_dedup p1)
        | (Inr False, p1) \<Rightarrow>
            (case dedup_filter E now msgs p1 of (Inl e, p2) \<Rightarrow> (Inl e, p2) | (Inr ms, p2) \<Rightarrow> (Inr (msg' # ms), p2)))"

fun send_batch :: "'k send_op \<Rightarrow> Message list \<Rightarrow> 'k \<Rightarrow> unit call \<times> 'k" where
  "send_batch f [] k = (Returns (), k)"
| "send_batch f (msg # msgs) k =
    (case f (m_Topic msg) (m_Payload msg) (m_Metadata msg) k of
       (Panics e, k') \<Rightarrow> (Panics e, k')
     | (Fails e, k') \<Rightarrow> (Fails e, k')
     | (Returns _, k') \<Rightarrow> send_batch f msgs k')"

definition PublishBatch :: "message_env \<Rightarrow> go_time \<Rightarrow> go_time \<Rightarrow> Message list \<Rightarrow> ('k, 's, 'o) Producer
    \<Rightarrow> unit presult \<times> ('k, 's, 'o) Producer" where
  "PublishBatch E now later messages p =
    (let dedup = pb_Deduplication (pc_Behavior (pr_config p))
     in if pr_locked p then (PrBlocked, p)
        else if \<not> pr_running p then (PrErr NotRunning, p)
        else if messages = [] then (PrOk (), p)
        else (case (if dedup then dedup_filter E now messages p else (Inr messages, p)) of
           (Inl e, p1) \<Rightarrow> (PrErr (DedupCheckFailed e), p1)
         | (Inr msgs, p1) \<Rightarrow>
             (if msgs = [] then (PrOk (), p1)
              else (case send_batch (sink_op p1) msgs (pr_sink p1) of
                 (Panics e, k) \<Rightarrow> (PrPanicked e, p1\<lparr>pr_sink := k\<rparr>)
               | (Fails e, k) \<Rightarrow> (PrErr (SinkFailed e), count_failed (p1\<lparr>pr_sink := k\<rparr>))
               | (Returns _, k) \<Rightarrow>
                   (let p2 = count_published now later msgs (p1\<lparr>pr_sink := k\<rparr>);
                        p3 = p2\<lparr>pr_metrics := (pr_metrics p2)\<lparr>pm_BatchesPublished := pm_BatchesPublished (pr_metrics p2) + 1\<rparr>\<rparr>
                    in (PrOk (), if dedup then fold (\<lambda>msg q. snd (recordMessageID E later (m_ID msg) q)) msgs p3 else p3))))))"

definition flushBatchLocked :: "message_env \<Rightarrow> go_time \<Rightarrow> go_time \<Rightarrow> ('k, 's, 'o) Producer \<Rightarrow> unit presult \<times> ('k, 's, 'o) Producer" where
  "flushBatchLocked E now later p =
    (if pr_batch p = [] then (PrOk (), p)
     else PublishBatch E now later (pr_batch p) (p\<lparr>pr_batch := [], pr_batchTime := now\<rparr>))"

text \<open>\<open>Flush\<close>, the ticks of the batch flusher and \<open>flushBatch\<close> are this operation.\<close>

definition Flush :: "message_env \<Rightarrow> go_time \<Rightarrow> go_time \<Rightarrow> ('k, 's, 'o) Producer \<Rightarrow> unit presult \<times> ('k, 's, 'o) Producer" where
  "Flush E now later p = flushBatchLocked E now later p"

definition addToBatch :: "message_env \<Rightarrow> go_time \<Rightarrow> go_time \<Rightarrow> Message \<Rightarrow> ('k, 's, 'o) Producer \<Rightarrow> unit presult \<times> ('k, 's, 'o) Producer" where
  "addToBatch E now later msg p =
    (let p1 = p\<lparr>pr_batch := pr_batch p @ [msg]\<rparr>
     in if int (length (pr_batch p1)) \<ge> pb_BatchSize (pc_Behavior (pr_config p)) then flushBatchLocked E now later p1
        else (PrOk (), p1))"

definition PublishWithID :: "message_env \<Rightarrow> string \<Rightarrow> go_time \<Rightarrow> go_time \<Rightarrow> string \<Rightarrow> bytes \<Rightarrow> (string \<rightharpoonup> string) \<Rightarrow> string
    \<Rightarrow> ('k, 's, 'o) Producer \<Rightarrow> unit presult \<times> ('k, 's, 'o) Producer" where
  "PublishWithID E claimID now later topic payload metadata i p =
    (let b = pc_Behavior (pr_config p);
         i' = (if i = [] \<and> pb_Deduplication b then generateMessageID E topic payload else i);
         msg = \<lparr>m_Topic = topic, m_Payload = payload, m_Metadata = metadata, m_ID = i', m_retryCount = 0, m_enqueued = now\<rparr>
     in if pr_locked p then (PrBlocked, p)
        else if \<not> pr_running p then (PrErr NotRunning, p)
        else (case (if i' \<noteq> [] \<and> pb_Deduplication b then isDuplicate E now i' p else (Inr False, p)) of
           (Inl e, p1) \<Rightarrow> (PrErr (DedupCheckFailed e), p1)
         | (Inr True, p1) \<Rightarrow> (PrOk (), count_dedup p1)
         | (Inr False, p1) \<Rightarrow>
             (if pb_BatchSize b > 0 then addToBatch E now later msg p1 else publishMessage E claimID now later msg p1)))"

definition pr_Publish :: "message_env \<Rightarrow> string \<Rightarrow> go_time \<Rightarrow> go_time \<Rightarrow> string \<Rightarrow> bytes \<Rightarrow> (string \<rightharpoonup> string)
    \<Rightarrow> ('k, 's, 'o) Producer \<Rightarrow> unit presult \<times> ('k, 's, 'o) Producer" where
  "pr_Publish E claimID now later topic payload metadata p = PublishWithID E claimID now later topic payload metadata [] p"

text \<open>\<open>Stop\<close> keeps the lock while it flushes, and gives it back when it returns.\<close>

definition pr_Stop :: "message_env \<Rightarrow> go_time \<Rightarrow> go_time \<Rightarrow> ('k, 's, 'o) Producer \<Rightarrow> unit presult \<times> ('k, 's, 'o) Producer" where
  "pr_Stop E now later p =
    (if pr_locked p then (PrBlocked, p)
     else if \<not> pr_running p then (PrOk (), p)
     else (case flushBatchLocked E now later (p\<lparr>pr_locked := True\<rparr>) of
        (PrBlocked, p1) \<Rightarrow> (PrBlocked, p1)
      | (PrPanicked e, p1) \<Rightarrow> (PrPanicked e, p1)
      | (_, p1) \<Rightarrow> (PrOk (), p1\<lparr>pr_running := False, pr_locked := False\<rparr>)))"

definition pr_Health :: "('k, 's, 'o) Producer \<Rightarrow> HealthStatus presult" where
  "pr_Health p =
    (let q = pr_metrics p;
         details = [(''name'', pr_name p), (''running'', if pr_running p then ''true'' else ''false''),
           (''published'', itoa (pm_MessagesPublished q)), (''failed'', itoa (pm_MessagesFailed q)), (''deduped'', itoa (pm_MessagesDedup q))]
     in if pr_locked p then PrBlocked
        else if pm_MessagesFailed q > pm_MessagesPublished q div 10
        then PrOk \<lparr>hs_Status = HealthDegraded, hs_Message = ''high failure rate: '' @ itoa (pm_MessagesFailed q)
               @ '' failures out of '' @ itoa (pm_MessagesPublished q) @ '' published'', hs_Details = details\<rparr>
        else if \<not> pr_running p then PrOk \<lparr>hs_Status = HealthDegraded, hs_Message = ''producer not running'', hs_Details = details\<rparr>
        else PrOk \<lparr>hs_Status = HealthHealthy, hs_Message = ''producer operating normally'', hs_Details = details\<rparr>)"

lemma recordMessageID_fields [simp]:
  "pr_sink (snd (recordMessageID E t i q)) = pr_sink q" "pr_metrics (snd (recordMessageID E t i q)) = pr_metrics q"
  "pr_objects (snd (recordMessageID E t i q)) = pr_objects q"
  by (auto simp: recordMessageID_def split: option.splits sum.splits prod.splits)

subsection \<open>Retries\<close>

text \<open>\<open>failing send n k\<close> is the state of the sink after \<open>n\<close> attempts that all fail.\<close>

fun failing :: "('k \<Rightarrow> string call \<times> 'k) \<Rightarrow> nat \<Rightarrow> 'k \<Rightarrow> 'k option" where
  "failing send 0 k = Some k"
| "failing send (Suc n) k = (case send k of (Fails e, k') \<Rightarrow> failing send n k' | _ \<Rightarrow> None)"

lemma publish_loop_result:
  assumes "attempt \<le> maxRetries + 1" "attempt = maxRetries + 1 \<longrightarrow> err \<noteq> None"
    and "publish_loop send maxRetries backoff attempt err slept k = (r, slept', k')"
  shows "\<exists>n ks. failing send n k = Some ks \<and> attempt + int n \<le> maxRetries + 1
    \<and> (case r of Panics e \<Rightarrow> attempt + int n \<le> maxRetries \<and> send ks = (Panics e, k')
        | Fails e \<Rightarrow> attempt + int n = maxRetries + 1 \<and> k' = ks
        | Returns _ \<Rightarrow> attempt + int n \<le> maxRetries \<and> (\<exists>i. send ks = (Returns i, k')))"
  using assms
proof (induction send maxRetries backoff attempt err slept k rule: publish_loop.induct)
  case (1 send maxRetries backoff attempt err slept k)
  show ?case
  proof (cases "attempt \<le> maxRetries")
    case False
    then have "r = Fails (the err)" "k' = k"
      using "1.prems" by (auto simp: publish_loop.simps [of send maxRetries])
    then show ?thesis using False "1.prems"(1) by (intro exI [of _ 0]) auto
  next
    case True
    obtain a k1 where s: "send k = (a, k1)" by fastforce
    show ?thesis
    proof (cases a)
      case (Fails e)
      let ?slept = "if attempt > 0 then slept @ [int64 (attempt * backoff)] else slept"
      have "publish_loop send maxRetries backoff (attempt + 1) (Some e) ?slept k1 = (r, slept', k')"
        using "1.prems"(3) True s Fails by (subst (asm) publish_loop.simps) (simp add: Let_def)
      then obtain n ks where n: "failing send n k1 = Some ks" "attempt + 1 + int n \<le> maxRetries + 1"
        "case r of Panics e \<Rightarrow> attempt + 1 + int n \<le> maxRetries \<and> send ks = (Panics e, k')
          | Fails e \<Rightarrow> attempt + 1 + int n = maxRetries + 1 \<and> k' = ks
          | Returns _ \<Rightarrow> attempt + 1 + int n \<le> maxRetries \<and> (\<exists>i. send ks = (Returns i, k'))"
        using "1.IH" [OF True refl s [symmetric] Fails] True by auto
      then show ?thesis using s Fails by (intro exI [of _ "Suc n"] exI [of _ ks]) (auto split: call.splits)
    qed (use "1.prems"(3) True s in \<open>auto simp: publish_loop.simps [of send maxRetries] Let_def intro!: exI [of _ 0]\<close>)
  qed
qed

text \<open>
  C33: a message within the claim check threshold is offered to the sink until the sink accepts
  it, at most \<open>MaxRetries + 1\<close> times: every offer but the last fails, success is reported exactly
  when the last one is accepted, and the published and failed counters follow.
\<close>

theorem publish_retries:
  assumes "b = pc_Behavior (pr_config p)" "0 \<le> pb_MaxRetries b" "\<not> shouldUseClaimCheck p (m_Payload msg)"
    and send: "send = sink_op p (m_Topic msg) (m_Payload msg) (m_Metadata msg)"
    and run: "publishMessage E claimID now later msg p = (r, p')"
  shows "\<exists>n k. failing send n (pr_sink p) = Some k \<and>
    (case r of
       PrOk _ \<Rightarrow> int n \<le> pb_MaxRetries b \<and> (\<exists>i. send k = (Returns i, pr_sink p'))
         \<and> pm_MessagesPublished (pr_metrics p') = pm_MessagesPublished (pr_metrics p) + 1
         \<and> pm_MessagesFailed (pr_metrics p') = pm_MessagesFailed (pr_metrics p)
     | PrErr _ \<Rightarrow> int n = pb_MaxRetries b + 1 \<and> pr_sink p' = k
         \<and> pm_MessagesPublished (pr_metrics p') = pm_MessagesPublished (pr_metrics p)
         \<and> pm_MessagesFailed (pr_metrics p') = pm_MessagesFailed (pr_metrics p) + 1
     | PrPanicked e \<Rightarrow> int n \<le> pb_MaxRetries b \<and> send k = (Panics e, pr_sink p')
     | PrBlocked \<Rightarrow> False)"
proof -
  obtain l slept k where l: "publish_loop send (pb_MaxRetries b) (RetryBackoffDuration (me_fl E) b) 0 None [] (pr_sink p) = (l, slept, k)"
    by (metis prod_cases3)
  have res: "(r, p') = (case l of Panics e \<Rightarrow> (PrPanicked e, p\<lparr>pr_sink := k\<rparr>)
     | Fails e \<Rightarrow> (PrErr (PublishFailed (pb_MaxRetries b) e), count_failed (p\<lparr>pr_sink := k\<rparr>))
     | Returns _ \<Rightarrow> (let p3 = count_published now later [msg] (p\<lparr>pr_sink := k\<rparr>)
         in (PrOk (), if m_ID msg \<noteq> [] \<and> pb_Deduplication b then snd (recordMessageID E later (m_ID msg) p3) else p3)))"
    using run l assms(1,3) send by (auto simp: publishMessage_def Let_def)
  show ?thesis
    using publish_loop_result [OF _ _ l] assms(2) res
    by (cases l) (fastforce simp: count_failed_def count_published_def Let_def)+
qed

subsection \<open>Deduplication\<close>

context kv_store
begin

lemma duplicate_after_record:
  assumes "pr_stateStore p = Some I" "kv_inv (pr_store p)"
    and json: "time_Marshal E t0 = Inr d" "time_Unmarshal E d = Inr t0"
    and rec: "recordMessageID E t0 i p = (Inr u, p')"
    and win: "w = DeduplicationWindow (me_fl E) (pc_Behavior (pr_config p))" "go_seconds E w < 9223372037"
    and t: "t0 \<le> t" "go_seconds E w \<le> 0 \<or> t \<le> t0 + go_seconds E w * 1000000000"
  shows "\<exists>s. isDuplicate E t i p' = (Inr (t - t0 < w), p'\<lparr>pr_store := s\<rparr>)"
proof -
  obtain s1 where set: "kvb_Set I t0 (dedupKey p i) d (go_seconds E w) (pr_store p) = (Inr u, s1)" "p' = p\<lparr>pr_store := s1\<rparr>"
    using rec assms(1) json(1) win(1) by (auto simp: recordMessageID_def split: prod.splits)
  have "kv_inv s1" "live t s1 (dedupKey p i) = Some d"
    using set_law [OF assms(2) win(2) set(1)] t by auto
  then obtain s2 where "kvb_Get I t (dedupKey p i) s1 = (Inr (Some d), s2)"
    using get_law [of s1 t "dedupKey p i"] by auto
  moreover have "dedupKey p' i = dedupKey p i" by (simp add: set(2) dedupKey_def)
  ultimately show ?thesis using assms(1) json(2) win(1) set(2) by (auto simp: isDuplicate_def)
qed

end

lemma isDuplicate_frame:
  assumes "isDuplicate E now i p = (r, p')"
  shows "p' = p\<lparr>pr_store := pr_store p'\<rparr>"
  using assms by (auto simp: isDuplicate_def split: option.splits prod.splits)

lemma memstore_isDuplicate:
  assumes "pr_stateStore p = Some memstore_kv" "ms_inv (pr_store p)" "isDuplicate E now i p = (r, p')"
  shows "ms_inv (pr_store p') \<and> ms_config (pr_store p') = ms_config (pr_store p)"
  using assms ms_remove_inv [of "pr_store p"]
  by (auto simp: isDuplicate_def memstore_kv_def ms_Get_def ms_remove_def split: prod.splits if_splits)

lemma createClaimCheck_frame:
  assumes "createClaimCheck E claimID now msg p = (r, p')"
  shows "p' = p\<lparr>pr_objects := pr_objects p'\<rparr>"
  using assms by (auto simp: createClaimCheck_def Let_def split: option.splits prod.splits sum.splits if_splits)

text \<open>A published message is recorded last; until then the store is as it was.\<close>

lemma publishMessage_records:
  assumes "publishMessage E claimID now later msg p = (PrOk (), p')" "m_ID msg \<noteq> []" "pb_Deduplication (pc_Behavior (pr_config p))"
  shows "\<exists>q. p' = snd (recordMessageID E later (m_ID msg) q) \<and> pr_store q = pr_store p \<and> pr_stateStore q = pr_stateStore p
    \<and> pr_config q = pr_config p \<and> pr_name q = pr_name p \<and> pr_running q = pr_running p \<and> pr_locked q = pr_locked p"
proof -
  obtain r p1 where c: "(if shouldUseClaimCheck p (m_Payload msg) then createClaimCheck E claimID now msg p
      else (Inr (m_Payload msg, m_Metadata msg), p)) = (r, p1)" by fastforce
  then have p1: "p1 = p\<lparr>pr_objects := pr_objects p1\<rparr>"
    using createClaimCheck_frame [of E claimID now msg p r p1] by (auto split: if_splits)
  obtain payload md where r: "r = Inr (payload, md)" using assms(1) c by (cases r) (auto simp: publishMessage_def Let_def)
  obtain l slept k where l: "publish_loop (sink_op p1 (m_Topic msg) payload md) (pb_MaxRetries (pc_Behavior (pr_config p)))
      (RetryBackoffDuration (me_fl E) (pc_Behavior (pr_config p))) 0 None [] (pr_sink p1) = (l, slept, k)" by (metis prod_cases3)
  have "p' = snd (recordMessageID E later (m_ID msg) (count_published now later [msg] (p1\<lparr>pr_sink := k\<rparr>)))"
    using assms c r l by (cases l) (auto simp: publishMessage_def Let_def)
  moreover have "pr_store (count_published now later [msg] (p1\<lparr>pr_sink := k\<rparr>)) = pr_store p1"
    "pr_stateStore (count_published now later [msg] (p1\<lparr>pr_sink := k\<rparr>)) = pr_stateStore p1"
    "pr_config (count_published now later [msg] (p1\<lparr>pr_sink := k\<rparr>)) = pr_config p1"
    "pr_name (count_published now later [msg] (p1\<lparr>pr_sink := k\<rparr>)) = pr_name p1"
    "pr_running (count_published now later [msg] (p1\<lparr>pr_sink := k\<rparr>)) = pr_running p1"
    "pr_locked (count_published now later [msg] (p1\<lparr>pr_sink := k\<rparr>)) = pr_locked p1"
    by (simp_all add: count_published_def Let_def)
  ultimately show ?thesis by (metis p1 Producer.select_convs Producer.update_convs(13) Producer.surjective)
qed


subsection \<open>Batches\<close>

text \<open>\<open>accepted f msgs k\<close> is the state of the sink after it has accepted the messages one by one.\<close>

fun accepted :: "'k send_op \<Rightarrow> Message list \<Rightarrow> 'k \<Rightarrow> 'k option" where
  "accepted f [] k = Some k"
| "accepted f (msg # msgs) k =
    (case f (m_Topic msg) (m_Payload msg) (m_Metadata msg) k of (Returns _, k') \<Rightarrow> accepted f msgs k' | _ \<Rightarrow> None)"

lemma send_batch_result:
  assumes "send_batch f msgs k = (r, k')"
  shows "(case r of
      Returns _ \<Rightarrow> accepted f msgs k = Some k'
    | Fails e \<Rightarrow> (\<exists>pre m post k1. msgs = pre @ m # post \<and> accepted f pre k = Some k1
        \<and> f (m_Topic m) (m_Payload m) (m_Metadata m) k1 = (Fails e, k'))
    | Panics e \<Rightarrow> (\<exists>pre m post k1. msgs = pre @ m # post \<and> accepted f pre k = Some k1
        \<and> f (m_Topic m) (m_Payload m) (m_Metadata m) k1 = (Panics e, k')))"
  using assms
proof (induction msgs arbitrary: k)
  case (Cons x msgs)
  obtain a k1 where s: "f (m_Topic x) (m_Payload x) (m_Metadata x) k = (a, k1)" by fastforce
  show ?case
  proof (cases a)
    case (Returns i)
    note IH = Cons.IH [of k1]
    show ?thesis
    proof (cases r)
      case (Fails e)
      then obtain pre m post k2 where "msgs = pre @ m # post" "accepted f pre k1 = Some k2"
        "f (m_Topic m) (m_Payload m) (m_Metadata m) k2 = (Fails e, k')" using IH Cons.prems s Returns by auto
      then have "x # msgs = (x # pre) @ m # post \<and> accepted f (x # pre) k = Some k2
          \<and> f (m_Topic m) (m_Payload m) (m_Metadata m) k2 = (Fails e, k')" using s Returns by simp
      then show ?thesis unfolding Fails call.case by blast
    next
      case (Panics e)
      then obtain pre m post k2 where "msgs = pre @ m # post" "accepted f pre k1 = Some k2"
        "f (m_Topic m) (m_Payload m) (m_Metadata m) k2 = (Panics e, k')" using IH Cons.prems s Returns by auto
      then have "x # msgs = (x # pre) @ m # post \<and> accepted f (x # pre) k = Some k2
          \<and> f (m_Topic m) (m_Payload m) (m_Metadata m) k2 = (Panics e, k')" using s Returns by simp
      then show ?thesis unfolding Panics call.case by blast
    qed (use IH Cons.prems s Returns in auto)
  qed (use Cons.prems s in \<open>auto intro!: exI [of _ "[]"]\<close>)
qed auto

text \<open>
  Without deduplication, flushing offers the pending messages to the sink in order and
  unchanged, whatever their size, and empties the batch on every branch.  If the sink refuses
  one of them the flush stops there: that message is not retried, and it and the messages
  behind it are no longer pending.
\<close>

theorem flush_drops_after_failure:
  assumes "pr_running p" "\<not> pr_locked p" "\<not> pb_Deduplication (pc_Behavior (pr_config p))"
    and "pr_batch p \<noteq> []" "Flush E now later p = (r, p')"
  shows "pr_batch p' = [] \<and> (case r of
      PrOk _ \<Rightarrow> accepted (sink_op p) (pr_batch p) (pr_sink p) = Some (pr_sink p')
    | PrErr e \<Rightarrow> (\<exists>pre m post k1 x. pr_batch p = pre @ m # post \<and> accepted (sink_op p) pre (pr_sink p) = Some k1
        \<and> sink_op p (m_Topic m) (m_Payload m) (m_Metadata m) k1 = (Fails x, pr_sink p') \<and> e = SinkFailed x)
    | PrPanicked e \<Rightarrow> (\<exists>pre m post k1. pr_batch p = pre @ m # post \<and> accepted (sink_op p) pre (pr_sink p) = Some k1
        \<and> sink_op p (m_Topic m) (m_Payload m) (m_Metadata m) k1 = (Panics e, pr_sink p'))
    | PrBlocked \<Rightarrow> False)"
proof -
  obtain a k where s: "send_batch (sink_op p) (pr_batch p) (pr_sink p) = (a, k)" by fastforce
  let ?q = "p\<lparr>pr_batch := [], pr_batchTime := now\<rparr>"
  have "sink_op ?q = sink_op p" by (simp add: sink_op_def)
  then have "(r, p') = (case a of Panics e \<Rightarrow> (PrPanicked e, ?q\<lparr>pr_sink := k\<rparr>)
     | Fails e \<Rightarrow> (PrErr (SinkFailed e), count_failed (?q\<lparr>pr_sink := k\<rparr>))
     | Returns _ \<Rightarrow> (let p2 = count_published now later (pr_batch p) (?q\<lparr>pr_sink := k\<rparr>)
         in (PrOk (), p2\<lparr>pr_metrics := (pr_metrics p2)\<lparr>pm_BatchesPublished := pm_BatchesPublished (pr_metrics p2) + 1\<rparr>\<rparr>)))"
    using assms s by (cases a) (auto simp: Flush_def flushBatchLocked_def PublishBatch_def Let_def)
  then show ?thesis
    using send_batch_result [OF s] by (cases a) (auto simp: count_failed_def count_published_def Let_def)
qed

text \<open>
  Stopping a running producer that has pending messages never returns: \<open>Stop\<close> holds the
  lock that \<open>PublishBatch\<close> asks for.  The pending messages are not sent, and every later call
  that needs the lock waits for ever as well.
\<close>

theorem stop_with_pending_batch_blocks:
  assumes "pr_running p" "\<not> pr_locked p" "pr_batch p \<noteq> []"
  shows "\<exists>p'. pr_Stop E now later p = (PrBlocked, p') \<and> pr_sink p' = pr_sink p \<and> pr_batch p' = []
    \<and> pr_Publish E claimID t u topic payload metadata p' = (PrBlocked, p')
    \<and> pr_Stop E t u p' = (PrBlocked, p') \<and> pr_Health p' = PrBlocked"
  using assms
  by (simp add: pr_Stop_def flushBatchLocked_def PublishBatch_def Let_def pr_Publish_def PublishWithID_def pr_Health_def)

text \<open>
  Deduplication does not look inside a batch: the same message published twice with a
  batch size of two reaches the sink twice.
\<close>

theorem batch_keeps_duplicates:
  assumes "b = pc_Behavior (pr_config p)" "pb_Deduplication b" "pb_BatchSize b = 2"
    and "pr_running p" "\<not> pr_locked p" "pr_batch p = []" "pr_stateStore p = Some memstore_kv" "pr_store p = NewMemStore"
    and "sink_op p topic payload metadata (pr_sink p) = (Returns i, k1)" "sink_op p topic payload metadata k1 = (Returns j, k2)"
  shows "\<exists>p' p''. pr_Publish E c1 t1 u1 topic payload metadata p = (PrOk (), p')
    \<and> pr_Publish E c2 t2 u2 topic payload metadata p' = (PrOk (), p'') \<and> pr_sink p'' = k2"
proof -
  have nodup: "isDuplicate E t i q = (Inr False, q)" if "pr_stateStore q = Some memstore_kv" "pr_store q = NewMemStore"
    for t i and q :: "('a, MemStore, 'b) Producer"
    using that by (simp add: isDuplicate_def memstore_kv_def ms_Get_def ms_expired_def NewMemStore_def)
  have sop: "sink_op (p\<lparr>pr_batch := x\<rparr>) = sink_op p" "sink_op (p\<lparr>pr_batch := x, pr_batchTime := y\<rparr>) = sink_op p" for x y
    by (simp_all add: sink_op_def)
  show ?thesis
    using assms
    by (simp add: pr_Publish_def PublishWithID_def addToBatch_def flushBatchLocked_def PublishBatch_def Let_def nodup sop count_published_def)
qed

subsection \<open>A small producer\<close>

definition demo_messages :: message_env where
  "demo_messages = \<lparr>CalculateSHA256 = (\<lambda>x. CHR ''h'' # x), CompressGzip = Inr, DecompressGzip = Inr,
     claim_Marshal = (\<lambda>c. Inr (cm_ObjectKey c)), claim_Unmarshal = (\<lambda>_. Inl []),
     time_Marshal = (\<lambda>t. Inr (itoa t)), time_Unmarshal = (\<lambda>_. Inr 7), me_fl = id, me_oob = (\<lambda>_. 0)\<rparr>"

definition demo_behavior :: "bool \<Rightarrow> int \<Rightarrow> ProducerBehaviorConfig" where
  "demo_behavior dedup n = \<lparr>pb_MaxRetries = 2, pb_RetryBackoff = [], pb_BatchSize = n, pb_BatchInterval = [],
     pb_Deduplication = dedup, pb_DeduplicationWindowDuration = [], pb_Compression = False, pb_CompressionAlgorithm = [],
     pb_OrderingKey = [], pb_ClaimCheck = None\<rparr>"

definition no_binding :: SlotBinding where
  "no_binding = \<lparr>sb_Driver = [], sb_Config = []\<rparr>"

text \<open>A sink that keeps what it accepts and refuses the payload \<open>bad\<close>.\<close>

definition demo_sink :: "(string \<times> bytes) list MessageSink" where
  "demo_sink = QueueSink (\<lambda>topic payload metadata k. if payload = ''bad'' then (Fails ''full'', k) else (Returns topic, k @ [(topic, payload)]))"

definition demo_producer :: "bool \<Rightarrow> int \<Rightarrow> Message list \<Rightarrow> ((string \<times> bytes) list, MemStore, unit) Producer" where
  "demo_producer dedup n msgs = \<lparr>pr_name = ''p'',
     pr_config = \<lparr>pc_Name = ''p'', pc_Description = [], pc_Slots = \<lparr>psl_MessageSink = no_binding, psl_StateStore = no_binding, psl_ObjectStore = no_binding\<rparr>,
       pc_Behavior = demo_behavior dedup n\<rparr>,
     pr_messageSink = Some demo_sink, pr_stateStore = Some memstore_kv, pr_objectStore = None, pr_running = True, pr_locked = False,
     pr_batch = msgs, pr_batchTime = 0, pr_metrics = no_metrics, pr_sink = [], pr_store = NewMemStore, pr_objects = ()\<rparr>"

definition demo_message :: "bytes \<Rightarrow> Message" where
  "demo_message payload = \<lparr>m_Topic = ''ab'', m_Payload = payload, m_Metadata = Map.empty, m_ID = [], m_retryCount = 0, m_enqueued = 0\<rparr>"

lemma demo_sink_op:
  "sink_op (demo_producer dedup n msgs) topic payload metadata k =
    (if payload = ''bad'' then (Fails ''full'', k) else (Returns topic, k @ [(topic, payload)]))"
  by (simp add: sink_op_def demo_producer_def demo_sink_def)

theorem publish_retries_witness:
  "\<exists>n k. failing (sink_op (demo_producer False 0 []) ''ab'' ''bad'' Map.empty) n [] = Some k \<and> int n = 3"
proof -
  let ?p = "demo_producer False 0 []"
  have no: "\<not> shouldUseClaimCheck ?p (m_Payload (demo_message ''bad''))"
    by (simp add: shouldUseClaimCheck_def demo_producer_def demo_behavior_def)
  obtain p' e where run: "publishMessage demo_messages [] 5 7 (demo_message ''bad'') ?p = (PrErr e, p')"
    by (simp add: publishMessage_def no Let_def publish_loop.simps sink_op_def demo_sink_def demo_message_def demo_producer_def demo_behavior_def
      shouldUseClaimCheck_def)
  show ?thesis
    using publish_retries [OF refl _ no refl run] by (auto simp: demo_producer_def demo_behavior_def demo_message_def)
qed


theorem flush_drops_after_failure_witness:
  "\<exists>p'. Flush demo_messages 5 7 (demo_producer False 4 (map demo_message [''x'', ''bad'', ''y''])) = (PrErr (SinkFailed ''full''), p')
     \<and> pr_sink p' = [(''ab'', ''x'')] \<and> pr_batch p' = []"
proof -
  let ?p = "demo_producer False 4 (map demo_message [''x'', ''bad'', ''y''])"
  obtain p' where run: "Flush demo_messages 5 7 ?p = (PrErr (SinkFailed ''full''), p')" "pr_sink p' = [(''ab'', ''x'')]"
    by (simp add: Flush_def flushBatchLocked_def PublishBatch_def Let_def demo_producer_def demo_behavior_def sink_op_def demo_sink_def
      demo_message_def count_failed_def)
  then show ?thesis
    using flush_drops_after_failure [OF _ _ _ _ run(1)] by (simp add: demo_producer_def demo_behavior_def)
qed

theorem stop_with_pending_batch_blocks_witness:
  "\<exists>p'. pr_Stop demo_messages 5 7 (demo_producer False 4 [demo_message ''x'']) = (PrBlocked, p') \<and> pr_sink p' = []"
  using stop_with_pending_batch_blocks [of "demo_producer False 4 [demo_message ''x'']" demo_messages 5 7 "[]" 8 9 "[]" "[]" Map.empty]
  by (auto simp: demo_producer_def)

theorem batch_keeps_duplicates_witness:
  "\<exists>p' p''. pr_Publish demo_messages [] 5 5 ''ab'' ''c'' Map.empty (demo_producer True 2 []) = (PrOk (), p')
     \<and> pr_Publish demo_messages [] 6 6 ''ab'' ''c'' Map.empty p' = (PrOk (), p'') \<and> pr_sink p'' = [(''ab'', ''c''), (''ab'', ''c'')]"
  by (rule batch_keeps_duplicates [OF refl])
     (simp_all add: demo_sink_op, simp_all add: demo_producer_def demo_behavior_def)

end
