(* ===== verification/Consumer.thy ===== *)
theory Consumer
  imports Messaging_Slots
begin

text \<open>
  The consumer pattern (\<open>src/patterns/consumer\<close>): its configuration and slots, the loop that
  consumes messages, claim checks, dead letters and the position kept in the state store.

  A call of \<open>Start\<close> adds a goroutine that runs \<open>consume\<close>; the goroutines are the list
  \<open>cs_loops\<close>, and a step lets one of them load its state and subscribe, take a message or
  notice that the context is done.  The goroutines read the context from the struct, so after
  a restart they all see the new one.  The deletion of a claim runs in a goroutine of its own;
  the deletions that have not run yet are \<open>cs_deletes\<close>.  The message processor is the function
  the user gives, with a state of its own.  A call of a backend returns or fails.  A source that
  implements neither interface cannot be bound, so that subscribing to one is not reached.
\<close>

subsection \<open>Configuration\<close>

record ConsumerClaimCheckConfig =
  ccc_Enabled :: bool
  ccc_DeleteAfterRead :: bool

record ConsumerBehaviorConfig =
  cb_ConsumerGroup :: string
  cb_Topic :: string
  cb_MaxRetries :: int
  cb_BatchSize :: int
  cb_AutoCommit :: bool
  cb_CommitInterval :: string
  cb_ClaimCheck :: "ConsumerClaimCheckConfig option"

record ConsumerSlotConfig =
  csl_MessageSource :: SlotBinding
  csl_StateStore :: SlotBinding
  csl_DeadLetterQueue :: "SlotBinding option"
  csl_ObjectStore :: "SlotBinding option"

record ConsumerConfig =
  cc_Name :: string
  cc_Description :: string
  cc_Slots :: ConsumerSlotConfig
  cc_Behavior :: ConsumerBehaviorConfig

datatype consumer_error =
    ConsumerNameRequired | GroupRequired | TopicRequired | NegativeMaxRetries | NegativeBatchSize
  | BindWhileRunning | BadMessageSource | BadDeadLetter | AlreadyRunning | SourceNotBound | ProcessorNotSet
  | NoObjectStore | InvalidClaim string | RetrieveFailed string | DecompressFailed string
  | UnsupportedCompression string | ChecksumMismatch string string | ProcessorFailed string

definition cs_Validate :: "ConsumerConfig \<Rightarrow> consumer_error + unit" where
  "cs_Validate c =
    (let b = cc_Behavior c
     in if cc_Name c = [] then Inl ConsumerNameRequired
        else if cb_ConsumerGroup b = [] then Inl GroupRequired
        else if cb_Topic b = [] then Inl TopicRequired
        else if cb_MaxRetries b < 0 then Inl NegativeMaxRetries
        else if cb_BatchSize b < 0 then Inl NegativeBatchSize
        else Inr ())"

subsection \<open>The consumer\<close>

record ConsumerState =
  st_Offset :: int
  st_LastMessageID :: string
  st_LastUpdated :: go_time
  st_RetryCount :: int

record state_codec =
  state_Marshal :: "ConsumerState \<Rightarrow> string + bytes"
  state_Unmarshal :: "bytes \<Rightarrow> string + ConsumerState"

text \<open>A source subscribes to a topic for a group or receives from a queue, and answers with a channel.\<close>

datatype 'q MessageSource =
    PubSubSource "string \<Rightarrow> string \<Rightarrow> 'q \<Rightarrow> (string + nat) \<times> 'q"
  | QueueSource "string \<Rightarrow> 'q \<Rightarrow> (string + nat) \<times> 'q"
  | OtherSource

type_synonym 'd enqueue_op = "string \<Rightarrow> bytes \<Rightarrow> (string \<rightharpoonup> string) \<Rightarrow> 'd \<Rightarrow> (string + string) \<times> 'd"
type_synonym 'w MessageProcessor = "PubSubMessage \<Rightarrow> 'w \<Rightarrow> string option \<times> 'w"

datatype consume_loop = LoopStarting | LoopRunning nat ConsumerState | LoopDone

record ('q, 's, 'd, 'o, 'w) Consumer =
  cs_name :: string
  cs_config :: ConsumerConfig
  cs_messageSource :: "'q MessageSource option"
  cs_stateStore :: "'s KeyValueBasicInterface option"
  cs_deadLetter :: "'d enqueue_op option"
  cs_objectStore :: "'o ObjectStoreInterface option"
  cs_running :: bool
  cs_cancelled :: bool
  cs_processor :: "'w MessageProcessor option"
  cs_loops :: "consume_loop list"
  cs_deletes :: "(string \<times> string) list"
  cs_source :: 'q
  cs_store :: 's
  cs_dlq :: 'd
  cs_objects :: 'o
  cs_world :: 'w

definition cs_New :: "'q \<Rightarrow> 's \<Rightarrow> 'd \<Rightarrow> 'o \<Rightarrow> 'w \<Rightarrow> ConsumerConfig \<Rightarrow> consumer_error + ('q, 's, 'd, 'o, 'w) Consumer" where
  "cs_New q s d ob w config =
    (case cs_Validate config of
       Inl e \<Rightarrow> Inl e
     | Inr _ \<Rightarrow> Inr \<lparr>cs_name = cc_Name config, cs_config = config, cs_messageSource = None, cs_stateStore = None,
         cs_deadLetter = None, cs_objectStore = None, cs_running = False, cs_cancelled = False, cs_processor = None,
         cs_loops = [], cs_deletes = [], cs_source = q, cs_store = s, cs_dlq = d, cs_objects = ob, cs_world = w\<rparr>)"

text \<open>
  The slots are set one by one: a refused dead letter queue leaves the source and the state
  store bound.  The argument \<open>deadLetter\<close> is \<open>None\<close> for nil and \<open>Some None\<close> for a value that
  is not a queue.
\<close>

definition cs_BindSlots :: "'q MessageSource \<Rightarrow> 's KeyValueBasicInterface option \<Rightarrow> 'd enqueue_op option option \<Rightarrow> 'o ObjectStoreInterface option
    \<Rightarrow> ('q, 's, 'd, 'o, 'w) Consumer \<Rightarrow> (consumer_error + unit) \<times> ('q, 's, 'd, 'o, 'w) Consumer" where
  "cs_BindSlots messageSource stateStore deadLetter objectStore c =
    (if cs_running c then (Inl BindWhileRunning, c)
     else (case messageSource of
        OtherSource \<Rightarrow> (Inl BadMessageSource, c)
      | _ \<Rightarrow>
          (let c1 = c\<lparr>cs_messageSource := Some messageSource, cs_stateStore := stateStore\<rparr>
           in case deadLetter of
                None \<Rightarrow> (Inr (), c1\<lparr>cs_objectStore := objectStore\<rparr>)
              | Some None \<Rightarrow> (Inl BadDeadLetter, c1)
              | Some (Some f) \<Rightarrow> (Inr (), c1\<lparr>cs_deadLetter := Some f, cs_objectStore := objectStore\<rparr>))))"

definition SetProcessor :: "'w MessageProcessor \<Rightarrow> ('q, 's, 'd, 'o, 'w) Consumer \<Rightarrow> ('q, 's, 'd, 'o, 'w) Consumer" where
  "SetProcessor f c = c\<lparr>cs_processor := Some f\<rparr>"

definition cs_Start :: "('q, 's, 'd, 'o, 'w) Consumer \<Rightarrow> (consumer_error + unit) \<times> ('q, 's, 'd, 'o, 'w) Consumer" where
  "cs_Start c =
    (if cs_running c then (Inl AlreadyRunning, c)
     else if Option.is_none (cs_messageSource c) then (Inl SourceNotBound, c)
     else if Option.is_none (cs_processor c) then (Inl ProcessorNotSet, c)
     else (Inr (), c\<lparr>cs_cancelled := False, cs_running := True, cs_loops := cs_loops c @ [LoopStarting]\<rparr>))"

definition cs_Stop :: "('q, 's, 'd, 'o, 'w) Consumer \<Rightarrow> ('q, 's, 'd, 'o, 'w) Consumer" where
  "cs_Stop c = (if cs_running c then c\<lparr>cs_cancelled := True, cs_running := False\<rparr> else c)"

definition stateKey :: "('q, 's, 'd, 'o, 'w) Consumer \<Rightarrow> string" where
  "stateKey c = ''consumer:'' @ cb_ConsumerGroup (cc_Behavior (cs_config c)) @ '':'' @ cb_Topic (cc_Behavior (cs_config c)) @ '':'' @ cs_name c"

definition loadState :: "state_codec \<Rightarrow> go_time \<Rightarrow> ('q, 's, 'd, 'o, 'w) Consumer
    \<Rightarrow> (string + ConsumerState) \<times> ('q, 's, 'd, 'o, 'w) Consumer" where
  "loadState J now c =
    (let fresh = \<lparr>st_Offset = 0, st_LastMessageID = [], st_LastUpdated = now, st_RetryCount = 0\<rparr>
     in case cs_stateStore c of
          None \<Rightarrow> (Inr fresh, c)
        | Some I \<Rightarrow>
            (case kvb_Get I now (stateKey c) (cs_store c) of
               (r, s) \<Rightarrow>
                 (case r of Inl e \<Rightarrow> Inl e | Inr None \<Rightarrow> Inr fresh | Inr (Some data) \<Rightarrow> state_Unmarshal J data,
                  c\<lparr>cs_store := s\<rparr>)))"

definition saveState :: "state_codec \<Rightarrow> go_time \<Rightarrow> ConsumerState \<Rightarrow> ('q, 's, 'd, 'o, 'w) Consumer
    \<Rightarrow> (string + unit) \<times> ('q, 's, 'd, 'o, 'w) Consumer" where
  "saveState J now state c =
    (case cs_stateStore c of
       None \<Rightarrow> (Inr (), c)
     | Some I \<Rightarrow>
         (case state_Marshal J state of
            Inl e \<Rightarrow> (Inl e, c)
          | Inr data \<Rightarrow> (case kvb_Set I now (stateKey c) data 0 (cs_store c) of (r, s) \<Rightarrow> (r, c\<lparr>cs_store := s\<rparr>))))"

definition shouldRetry :: "ConsumerConfig \<Rightarrow> ConsumerState \<Rightarrow> bool" where
  "shouldRetry config state \<longleftrightarrow> st_RetryCount state < cb_MaxRetries (cc_Behavior config)"

definition sendToDeadLetter :: "PubSubMessage \<Rightarrow> ('q, 's, 'd, 'o, 'w) Consumer \<Rightarrow> (string + unit) \<times> ('q, 's, 'd, 'o, 'w) Consumer" where
  "sendToDeadLetter msg c =
    (case cs_deadLetter c of
       None \<Rightarrow> (Inr (), c)
     | Some f \<Rightarrow>
         (case f (cb_Topic (cc_Behavior (cs_config c)) @ ''.dlq'') (psm_Payload msg) (psm_Metadata msg) (cs_dlq c) of
            (r, d) \<Rightarrow> (case r of Inl e \<Rightarrow> Inl e | Inr _ \<Rightarrow> Inr (), c\<lparr>cs_dlq := d\<rparr>)))"

subsection \<open>Claim checks\<close>

definition decompressPayload :: "message_env \<Rightarrow> bytes \<Rightarrow> string \<Rightarrow> consumer_error + bytes" where
  "decompressPayload E data algorithm =
    (if algorithm = ''gzip'' then (case DecompressGzip E data of Inl e \<Rightarrow> Inl (DecompressFailed e) | Inr d \<Rightarrow> Inr d)
     else Inl (UnsupportedCompression algorithm))"

definition resolveClaimCheck :: "message_env \<Rightarrow> PubSubMessage \<Rightarrow> ('q, 's, 'd, 'o, 'w) Consumer
    \<Rightarrow> (consumer_error + PubSubMessage) \<times> ('q, 's, 'd, 'o, 'w) Consumer" where
  "resolveClaimCheck E msg c =
    (case cs_objectStore c of
       None \<Rightarrow> (Inl NoObjectStore, c)
     | Some ob \<Rightarrow>
         (case claim_Unmarshal E (psm_Payload msg) of
            Inl e \<Rightarrow> (Inl (InvalidClaim e), c)
          | Inr claim \<Rightarrow>
              (case os_Get ob (cm_Bucket claim) (cm_ObjectKey claim) (cs_objects c) of
                 (Inl e, o1) \<Rightarrow> (Inl (RetrieveFailed e), c\<lparr>cs_objects := o1\<rparr>)
               | (Inr stored, o1) \<Rightarrow>
                   (let c1 = c\<lparr>cs_objects := o1\<rparr>
                    in case (if cm_Compression claim \<noteq> ''none'' \<and> cm_Compression claim \<noteq> [] then decompressPayload E stored (cm_Compression claim)
                             else Inr stored) of
                         Inl e \<Rightarrow> (Inl e, c1)
                       | Inr data \<Rightarrow>
                           if CalculateSHA256 E data \<noteq> cm_Checksum claim
                           then (Inl (ChecksumMismatch (cm_Checksum claim) (CalculateSHA256 E data)), c1)
                           else (let md = (if cm_ContentType claim \<noteq> [] then (psm_Metadata msg)(''content-type'' \<mapsto> cm_ContentType claim)
                                           else psm_Metadata msg);
                                     del = (case cb_ClaimCheck (cc_Behavior (cs_config c)) of None \<Rightarrow> False | Some k \<Rightarrow> ccc_DeleteAfterRead k)
                                 in (Inr (msg\<lparr>psm_Payload := data, psm_Metadata := md(''prism-claim-check'' := None)\<rparr>),
                                     if del then c1\<lparr>cs_deletes := cs_deletes c1 @ [(cm_Bucket claim, cm_ObjectKey claim)]\<rparr> else c1))))))"

text \<open>The deletion of a claim, whenever its goroutine runs; an error is only logged.\<close>

definition run_delete :: "nat \<Rightarrow> ('q, 's, 'd, 'o, 'w) Consumer \<Rightarrow> ('q, 's, 'd, 'o, 'w) Consumer" where
  "run_delete i c =
    (case cs_objectStore c of
       Some ob \<Rightarrow>
         (if i < length (cs_deletes c)
          then (case cs_deletes c ! i of (bucket, k) \<Rightarrow>
            c\<lparr>cs_objects := snd (os_Delete ob bucket k (cs_objects c)), cs_deletes := take i (cs_deletes c) @ drop (Suc i) (cs_deletes c)\<rparr>)
          else c)
     | None \<Rightarrow> c)"

text \<open>The message as the claim check left it is what a dead letter carries.\<close>

definition processMessage :: "message_env \<Rightarrow> PubSubMessage \<Rightarrow> ('q, 's, 'd, 'o, 'w) Consumer
    \<Rightarrow> consumer_error option \<times> PubSubMessage \<times> ('q, 's, 'd, 'o, 'w) Consumer" where
  "processMessage E msg c =
    (case (if psm_Metadata msg ''prism-claim-check'' = Some ''true'' then resolveClaimCheck E msg c else (Inr msg, c)) of
       (Inl e, c1) \<Rightarrow> (Some e, msg, c1)
     | (Inr msg', c1) \<Rightarrow>
         (case cs_processor c1 of
            None \<Rightarrow> (None, msg', c1)
          | Some f \<Rightarrow> (case f msg' (cs_world c1) of (e, w) \<Rightarrow> (map_option ProcessorFailed e, msg', c1\<lparr>cs_world := w\<rparr>))))"

subsection \<open>The loop\<close>

definition set_loop :: "nat \<Rightarrow> consume_loop \<Rightarrow> ('q, 's, 'd, 'o, 'w) Consumer \<Rightarrow> ('q, 's, 'd, 'o, 'w) Consumer" where
  "set_loop i l c = c\<lparr>cs_loops := (cs_loops c)[i := l]\<rparr>"

text \<open>The deferred function clears \<open>running\<close> when the goroutine returns.\<close>

definition end_loop :: "nat \<Rightarrow> ('q, 's, 'd, 'o, 'w) Consumer \<Rightarrow> ('q, 's, 'd, 'o, 'w) Consumer" where
  "end_loop i c = (set_loop i LoopDone c)\<lparr>cs_running := False\<rparr>"

definition subscribe_source :: "('q, 's, 'd, 'o, 'w) Consumer \<Rightarrow> (string + nat) \<times> ('q, 's, 'd, 'o, 'w) Consumer" where
  "subscribe_source c =
    (let b = cc_Behavior (cs_config c)
     in case (case cs_messageSource c of
                Some (PubSubSource f) \<Rightarrow> f (cb_Topic b) (cb_ConsumerGroup b) (cs_source c)
              | Some (QueueSource f) \<Rightarrow> f (cb_Topic b) (cs_source c)
              | _ \<Rightarrow> (Inl [], cs_source c)) of
          (r, q) \<Rightarrow> (r, c\<lparr>cs_source := q\<rparr>))"

definition consume_begin :: "state_codec \<Rightarrow> go_time \<Rightarrow> nat \<Rightarrow> ('q, 's, 'd, 'o, 'w) Consumer \<Rightarrow> ('q, 's, 'd, 'o, 'w) Consumer" where
  "consume_begin J now i c =
    (case loadState J now c of
       (Inl e, c1) \<Rightarrow> end_loop i c1
     | (Inr state, c1) \<Rightarrow>
         (case subscribe_source c1 of
            (Inr ch, c2) \<Rightarrow> set_loop i (LoopRunning ch state) c2
          | (Inl _, c2) \<Rightarrow> end_loop i c2))"

text \<open>What the loop does with a message: the new position and the consumer.\<close>

definition handle_message :: "message_env \<Rightarrow> state_codec \<Rightarrow> go_time \<Rightarrow> PubSubMessage \<Rightarrow> ConsumerState \<Rightarrow> ('q, 's, 'd, 'o, 'w) Consumer
    \<Rightarrow> ConsumerState \<times> ('q, 's, 'd, 'o, 'w) Consumer" where
  "handle_message E J now msg state c =
    (case processMessage E msg c of
       (Some e, msg', c1) \<Rightarrow>
         (if shouldRetry (cs_config c) state
          then (let state' = state\<lparr>st_RetryCount := st_RetryCount state + 1\<rparr> in (state', snd (saveState J now state' c1)))
          else (state\<lparr>st_RetryCount := 0\<rparr>, snd (sendToDeadLetter msg' c1)))
     | (None, msg', c1) \<Rightarrow>
         (let state' = state\<lparr>st_Offset := st_Offset state + 1, st_LastMessageID := psm_MessageID msg, st_LastUpdated := now, st_RetryCount := 0\<rparr>
          in (state', if cb_AutoCommit (cc_Behavior (cs_config c)) then snd (saveState J now state' c1) else c1)))"

text \<open>A receive from a closed channel gives nil, which the loop skips.\<close>

definition consume_msg :: "message_env \<Rightarrow> state_codec \<Rightarrow> go_time \<Rightarrow> nat \<Rightarrow> PubSubMessage option \<Rightarrow> ('q, 's, 'd, 'o, 'w) Consumer \<Rightarrow> ('q, 's, 'd, 'o, 'w) Consumer" where
  "consume_msg E J now i received c =
    (case (cs_loops c ! i, received) of
       (LoopRunning ch state, Some msg) \<Rightarrow>
         (case handle_message E J now msg state c of (state', c') \<Rightarrow> set_loop i (LoopRunning ch state') c')
     | _ \<Rightarrow> c)"

definition cs_Health :: "('q, 's, 'd, 'o, 'w) Consumer \<Rightarrow> HealthStatus" where
  "cs_Health c =
    (let b = cc_Behavior (cs_config c);
         details = [(''name'', cs_name c), (''group'', cb_ConsumerGroup b), (''topic'', cb_Topic b),
           (''running'', if cs_running c then ''true'' else ''false'')]
     in if cs_running c then \<lparr>hs_Status = HealthHealthy, hs_Message = ''consumer operating normally'', hs_Details = details\<rparr>
        else \<lparr>hs_Status = HealthDegraded, hs_Message = ''consumer not running'', hs_Details = details\<rparr>)"

text \<open>One step of the program: a call of a caller or a move of a goroutine.\<close>

datatype consumer_step =
    CallStart | CallStop | LoopBegin nat go_time | LoopReceive nat go_time "PubSubMessage option" | LoopCancelled nat | RunDelete nat

definition consumer_exec :: "message_env \<Rightarrow> state_codec \<Rightarrow> consumer_step \<Rightarrow> ('q, 's, 'd, 'o, 'w) Consumer \<Rightarrow> ('q, 's, 'd, 'o, 'w) Consumer" where
  "consumer_exec E J step c =
    (case step of
       CallStart \<Rightarrow> snd (cs_Start c)
     | CallStop \<Rightarrow> cs_Stop c
     | LoopBegin i now \<Rightarrow> if i < length (cs_loops c) \<and> cs_loops c ! i = LoopStarting then consume_begin J now i c else c
     | LoopReceive i now received \<Rightarrow> if i < length (cs_loops c) then consume_msg E J now i received c else c
     | LoopCancelled i \<Rightarrow>
         (if i < length (cs_loops c) \<and> cs_cancelled c
          then (case cs_loops c ! i of LoopRunning _ _ \<Rightarrow> end_loop i c | _ \<Rightarrow> c) else c)
     | RunDelete i \<Rightarrow> run_delete i c)"

subsection \<open>What happens to each message\<close>

text \<open>A processor that notes the messages it is given and whether it accepted them.\<close>

definition noting :: "'w MessageProcessor \<Rightarrow> ('w \<times> (PubSubMessage \<times> bool) list) MessageProcessor" where
  "noting f = (\<lambda>msg (w, l). case f msg w of (e, w') \<Rightarrow> (e, (w', l @ [(msg, e = None)])))"

text \<open>The failed messages that go to the dead letter queue, from a retry count on.\<close>

fun dead_letters :: "int \<Rightarrow> int \<Rightarrow> (PubSubMessage \<times> bool) list \<Rightarrow> PubSubMessage list" where
  "dead_letters m r [] = []"
| "dead_letters m r ((msg, ok) # xs) =
    (if ok then dead_letters m 0 xs else if r < m then dead_letters m (r + 1) xs else msg # dead_letters m 0 xs)"

definition plain :: "PubSubMessage \<Rightarrow> bool" where
  "plain msg \<longleftrightarrow> psm_Metadata msg ''prism-claim-check'' \<noteq> Some ''true''"

definition receive_all :: "message_env \<Rightarrow> state_codec \<Rightarrow> nat \<Rightarrow> (go_time \<times> PubSubMessage) list
    \<Rightarrow> ('q, 's, 'd, 'o, 'w) Consumer \<Rightarrow> ('q, 's, 'd, 'o, 'w) Consumer" where
  "receive_all E J i msgs c = fold (\<lambda>(now, msg). consumer_exec E J (LoopReceive i now (Some msg))) msgs c"

definition dead_letter_all :: "'d enqueue_op \<Rightarrow> string \<Rightarrow> PubSubMessage list \<Rightarrow> 'd \<Rightarrow> 'd" where
  "dead_letter_all g topic msgs d = fold (\<lambda>msg d. snd (g topic (psm_Payload msg) (psm_Metadata msg) d)) msgs d"

lemma saveState_frame: "snd (saveState J now st c) = c\<lparr>cs_store := cs_store (snd (saveState J now st c))\<rparr>"
  by (auto simp: saveState_def split: option.splits sum.splits prod.splits)

lemma saveState_fields [simp]:
  "cs_config (snd (saveState J now st c)) = cs_config c" "cs_loops (snd (saveState J now st c)) = cs_loops c"
  "cs_processor (snd (saveState J now st c)) = cs_processor c" "cs_deadLetter (snd (saveState J now st c)) = cs_deadLetter c"
  "cs_world (snd (saveState J now st c)) = cs_world c" "cs_dlq (snd (saveState J now st c)) = cs_dlq c"
  using saveState_frame [of J now st c] by (metis Consumer.select_convs Consumer.update_convs(13) Consumer.surjective)+

lemma receive_one:
  assumes c: "i < length (cs_loops c)" "cs_loops c ! i = LoopRunning ch st" "cs_processor c = Some (noting f)"
      "cs_deadLetter c = Some g" "cs_world c = (w, l)" "plain msg"
    and run: "c' = consumer_exec E J (LoopReceive i now (Some msg)) c" "f msg w = (e, w')"
  shows "\<exists>st'. cs_loops c' = (cs_loops c)[i := LoopRunning ch st'] \<and> cs_config c' = cs_config c \<and> cs_processor c' = cs_processor c
    \<and> cs_deadLetter c' = cs_deadLetter c \<and> cs_world c' = (w', l @ [(msg, e = None)])
    \<and> st_Offset st' = st_Offset st + (if e = None then 1 else 0)
    \<and> st_RetryCount st' = (if e \<noteq> None \<and> st_RetryCount st < cb_MaxRetries (cc_Behavior (cs_config c)) then st_RetryCount st + 1 else 0)
    \<and> cs_dlq c' = (if e \<noteq> None \<and> \<not> st_RetryCount st < cb_MaxRetries (cc_Behavior (cs_config c))
        then snd (g (cb_Topic (cc_Behavior (cs_config c)) @ ''.dlq'') (psm_Payload msg) (psm_Metadata msg) (cs_dlq c)) else cs_dlq c)"
proof -
  define c1 where "c1 = c\<lparr>cs_world := (w', l @ [(msg, e = None)])\<rparr>"
  have pm: "processMessage E msg c = (map_option ProcessorFailed e, msg, c1)"
    using c run(2) by (simp add: processMessage_def plain_def noting_def c1_def)
  show ?thesis
  proof (cases e)
    case None
    then show ?thesis using c run(1) pm
      by (auto simp: consumer_exec_def consume_msg_def handle_message_def Let_def set_loop_def c1_def split: prod.splits)
  next
    case (Some x)
    define st' where "st' = st\<lparr>st_RetryCount := if shouldRetry (cs_config c) st then st_RetryCount st + 1 else 0\<rparr>"
    show ?thesis using Some c run(1) pm
      by (intro exI [of _ st'])
         (auto simp: consumer_exec_def consume_msg_def handle_message_def Let_def set_loop_def c1_def shouldRetry_def sendToDeadLetter_def
          st'_def split: prod.splits)
  qed
qed

lemma receive_all_result:
  assumes "i < length (cs_loops c)" "cs_loops c ! i = LoopRunning ch st" "cs_processor c = Some (noting f)" "cs_deadLetter c = Some g"
    and "cs_world c = (w, l)" "\<forall>(t, msg) \<in> set msgs. plain msg"
  shows "\<exists>st' w' new. cs_loops (receive_all E J i msgs c) ! i = LoopRunning ch st'
    \<and> cs_world (receive_all E J i msgs c) = (w', l @ new) \<and> map fst new = map snd msgs
    \<and> (\<forall>(msg, ok) \<in> set new. \<exists>v. ok \<longleftrightarrow> fst (f msg v) = None)
    \<and> st_Offset st' = st_Offset st + int (length (filter snd new))
    \<and> cs_dlq (receive_all E J i msgs c) = dead_letter_all g (cb_Topic (cc_Behavior (cs_config c)) @ ''.dlq'')
        (dead_letters (cb_MaxRetries (cc_Behavior (cs_config c))) (st_RetryCount st) new) (cs_dlq c)"
  using assms
proof (induction msgs arbitrary: c st w l)
  case Nil
  then show ?case by (simp add: receive_all_def dead_letter_all_def)
next
  case (Cons x msgs)
  obtain now msg where x: "x = (now, msg)" by fastforce
  obtain e w1 where e: "f msg w = (e, w1)" by fastforce
  define c1 where "c1 = consumer_exec E J (LoopReceive i now (Some msg)) c"
  have "plain msg" using Cons.prems(6) x by simp
  then obtain st1 where st1: "cs_loops c1 = (cs_loops c)[i := LoopRunning ch st1]" "cs_config c1 = cs_config c" "cs_processor c1 = cs_processor c"
    "cs_deadLetter c1 = cs_deadLetter c" "cs_world c1 = (w1, l @ [(msg, e = None)])"
    "st_Offset st1 = st_Offset st + (if e = None then 1 else 0)"
    "st_RetryCount st1 = (if e \<noteq> None \<and> st_RetryCount st < cb_MaxRetries (cc_Behavior (cs_config c)) then st_RetryCount st + 1 else 0)"
    "cs_dlq c1 = (if e \<noteq> None \<and> \<not> st_RetryCount st < cb_MaxRetries (cc_Behavior (cs_config c))
        then snd (g (cb_Topic (cc_Behavior (cs_config c)) @ ''.dlq'') (psm_Payload msg) (psm_Metadata msg) (cs_dlq c)) else cs_dlq c)"
    using receive_one [OF Cons.prems(1-5) _ c1_def e] by blast
  have "i < length (cs_loops c1)" "cs_loops c1 ! i = LoopRunning ch st1" "cs_processor c1 = Some (noting f)" "cs_deadLetter c1 = Some g"
    "\<forall>(t, msg) \<in> set msgs. plain msg"
    using st1 Cons.prems by auto
  then obtain st' w' new where IH: "cs_loops (receive_all E J i msgs c1) ! i = LoopRunning ch st'"
    "cs_world (receive_all E J i msgs c1) = (w', (l @ [(msg, e = None)]) @ new)" "map fst new = map snd msgs"
    "\<forall>(msg, ok) \<in> set new. \<exists>v. ok \<longleftrightarrow> fst (f msg v) = None"
    "st_Offset st' = st_Offset st1 + int (length (filter snd new))"
    "cs_dlq (receive_all E J i msgs c1) = dead_letter_all g (cb_Topic (cc_Behavior (cs_config c1)) @ ''.dlq'')
        (dead_letters (cb_MaxRetries (cc_Behavior (cs_config c1))) (st_RetryCount st1) new) (cs_dlq c1)"
    using Cons.IH [of c1 st1 w1 "l @ [(msg, e = None)]"] st1(5) by blast
  have step: "receive_all E J i (x # msgs) c = receive_all E J i msgs c1" by (simp add: receive_all_def x c1_def)
  show ?case
    unfolding step
    by (rule exI [of _ st'], rule exI [of _ w'], rule exI [of _ "(msg, e = None) # new"])
       (use IH st1 x e in \<open>auto simp: dead_letter_all_def intro!: exI [of _ w]\<close>)
qed


lemma dead_letters_failing:
  assumes "0 \<le> r" "r \<le> m" "\<forall>(msg, ok) \<in> set xs. \<not> ok"
  shows "length (dead_letters m r xs) = (nat r + length xs) div (nat m + 1)"
  using assms
proof (induction m r xs rule: dead_letters.induct)
  case (2 m r msg ok xs)
  show ?case
  proof (cases "r < m")
    case True
    then have "length (dead_letters m (r + 1) xs) = (nat (r + 1) + length xs) div (nat m + 1)" using 2 by auto
    then show ?thesis using True 2(6) "2.prems"(1) by (auto simp: nat_add_distrib)
  next
    case False
    then have "length (dead_letters m 0 xs) = length xs div (nat m + 1)" using 2 by auto
    moreover have "r = m" using False "2.prems" by simp
    ultimately show ?thesis using "2.prems"(3) div_add_self1 [of "nat m + 1" "length xs"] by simp
  qed
qed auto

text \<open>
  A processor that fails on every message loses most of them: of \<open>n\<close> messages only
  \<open>n div (MaxRetries + 1)\<close> reach the dead letter queue, since the retry count is kept for the
  consumer and not for the message and a failed message is not tried again.
\<close>

theorem failed_messages_lost:
  assumes "i < length (cs_loops c)" "cs_loops c ! i = LoopRunning ch st" "cs_processor c = Some (noting f)"
    and "cs_deadLetter c = Some (\<lambda>topic payload metadata d. (Inr [], d @ [payload]))" "cs_dlq c = []"
    and "cs_world c = (w, [])" "\<forall>(t, msg) \<in> set msgs. plain msg" "c' = receive_all E J i msgs c"
    and "st_RetryCount st = 0" "m = cb_MaxRetries (cc_Behavior (cs_config c))" "0 \<le> m" "\<forall>msg v. fst (f msg v) \<noteq> None"
  shows "length (cs_dlq c') = length msgs div (nat m + 1) \<and> map fst (snd (cs_world c')) = map snd msgs"
proof -
  obtain w' new where new: "cs_world c' = (w', [] @ new)" "map fst new = map snd msgs"
    "\<forall>(msg, ok) \<in> set new. \<exists>v. ok \<longleftrightarrow> fst (f msg v) = None"
    "cs_dlq c' = dead_letter_all (\<lambda>topic payload metadata d. (Inr [], d @ [payload])) (cb_Topic (cc_Behavior (cs_config c)) @ ''.dlq'')
       (dead_letters m 0 new) []"
    using receive_all_result [OF assms(1-4,6,7), of E J] assms(5,8-10) by auto
  have log: "dead_letter_all (\<lambda>topic payload metadata d. (Inr [], d @ [payload])) topic xs d = d @ map psm_Payload xs" for topic xs d
    by (induction xs arbitrary: d) (simp_all add: dead_letter_all_def)
  have "\<forall>(msg, ok) \<in> set new. \<not> ok" using new(3) assms(12) by blast
  then have "length (dead_letters m 0 new) = length new div (nat m + 1)" using dead_letters_failing [of 0 m new] assms(11) by simp
  moreover have "length new = length msgs" using new(2) by (metis length_map)
  ultimately show ?thesis using new by (simp add: log)
qed

subsection \<open>Resuming\<close>

context kv_store
begin

lemma load_after_save:
  assumes "cs_stateStore c = Some I" "kv_inv (cs_store c)" "saveState J now st c = (Inr u, c')"
    and "state_Marshal J st = Inr data" "state_Unmarshal J data = Inr st"
    and "cs_stateStore d = Some I" "cs_store d = cs_store c'" "stateKey d = stateKey c" "now \<le> t"
  shows "fst (loadState J t d) = Inr st"
proof -
  obtain s where set: "kvb_Set I now (stateKey c) data 0 (cs_store c) = (Inr u, s)" "cs_store c' = s"
    using assms(1,3,4) by (auto simp: saveState_def split: prod.splits)
  have "kv_inv s" "live t s (stateKey c) = Some data" using set_law [OF assms(2) _ set(1)] assms(9) by auto
  then obtain s2 where "kvb_Get I t (stateKey c) s = (Inr (Some data), s2)"
    using get_law [of s t "stateKey c"] by auto
  then show ?thesis using assms(5-8) set by (simp add: loadState_def Let_def)
qed

end

lemma processMessage_store:
  assumes "processMessage E msg c = (e, msg', c1)"
  shows "cs_store c1 = cs_store c \<and> cs_stateStore c1 = cs_stateStore c \<and> stateKey c1 = stateKey c"
proof -
  have "cs_store c2 = cs_store c \<and> cs_stateStore c2 = cs_stateStore c \<and> cs_config c2 = cs_config c \<and> cs_name c2 = cs_name c"
    if "resolveClaimCheck E msg c = (r, c2)" for r c2
    using that by (auto simp: resolveClaimCheck_def Let_def split: option.splits sum.splits prod.splits if_splits)
  then show ?thesis
    using assms by (auto simp: processMessage_def stateKey_def split: if_splits prod.splits sum.splits option.splits)
qed


subsection \<open>Restarting\<close>

text \<open>
  A consumer that is stopped and started again before its goroutine has noticed has two
  goroutines afterwards: the old one reads the new context from the struct, so neither of them
  ends until the next stop, and both consume.
\<close>

theorem restart_leaves_two_loops:
  assumes "cs_running c" "cs_loops c = [LoopRunning ch st]" "cs_stateStore c = None" "cs_processor c = Some p"
    and "cs_messageSource c = Some (PubSubSource f)"
    and "f (cb_Topic (cc_Behavior (cs_config c))) (cb_ConsumerGroup (cc_Behavior (cs_config c))) (cs_source c) = (Inr chb, q)"
    and "c' = fold (consumer_exec E J) [CallStop, CallStart, LoopBegin 1 now] c"
  shows "\<exists>st2. cs_loops c' = [LoopRunning ch st, LoopRunning chb st2] \<and> cs_running c'
    \<and> consumer_exec E J (LoopCancelled i) c' = c'"
  using assms
  by (simp add: consumer_exec_def cs_Stop_def cs_Start_def consume_begin_def loadState_def subscribe_source_def set_loop_def Let_def)

subsection \<open>A small consumer\<close>

definition demo_consumer :: "'w MessageProcessor \<Rightarrow> 'w \<Rightarrow> (unit, MemStore, bytes list, unit, 'w) Consumer" where
  "demo_consumer f w = \<lparr>cs_name = ''c'',
     cs_config = \<lparr>cc_Name = ''c'', cc_Description = [],
       cc_Slots = \<lparr>csl_MessageSource = \<lparr>sb_Driver = [], sb_Config = []\<rparr>, csl_StateStore = \<lparr>sb_Driver = [], sb_Config = []\<rparr>,
         csl_DeadLetterQueue = None, csl_ObjectStore = None\<rparr>,
       cc_Behavior = \<lparr>cb_ConsumerGroup = ''g'', cb_Topic = ''t'', cb_MaxRetries = 1, cb_BatchSize = 0, cb_AutoCommit = True,
         cb_CommitInterval = [], cb_ClaimCheck = None\<rparr>\<rparr>,
     cs_messageSource = Some (PubSubSource (\<lambda>topic group q. (Inr 1, q))), cs_stateStore = None,
     cs_deadLetter = Some (\<lambda>topic payload metadata d. (Inr [], d @ [payload])), cs_objectStore = None, cs_running = True,
     cs_cancelled = False, cs_processor = Some f,
     cs_loops = [LoopRunning 0 \<lparr>st_Offset = 0, st_LastMessageID = [], st_LastUpdated = 0, st_RetryCount = 0\<rparr>],
     cs_deletes = [], cs_source = (), cs_store = NewMemStore, cs_dlq = [], cs_objects = (), cs_world = w\<rparr>"

definition demo_msg :: "bytes \<Rightarrow> PubSubMessage" where
  "demo_msg payload = \<lparr>psm_Topic = ''t'', psm_Payload = payload, psm_Metadata = Map.empty, psm_MessageID = ''m'', psm_Timestamp = 0\<rparr>"

definition demo_state :: ConsumerState where
  "demo_state = \<lparr>st_Offset = 1, st_LastMessageID = ''m'', st_LastUpdated = 5, st_RetryCount = 0\<rparr>"

definition demo_state_codec :: state_codec where
  "demo_state_codec = \<lparr>state_Marshal = (\<lambda>st. Inr (itoa (st_Offset st))), state_Unmarshal = (\<lambda>data. if data = itoa 1 then Inr demo_state else Inl [])\<rparr>"

definition no_env :: message_env where
  "no_env = \<lparr>CalculateSHA256 = id, CompressGzip = Inr, DecompressGzip = Inr, claim_Marshal = (\<lambda>c. Inr (cm_ObjectKey c)),
     claim_Unmarshal = (\<lambda>_. Inl []), time_Marshal = (\<lambda>t. Inr []), time_Unmarshal = (\<lambda>_. Inr 0), me_fl = id, me_oob = (\<lambda>_. 0)\<rparr>"

definition picky :: "nat MessageProcessor" where
  "picky msg n = (if psm_Payload msg = ''x'' then Some ''no'' else None, Suc n)"

definition sour :: "nat MessageProcessor" where
  "sour msg n = (Some ''no'', n)"

lemma demo_consumer_fields:
  "0 < length (cs_loops (demo_consumer f w))"
  "cs_loops (demo_consumer f w) ! 0 = LoopRunning 0 \<lparr>st_Offset = 0, st_LastMessageID = [], st_LastUpdated = 0, st_RetryCount = 0\<rparr>"
  "cs_processor (demo_consumer f w) = Some f" "cs_world (demo_consumer f w) = w" "cs_dlq (demo_consumer f w) = []"
  "cs_deadLetter (demo_consumer f w) = Some (\<lambda>topic payload metadata d. (Inr [], d @ [payload]))"
  "plain (demo_msg payload)"
  by (simp_all add: demo_consumer_def plain_def demo_msg_def)


theorem failed_messages_lost_witness:
  "length (cs_dlq (receive_all no_env demo_state_codec 0 (map (\<lambda>p. (1, demo_msg p)) [''x'', ''y'']) (demo_consumer (noting sour) (0, [])))) = 1"
  using failed_messages_lost [OF demo_consumer_fields(1,2,3,6,5,4) _ refl _ refl, of "map (\<lambda>p. (1, demo_msg p)) [''x'', ''y'']" sour 0 no_env demo_state_codec]
    demo_consumer_fields(7) by (simp add: sour_def demo_consumer_def)


theorem restart_leaves_two_loops_witness:
  "length (cs_loops (fold (consumer_exec no_env demo_state_codec) [CallStop, CallStart, LoopBegin 1 7] (demo_consumer picky 0))) = 2"
  using restart_leaves_two_loops [where c = "demo_consumer picky 0" and ch = 0 and p = picky and f = "\<lambda>topic group q. (Inr 1, q)" and chb = 1 and i = 0
      and st = "\<lparr>st_Offset = 0, st_LastMessageID = [], st_LastUpdated = 0, st_RetryCount = 0\<rparr>", OF _ _ _ _ _ _ refl, of "()" no_env demo_state_codec 7]
  by (auto simp: demo_consumer_def)

end
