(* ===== verification/Mailbox.thy ===== *)
theory Mailbox
  imports Consumer
begin

text \<open>
  The mailbox pattern (\<open>src/patterns/mailbox\<close>): its configuration and slots, the loop that
  stores every message of a source as an event with indexed headers, the queries, statistics
  and health.

  The goroutines that run \<open>consume\<close> are the list \<open>mb_loops\<close>, as for the consumer; they read the
  context from the struct.  The table behind the writer and the reader is \<open>mb_table\<close>, and a
  call of a driver returns or fails; a write that exceeds its ten seconds fails.  The handling
  of one message, with its three updates of the metrics, is one step.
\<close>

subsection \<open>Configuration\<close>

record MailboxBehavior =
  bb_Topic :: string
  bb_ConsumerGroup :: string
  bb_AutoCommit :: bool

record StorageConfig =
  sc_DatabasePath :: string
  sc_TableName :: string
  sc_RetentionDays :: int
  sc_CleanupInterval :: duration

record MailboxConfig =
  bc_Name :: string
  bc_Behavior :: MailboxBehavior
  bc_Storage :: StorageConfig

datatype mailbox_error =
    MailboxNameRequired | MailboxTopicRequired | MailboxGroupRequired | DatabasePathRequired
  | MailboxBindWhileRunning | MailboxBadSource | TableWriterRequired
  | MailboxAlreadyRunning | MailboxSourceNotBound | TableWriterNotBound | TableReaderNotBound | TableError string

text \<open>\<open>Validate\<close> checks the required fields and fills in the defaults of the storage.\<close>

definition storage_defaults :: "StorageConfig \<Rightarrow> StorageConfig" where
  "storage_defaults s = s\<lparr>sc_TableName := (if sc_TableName s = [] then ''mailbox'' else sc_TableName s),
     sc_RetentionDays := (if sc_RetentionDays s \<le> 0 then 90 else sc_RetentionDays s),
     sc_CleanupInterval := (if sc_CleanupInterval s \<le> 0 then 86400000000000 else sc_CleanupInterval s)\<rparr>"

definition mb_Validate :: "MailboxConfig \<Rightarrow> mailbox_error + MailboxConfig" where
  "mb_Validate c =
    (if bc_Name c = [] then Inl MailboxNameRequired
     else if bb_Topic (bc_Behavior c) = [] then Inl MailboxTopicRequired
     else if bb_ConsumerGroup (bc_Behavior c) = [] then Inl MailboxGroupRequired
     else if sc_DatabasePath (bc_Storage c) = [] then Inl DatabasePathRequired
     else Inr (c\<lparr>bc_Storage := storage_defaults (bc_Storage c)\<rparr>))"

subsection \<open>The table drivers\<close>

record MailboxEvent =
  me_MessageID :: string
  me_Timestamp :: int
  me_Topic :: string
  me_ContentType :: string
  me_SchemaID :: string
  me_Encryption :: string
  me_CorrelationID :: string
  me_Principal :: string
  me_Namespace :: string
  me_CustomHeaders :: "string \<rightharpoonup> string"
  me_Body :: bytes

record EventFilter =
  ef_StartTime :: "int option"
  ef_EndTime :: "int option"
  ef_Topics :: "string list"
  ef_Principals :: "string list"
  ef_CorrelationID :: "string option"
  ef_Limit :: int
  ef_Offset :: int

record TableStats =
  ts_TotalEvents :: int
  ts_TotalSizeBytes :: int
  ts_OldestEvent :: int
  ts_NewestEvent :: int

record 't TableWriterInterface =
  tw_WriteEvent :: "MailboxEvent \<Rightarrow> 't \<Rightarrow> (string + unit) \<times> 't"
  tw_DeleteOldEvents :: "int \<Rightarrow> 't \<Rightarrow> (string + int) \<times> 't"
  tw_GetTableStats :: "'t \<Rightarrow> (string + TableStats) \<times> 't"

record 't TableReaderInterface =
  tr_QueryEvents :: "EventFilter \<Rightarrow> 't \<Rightarrow> (string + MailboxEvent list) \<times> 't"
  tr_GetEvent :: "string \<Rightarrow> 't \<Rightarrow> (string + MailboxEvent option) \<times> 't"
  tr_GetTableStats :: "'t \<Rightarrow> (string + TableStats) \<times> 't"

subsection \<open>The mailbox\<close>

record MailboxMetrics =
  mm_EventsReceived :: int
  mm_EventsStored :: int
  mm_EventsFailed :: int
  mm_BytesStored :: int
  mm_LastEventTime :: go_time
  mm_ProcessingLatency :: duration

datatype mailbox_loop = MailStarting | MailRunning nat | MailDone

record ('q, 't) Mailbox =
  mb_name :: string
  mb_config :: MailboxConfig
  mb_messageSource :: "'q MessageSource option"
  mb_tableWriter :: "'t TableWriterInterface option"
  mb_tableReader :: "'t TableReaderInterface option"
  mb_running :: bool
  mb_cancelled :: bool
  mb_metrics :: MailboxMetrics
  mb_loops :: "mailbox_loop list"
  mb_source :: 'q
  mb_table :: 't

definition mb_New :: "'q \<Rightarrow> 't \<Rightarrow> MailboxConfig \<Rightarrow> mailbox_error + ('q, 't) Mailbox" where
  "mb_New q t config =
    (case mb_Validate config of
       Inl e \<Rightarrow> Inl e
     | Inr config' \<Rightarrow> Inr \<lparr>mb_name = bc_Name config', mb_config = config', mb_messageSource = None, mb_tableWriter = None,
         mb_tableReader = None, mb_running = False, mb_cancelled = False,
         mb_metrics = \<lparr>mm_EventsReceived = 0, mm_EventsStored = 0, mm_EventsFailed = 0, mm_BytesStored = 0,
           mm_LastEventTime = 0, mm_ProcessingLatency = 0\<rparr>,
         mb_loops = [], mb_source = q, mb_table = t\<rparr>)"

text \<open>A missing writer is noticed after the source has been bound.\<close>

definition mb_BindSlots :: "'q MessageSource \<Rightarrow> 't TableWriterInterface option \<Rightarrow> 't TableReaderInterface option
    \<Rightarrow> ('q, 't) Mailbox \<Rightarrow> (mailbox_error + unit) \<times> ('q, 't) Mailbox" where
  "mb_BindSlots messageSource tableWriter tableReader m =
    (if mb_running m then (Inl MailboxBindWhileRunning, m)
     else (case messageSource of
        OtherSource \<Rightarrow> (Inl MailboxBadSource, m)
      | _ \<Rightarrow>
          (let m1 = m\<lparr>mb_messageSource := Some messageSource\<rparr>
           in if Option.is_none tableWriter then (Inl TableWriterRequired, m1)
              else (Inr (), m1\<lparr>mb_tableWriter := tableWriter, mb_tableReader := tableReader\<rparr>))))"

definition mb_Start :: "('q, 't) Mailbox \<Rightarrow> (mailbox_error + unit) \<times> ('q, 't) Mailbox" where
  "mb_Start m =
    (if mb_running m then (Inl MailboxAlreadyRunning, m)
     else if Option.is_none (mb_messageSource m) then (Inl MailboxSourceNotBound, m)
     else if Option.is_none (mb_tableWriter m) then (Inl TableWriterNotBound, m)
     else (Inr (), m\<lparr>mb_cancelled := False, mb_running := True, mb_loops := mb_loops m @ [MailStarting]\<rparr>))"

definition mb_Stop :: "('q, 't) Mailbox \<Rightarrow> ('q, 't) Mailbox" where
  "mb_Stop m = (if mb_running m then m\<lparr>mb_cancelled := True, mb_running := False\<rparr> else m)"

subsection \<open>Storing a message\<close>

definition header :: "PubSubMessage \<Rightarrow> string \<Rightarrow> string" where
  "header msg k = (case psm_Metadata msg k of Some v \<Rightarrow> v | None \<Rightarrow> [])"

text \<open>The loop over the metadata, in the order \<open>ord\<close>, that collects the custom headers.\<close>

fun custom_headers :: "string list \<Rightarrow> (string \<rightharpoonup> string) \<Rightarrow> (string \<rightharpoonup> string) \<Rightarrow> (string \<rightharpoonup> string)" where
  "custom_headers [] md acc = acc"
| "custom_headers (k # ord) md acc = custom_headers ord md
    (case md k of Some v \<Rightarrow> if length k > 2 \<and> take 2 k = ''x-'' then acc(k \<mapsto> v) else acc | None \<Rightarrow> acc)"

definition mailbox_event :: "string list \<Rightarrow> PubSubMessage \<Rightarrow> MailboxEvent" where
  "mailbox_event ord msg = \<lparr>me_MessageID = psm_MessageID msg, me_Timestamp = psm_Timestamp msg, me_Topic = psm_Topic msg,
     me_ContentType = header msg ''prism-content-type'', me_SchemaID = header msg ''prism-schema-id'',
     me_Encryption = header msg ''prism-encryption'', me_CorrelationID = header msg ''prism-correlation-id'',
     me_Principal = header msg ''prism-principal'', me_Namespace = header msg ''prism-namespace'',
     me_CustomHeaders = custom_headers ord (psm_Metadata msg) Map.empty, me_Body = psm_Payload msg\<rparr>"

text \<open>The loop only runs with a writer bound, and a bound writer is never taken away.\<close>

definition storeMessage :: "string list \<Rightarrow> PubSubMessage \<Rightarrow> ('q, 't) Mailbox \<Rightarrow> (string + unit) \<times> ('q, 't) Mailbox" where
  "storeMessage ord msg m =
    (case mb_tableWriter m of
       None \<Rightarrow> (Inl ''nil pointer dereference'', m)
     | Some W \<Rightarrow> (case tw_WriteEvent W (mailbox_event ord msg) (mb_table m) of (r, t) \<Rightarrow> (r, m\<lparr>mb_table := t\<rparr>)))"

subsection \<open>The loop\<close>

definition set_mail_loop :: "nat \<Rightarrow> mailbox_loop \<Rightarrow> ('q, 't) Mailbox \<Rightarrow> ('q, 't) Mailbox" where
  "set_mail_loop i l m = m\<lparr>mb_loops := (mb_loops m)[i := l]\<rparr>"

definition end_mail_loop :: "nat \<Rightarrow> ('q, 't) Mailbox \<Rightarrow> ('q, 't) Mailbox" where
  "end_mail_loop i m = (set_mail_loop i MailDone m)\<lparr>mb_running := False\<rparr>"

definition mail_begin :: "nat \<Rightarrow> ('q, 't) Mailbox \<Rightarrow> ('q, 't) Mailbox" where
  "mail_begin i m =
    (let b = bc_Behavior (mb_config m)
     in case (case mb_messageSource m of
                Some (PubSubSource f) \<Rightarrow> f (bb_Topic b) (bb_ConsumerGroup b) (mb_source m)
              | Some (QueueSource f) \<Rightarrow> f (bb_Topic b) (mb_source m)
              | _ \<Rightarrow> (Inl [], mb_source m)) of
          (Inr ch, q) \<Rightarrow> set_mail_loop i (MailRunning ch) (m\<lparr>mb_source := q\<rparr>)
        | (Inl _, q) \<Rightarrow> end_mail_loop i (m\<lparr>mb_source := q\<rparr>))"

definition mail_counted :: "go_time \<Rightarrow> go_time \<Rightarrow> PubSubMessage \<Rightarrow> string + unit \<Rightarrow> MailboxMetrics \<Rightarrow> MailboxMetrics" where
  "mail_counted start now msg r mm =
    (let mm1 = (case r of
           Inl _ \<Rightarrow> mm\<lparr>mm_EventsFailed := int64 (mm_EventsFailed mm + 1)\<rparr>
         | Inr _ \<Rightarrow> mm\<lparr>mm_EventsStored := int64 (mm_EventsStored mm + 1),
             mm_BytesStored := int64 (mm_BytesStored mm + int (length (psm_Payload msg))),
             mm_LastEventTime := now, mm_ProcessingLatency := now - start\<rparr>)
     in mm1\<lparr>mm_EventsReceived := int64 (mm_EventsReceived mm1 + 1)\<rparr>)"

text \<open>A receive from a closed channel gives nil, which the loop skips.\<close>

definition mail_receive :: "string list \<Rightarrow> go_time \<Rightarrow> go_time \<Rightarrow> nat \<Rightarrow> PubSubMessage option \<Rightarrow> ('q, 't) Mailbox \<Rightarrow> ('q, 't) Mailbox" where
  "mail_receive ord start now i received m =
    (case (mb_loops m ! i, received) of
       (MailRunning ch, Some msg) \<Rightarrow>
         (case storeMessage ord msg m of (r, m1) \<Rightarrow> m1\<lparr>mb_metrics := mail_counted start now msg r (mb_metrics m1)\<rparr>)
     | _ \<Rightarrow> m)"

text \<open>One step of the program: a call, the end of the caller's context, or a move of a goroutine.\<close>

datatype mailbox_step =
    MailStart | MailStop | MailContextDone | MailBegin nat
  | MailReceive nat "string list" go_time go_time "PubSubMessage option" | MailCancelled nat

definition mailbox_exec :: "mailbox_step \<Rightarrow> ('q, 't) Mailbox \<Rightarrow> ('q, 't) Mailbox" where
  "mailbox_exec step m =
    (case step of
       MailStart \<Rightarrow> snd (mb_Start m)
     | MailStop \<Rightarrow> mb_Stop m
     | MailContextDone \<Rightarrow> m\<lparr>mb_cancelled := True\<rparr>
     | MailBegin i \<Rightarrow> if i < length (mb_loops m) \<and> mb_loops m ! i = MailStarting then mail_begin i m else m
     | MailReceive i ord start now received \<Rightarrow> if i < length (mb_loops m) then mail_receive ord start now i received m else m
     | MailCancelled i \<Rightarrow>
         (if i < length (mb_loops m) \<and> mb_cancelled m
          then (case mb_loops m ! i of MailRunning _ \<Rightarrow> end_mail_loop i m | _ \<Rightarrow> m) else m))"

subsection \<open>Queries, statistics and health\<close>

definition mb_QueryEvents :: "EventFilter \<Rightarrow> ('q, 't) Mailbox \<Rightarrow> (mailbox_error + MailboxEvent list) \<times> ('q, 't) Mailbox" where
  "mb_QueryEvents f m =
    (case mb_tableReader m of
       None \<Rightarrow> (Inl TableReaderNotBound, m)
     | Some R \<Rightarrow> (case tr_QueryEvents R f (mb_table m) of
         (r, t) \<Rightarrow> (case r of Inl e \<Rightarrow> Inl (TableError e) | Inr es \<Rightarrow> Inr es, m\<lparr>mb_table := t\<rparr>)))"

definition mb_GetEvent :: "string \<Rightarrow> ('q, 't) Mailbox \<Rightarrow> (mailbox_error + MailboxEvent option) \<times> ('q, 't) Mailbox" where
  "mb_GetEvent messageID m =
    (case mb_tableReader m of
       None \<Rightarrow> (Inl TableReaderNotBound, m)
     | Some R \<Rightarrow> (case tr_GetEvent R messageID (mb_table m) of
         (r, t) \<Rightarrow> (case r of Inl e \<Rightarrow> Inl (TableError e) | Inr ev \<Rightarrow> Inr ev, m\<lparr>mb_table := t\<rparr>)))"

text \<open>The statistics: the metrics, and those of the table when a writer is bound and answers.\<close>

definition mb_GetStats :: "('q, 't) Mailbox \<Rightarrow> (MailboxMetrics \<times> TableStats option) \<times> ('q, 't) Mailbox" where
  "mb_GetStats m =
    (case mb_tableWriter m of
       None \<Rightarrow> ((mb_metrics m, None), m)
     | Some W \<Rightarrow> (case tw_GetTableStats W (mb_table m) of
         (r, t) \<Rightarrow> ((mb_metrics m, case r of Inl _ \<Rightarrow> None | Inr s \<Rightarrow> Some s), m\<lparr>mb_table := t\<rparr>)))"

text \<open>
  The health; \<open>fl\<close> rounds a real to the nearest double and \<open>percent\<close> is the verb \<open>%.2f\<close> of
  \<open>fmt.Sprintf\<close>.
\<close>

definition mb_Health :: "(real \<Rightarrow> real) \<Rightarrow> (real \<Rightarrow> string) \<Rightarrow> ('q, 't) Mailbox \<Rightarrow> HealthStatus" where
  "mb_Health fl percent m =
    (let mm = mb_metrics m;
         details = [(''name'', mb_name m), (''topic'', bb_Topic (bc_Behavior (mb_config m))),
           (''running'', if mb_running m then ''true'' else ''false''), (''events_received'', itoa (mm_EventsReceived mm)),
           (''events_stored'', itoa (mm_EventsStored mm)), (''events_failed'', itoa (mm_EventsFailed mm))];
         rate = fl (fl (real_of_int (mm_EventsFailed mm)) / fl (real_of_int (mm_EventsReceived mm)))
     in if mm_EventsReceived mm > 0 \<and> rate > fl (1 / 10)
        then \<lparr>hs_Status = HealthDegraded, hs_Message = ''high failure rate: '' @ percent (fl (rate * 100)) @ ''%'', hs_Details = details\<rparr>
        else if \<not> mb_running m then \<lparr>hs_Status = HealthDegraded, hs_Message = ''mailbox not running'', hs_Details = details\<rparr>
        else \<lparr>hs_Status = HealthHealthy, hs_Message = ''mailbox operating normally'', hs_Details = details\<rparr>)"

subsection \<open>What is stored\<close>

text \<open>The event a message stands for, with the custom headers given at once.\<close>

definition event_of :: "PubSubMessage \<Rightarrow> MailboxEvent" where
  "event_of msg = \<lparr>me_MessageID = psm_MessageID msg, me_Timestamp = psm_Timestamp msg, me_Topic = psm_Topic msg,
     me_ContentType = header msg ''prism-content-type'', me_SchemaID = header msg ''prism-schema-id'',
     me_Encryption = header msg ''prism-encryption'', me_CorrelationID = header msg ''prism-correlation-id'',
     me_Principal = header msg ''prism-principal'', me_Namespace = header msg ''prism-namespace'',
     me_CustomHeaders = psm_Metadata msg |` {k. \<exists>rest. rest \<noteq> [] \<and> k = ''x-'' @ rest}, me_Body = psm_Payload msg\<rparr>"

text \<open>A writer that notes the events it is given and whether it stored them.\<close>

definition noting_writer :: "'t TableWriterInterface \<Rightarrow> ('t \<times> (MailboxEvent \<times> bool) list) TableWriterInterface" where
  "noting_writer W = \<lparr>tw_WriteEvent = (\<lambda>e (t, l). case tw_WriteEvent W e t of (r, t') \<Rightarrow> (r, (t', l @ [(e, \<not> isl r)]))),
     tw_DeleteOldEvents = (\<lambda>n (t, l). case tw_DeleteOldEvents W n t of (r, t') \<Rightarrow> (r, (t', l))),
     tw_GetTableStats = (\<lambda>(t, l). case tw_GetTableStats W t of (r, t') \<Rightarrow> (r, (t', l)))\<rparr>"

type_synonym mail = "string list \<times> go_time \<times> go_time \<times> PubSubMessage"

definition receive_mail :: "nat \<Rightarrow> mail list \<Rightarrow> ('q, 't) Mailbox \<Rightarrow> ('q, 't) Mailbox" where
  "receive_mail i mails m = fold (\<lambda>(ord, start, now, msg). mailbox_exec (MailReceive i ord start now (Some msg))) mails m"

definition stored :: "(MailboxEvent \<times> bool) list \<Rightarrow> MailboxEvent list" where
  "stored outcomes = map fst (filter snd outcomes)"

lemma int64_add [simp]: "int64 (int64 x + y) = int64 (x + y)"
  by (simp add: int64_def mod_simps algebra_simps)

lemma custom_prefix: "length k > 2 \<and> take 2 k = ''x-'' \<longleftrightarrow> (\<exists>rest. rest \<noteq> [] \<and> k = ''x-'' @ rest)"
  by (cases k rule: remdups_adj.cases) (auto simp: numeral_2_eq_2)

lemma custom_headers_exact:
  "custom_headers ord md acc = (\<lambda>k. if k \<in> set ord \<and> k \<in> dom md \<and> length k > 2 \<and> take 2 k = ''x-'' then md k else acc k)"
  by (induction ord md acc rule: custom_headers.induct) (auto simp: fun_eq_iff split: option.splits)

lemma mailbox_event_of:
  assumes "set ord = dom (psm_Metadata msg)"
  shows "mailbox_event ord msg = event_of msg"
  unfolding mailbox_event_def event_of_def custom_headers_exact assms custom_prefix
  by (auto simp: restrict_map_def fun_eq_iff domIff)

text \<open>The counters hold 64-bit values.\<close>

definition counters_ok :: "MailboxMetrics \<Rightarrow> bool" where
  "counters_ok mm \<longleftrightarrow> (\<forall>f \<in> {mm_EventsReceived, mm_EventsStored, mm_EventsFailed, mm_BytesStored}. int64 (f mm) = f mm)"

definition accounted :: "(MailboxEvent \<times> bool) list \<Rightarrow> MailboxMetrics \<Rightarrow> MailboxMetrics \<Rightarrow> bool" where
  "accounted outcomes mm mm' \<longleftrightarrow>
     mm_EventsReceived mm' = int64 (mm_EventsReceived mm + int (length outcomes))
   \<and> mm_EventsStored mm' = int64 (mm_EventsStored mm + int (length (stored outcomes)))
   \<and> mm_EventsFailed mm' = int64 (mm_EventsFailed mm + int (length (filter (Not \<circ> snd) outcomes)))
   \<and> mm_BytesStored mm' = int64 (mm_BytesStored mm + (\<Sum>e\<leftarrow>stored outcomes. int (length (me_Body e))))"

lemma int64_idem [simp]: "int64 (int64 x) = int64 x"
  using int64_add [of x 0] by simp

lemma accounted_Nil: "counters_ok mm \<Longrightarrow> accounted [] mm mm"
  by (simp add: accounted_def counters_ok_def stored_def)

lemma accounted_step:
  assumes "counters_ok mm" "me_Body e = psm_Payload msg"
  shows "counters_ok (mail_counted start now msg r mm)"
    and "accounted outcomes (mail_counted start now msg r mm) mm' \<Longrightarrow> accounted ((e, \<not> isl r) # outcomes) mm mm'"
  using assms by (cases r; simp add: accounted_def counters_ok_def stored_def mail_counted_def add.assoc; fail)+

lemma receive_step:
  assumes "i < length (mb_loops m)" "mb_loops m ! i = MailRunning ch" "mb_tableWriter m = Some (noting_writer W)"
    and "mb_table m = (t, l)" "set ord = dom (psm_Metadata msg)" "tw_WriteEvent W (event_of msg) t = (r, t')"
  shows "mailbox_exec (MailReceive i ord start now (Some msg)) m
    = m\<lparr>mb_table := (t', l @ [(event_of msg, \<not> isl r)]), mb_metrics := mail_counted start now msg r (mb_metrics m)\<rparr>"
  using assms by (simp add: mailbox_exec_def mail_receive_def storeMessage_def mailbox_event_of noting_writer_def)

lemma receive_mail_result:
  assumes "i < length (mb_loops m)" "mb_loops m ! i = MailRunning ch" "mb_tableWriter m = Some (noting_writer W)"
    and "mb_table m = (t, l)" "counters_ok (mb_metrics m)"
    and "\<forall>(ord, start, now, msg) \<in> set mails. set ord = dom (psm_Metadata msg)"
  shows "\<exists>t' outcomes. mb_table (receive_mail i mails m) = (t', l @ outcomes)
    \<and> map fst outcomes = map (\<lambda>(_, _, _, msg). event_of msg) mails
    \<and> accounted outcomes (mb_metrics m) (mb_metrics (receive_mail i mails m))"
  using assms
proof (induction mails arbitrary: m t l)
  case Nil
  then show ?case by (simp add: receive_mail_def accounted_Nil)
next
  case (Cons x mails)
  obtain ord start now msg where x: "x = (ord, start, now, msg)" by (cases x)
  obtain r t1 where w: "tw_WriteEvent W (event_of msg) t = (r, t1)" by fastforce
  let ?m = "m\<lparr>mb_table := (t1, l @ [(event_of msg, \<not> isl r)]), mb_metrics := mail_counted start now msg r (mb_metrics m)\<rparr>"
  have step: "receive_mail i (x # mails) m = receive_mail i mails ?m"
    using receive_step [OF Cons.prems(1-4) _ w] Cons.prems(6) by (simp add: receive_mail_def x)
  have body: "me_Body (event_of msg) = psm_Payload msg" by (simp add: event_of_def)
  have "\<exists>t' outcomes. mb_table (receive_mail i mails ?m) = (t', (l @ [(event_of msg, \<not> isl r)]) @ outcomes)
      \<and> map fst outcomes = map (\<lambda>(_, _, _, msg). event_of msg) mails
      \<and> accounted outcomes (mb_metrics ?m) (mb_metrics (receive_mail i mails ?m))"
    by (rule Cons.IH) (use Cons.prems accounted_step(1) [OF Cons.prems(5) body] in auto)
  then obtain t' outcomes where "mb_table (receive_mail i mails ?m) = (t', l @ (event_of msg, \<not> isl r) # outcomes)"
    "map fst outcomes = map (\<lambda>(_, _, _, msg). event_of msg) mails"
    "accounted outcomes (mail_counted start now msg r (mb_metrics m)) (mb_metrics (receive_mail i mails ?m))" by auto
  then show ?case unfolding step using accounted_step(2) [OF Cons.prems(5) body]
    by (intro exI [of _ t'] exI [of _ "(event_of msg, \<not> isl r) # outcomes"]) (simp add: x)
qed

text \<open>
  C40: a mailbox offers every message it receives to the table writer exactly once and in order,
  as the event with the payload, the six standard headers and exactly the custom headers of the
  message, whether the writer stores it or not.  The metrics count the received, stored and
  failed events and the bytes of the stored ones.
\<close>

theorem mailbox_stores_each_message:
  assumes "i < length (mb_loops m)" "mb_loops m ! i = MailRunning ch" "mb_tableWriter m = Some (noting_writer W)"
    and "mb_table m = (t, [])" "counters_ok (mb_metrics m)"
    and "\<forall>(ord, start, now, msg) \<in> set mails. set ord = dom (psm_Metadata msg)" "m' = receive_mail i mails m"
  shows "\<exists>t' outcomes. mb_table m' = (t', outcomes) \<and> map fst outcomes = map (\<lambda>(_, _, _, msg). event_of msg) mails
    \<and> accounted outcomes (mb_metrics m) (mb_metrics m')"
  using receive_mail_result [OF assms(1-6)] unfolding assms(7) append_Nil .

subsection \<open>Example\<close>

definition demo_writer :: "unit TableWriterInterface" where
  "demo_writer = \<lparr>tw_WriteEvent = (\<lambda>e t. (if me_Principal e = [] then Inl ''refused'' else Inr (), t)),
     tw_DeleteOldEvents = (\<lambda>n t. (Inr 0, t)), tw_GetTableStats = (\<lambda>t. (Inl ''unavailable'', t))\<rparr>"

definition demo_mailbox :: "(unit, unit \<times> (MailboxEvent \<times> bool) list) Mailbox" where
  "demo_mailbox = \<lparr>mb_name = ''box'', mb_config = \<lparr>bc_Name = ''box'', bc_Behavior = \<lparr>bb_Topic = ''t'', bb_ConsumerGroup = ''g'', bb_AutoCommit = True\<rparr>,
       bc_Storage = \<lparr>sc_DatabasePath = ''d'', sc_TableName = ''mailbox'', sc_RetentionDays = 90, sc_CleanupInterval = 86400000000000\<rparr>\<rparr>,
     mb_messageSource = None,
     mb_tableWriter = Some (noting_writer demo_writer),
     mb_tableReader = None, mb_running = True, mb_cancelled = False,
     mb_metrics = \<lparr>mm_EventsReceived = 0, mm_EventsStored = 0, mm_EventsFailed = 0, mm_BytesStored = 0, mm_LastEventTime = 0, mm_ProcessingLatency = 0\<rparr>,
     mb_loops = [MailRunning 0], mb_source = (), mb_table = ((), [])\<rparr>"

definition demo_mail :: "(string \<rightharpoonup> string) \<Rightarrow> PubSubMessage" where
  "demo_mail md = \<lparr>psm_Topic = ''t'', psm_Payload = ''hi'', psm_Metadata = md, psm_MessageID = ''1'', psm_Timestamp = 5\<rparr>"

lemma demo_mailbox_fields:
  "0 < length (mb_loops demo_mailbox)" "mb_loops demo_mailbox ! 0 = MailRunning 0"
  "mb_tableWriter demo_mailbox = Some (noting_writer demo_writer)" "mb_table demo_mailbox = ((), [])" "counters_ok (mb_metrics demo_mailbox)"
  by (simp_all add: demo_mailbox_def counters_ok_def int64_def)

theorem mailbox_stores_each_message_witness:
  "map fst (snd (mb_table (receive_mail 0 [([''x-a'', ''prism-principal''], 1, 2, demo_mail [''x-a'' \<mapsto> ''v'', ''prism-principal'' \<mapsto> ''p'']),
       ([], 3, 4, demo_mail Map.empty)] demo_mailbox)))
     = [event_of (demo_mail [''x-a'' \<mapsto> ''v'', ''prism-principal'' \<mapsto> ''p'']), event_of (demo_mail Map.empty)]"
proof -
  let ?mails = "[([''x-a'', ''prism-principal''], 1, 2, demo_mail [''x-a'' \<mapsto> ''v'', ''prism-principal'' \<mapsto> ''p'']), ([], 3, 4, demo_mail Map.empty)]"
  have "\<forall>(ord, start, now, msg) \<in> set ?mails. set ord = dom (psm_Metadata msg)" by (auto simp: demo_mail_def split: if_splits)
  from mailbox_stores_each_message [OF demo_mailbox_fields this refl] show ?thesis by auto
qed

end
