(* ===== verification/Plugin_Lifecycle.thy ===== *)
theory Plugin_Lifecycle
  imports Mem_Store
begin

text \<open>
  The runtime of a pattern process (\<open>src/pkg/plugin\<close>): the conversion of a protobuf
  configuration (\<open>config_parser.go\<close>) and the lifecycle service that wraps a plugin
  (\<open>lifecycle_service.go\<close>).  The plugin is a record of its methods over a state of its own.
  A protobuf \<open>Struct\<close> and a Go map inside a configuration are association lists with distinct
  keys; their order is the iteration order of the map.
\<close>

subsection \<open>Configurations\<close>

datatype pb_value =
    NullValue | NumberValue real | StringValue string | BoolValue bool
  | StructValue "(string \<times> pb_value) list" | ListValue "pb_value list" | NoKind

datatype config_any = AnyNil | AnyNumber real | AnyString string | AnyBool bool | AnyMap "(string \<times> config_any) list" | AnyList "config_any list"

fun structValueToAny :: "pb_value \<Rightarrow> config_any" where
  "structValueToAny NullValue = AnyNil"
| "structValueToAny (NumberValue x) = AnyNumber x"
| "structValueToAny (StringValue s) = AnyString s"
| "structValueToAny (BoolValue b) = AnyBool b"
| "structValueToAny (StructValue fs) = AnyMap (map (\<lambda>(k, v). (k, structValueToAny v)) fs)"
| "structValueToAny (ListValue vs) = AnyList (map structValueToAny vs)"
| "structValueToAny NoKind = AnyNil"

definition structToMap :: "(string \<times> pb_value) list \<Rightarrow> (string \<times> config_any) list" where
  "structToMap fs = map (\<lambda>(k, v). (k, structValueToAny v)) fs"

record PluginConfig =
  cg_Name :: string
  cg_Version :: string
  cg_Port :: int
  cg_Backend :: "string \<rightharpoonup> config_any"

text \<open>The entries \<open>slots\<close> and \<open>behavior\<close> are taken over only when they are structs.\<close>

definition parse_struct :: "string \<Rightarrow> (string \<times> pb_value) list \<Rightarrow> (string \<rightharpoonup> config_any) \<Rightarrow> (string \<rightharpoonup> config_any)" where
  "parse_struct k fs backend =
    (case map_of fs k of Some (StructValue s) \<Rightarrow> backend(k \<mapsto> AnyMap (structToMap s)) | _ \<Rightarrow> backend)"

fun parse_others :: "(string \<times> pb_value) list \<Rightarrow> (string \<rightharpoonup> config_any) \<Rightarrow> (string \<rightharpoonup> config_any)" where
  "parse_others [] backend = backend"
| "parse_others ((k, v) # fs) backend =
    parse_others fs (if k = ''slots'' \<or> k = ''behavior'' then backend else backend(k \<mapsto> structValueToAny v))"

definition ParseConfigFromStruct :: "string \<Rightarrow> string \<Rightarrow> (string \<times> pb_value) list \<Rightarrow> PluginConfig" where
  "ParseConfigFromStruct name version fs = \<lparr>cg_Name = name, cg_Version = version, cg_Port = 0,
     cg_Backend = parse_others fs (parse_struct ''behavior'' fs (parse_struct ''slots'' fs Map.empty))\<rparr>"

subsection \<open>Plugins\<close>

record InterfaceDeclaration =
  id_Name :: string
  id_ProtoFile :: string
  id_Version :: string
  id_ProtoHash :: string

record DrainMetrics =
  dm_DrainedOperations :: int
  dm_AbortedOperations :: int

record 'p Plugin =
  pl_Name :: "'p \<Rightarrow> string"
  pl_Version :: "'p \<Rightarrow> string"
  pl_Initialize :: "PluginConfig \<Rightarrow> 'p \<Rightarrow> string option \<times> 'p"
  pl_Start :: "'p \<Rightarrow> string option \<times> 'p"
  pl_Drain :: "int \<Rightarrow> string \<Rightarrow> 'p \<Rightarrow> (string + DrainMetrics) \<times> 'p"
  pl_Stop :: "'p \<Rightarrow> string option \<times> 'p"
  pl_Health :: "'p \<Rightarrow> (string + HealthStatus) \<times> 'p"
  pl_GetInterfaceDeclarations :: "'p \<Rightarrow> InterfaceDeclaration list"

subsection \<open>The lifecycle service\<close>

record PatternMetadata =
  md_Name :: string
  md_Version :: string
  md_Interfaces :: "InterfaceDeclaration list"

record InitializeResponse =
  ir_Success :: bool
  ir_Error :: string
  ir_Metadata :: "PatternMetadata option"

record StartResponse =
  sr_Success :: bool
  sr_Error :: string
  sr_DataEndpoint :: string

record DrainResponse =
  dr_Success :: bool
  dr_Error :: string
  dr_DrainedOperations :: int
  dr_AbortedOperations :: int

record StopResponse =
  so_Success :: bool
  so_Error :: string

datatype pb_HealthStatus = HEALTH_STATUS_UNSPECIFIED | HEALTH_STATUS_HEALTHY | HEALTH_STATUS_DEGRADED | HEALTH_STATUS_UNHEALTHY

record HealthCheckResponse =
  hk_Status :: pb_HealthStatus
  hk_Message :: string
  hk_Details :: "(string \<times> string) list"

record 'p LifecycleService =
  ls_plugin :: 'p
  ls_config :: "PluginConfig option"

definition NewLifecycleService :: "'p \<Rightarrow> 'p LifecycleService" where
  "NewLifecycleService p = \<lparr>ls_plugin = p, ls_config = None\<rparr>"

definition minimal_config :: "string \<Rightarrow> string \<Rightarrow> PluginConfig" where
  "minimal_config name version = \<lparr>cg_Name = name, cg_Version = version, cg_Port = 9090, cg_Backend = Map.empty\<rparr>"

definition ls_Initialize :: "'p Plugin \<Rightarrow> string \<Rightarrow> string \<Rightarrow> (string \<times> pb_value) list option \<Rightarrow> 'p LifecycleService
    \<Rightarrow> InitializeResponse \<times> 'p LifecycleService" where
  "ls_Initialize P name version given s =
    (let config = (case given of Some fs \<Rightarrow> ParseConfigFromStruct name version fs | None \<Rightarrow> minimal_config name version)
     in case pl_Initialize P config (ls_plugin s) of
          (Some e, p) \<Rightarrow> (\<lparr>ir_Success = False, ir_Error = e, ir_Metadata = None\<rparr>, \<lparr>ls_plugin = p, ls_config = Some config\<rparr>)
        | (None, p) \<Rightarrow> (\<lparr>ir_Success = True, ir_Error = [],
            ir_Metadata = Some \<lparr>md_Name = pl_Name P p, md_Version = pl_Version P p, md_Interfaces = pl_GetInterfaceDeclarations P p\<rparr>\<rparr>,
            \<lparr>ls_plugin = p, ls_config = Some config\<rparr>))"

definition ls_Start :: "'p Plugin \<Rightarrow> 'p LifecycleService \<Rightarrow> StartResponse \<times> 'p LifecycleService" where
  "ls_Start P s = (case pl_Start P (ls_plugin s) of
     (Some e, p) \<Rightarrow> (\<lparr>sr_Success = False, sr_Error = e, sr_DataEndpoint = []\<rparr>, s\<lparr>ls_plugin := p\<rparr>)
   | (None, p) \<Rightarrow> (\<lparr>sr_Success = True, sr_Error = [], sr_DataEndpoint = []\<rparr>, s\<lparr>ls_plugin := p\<rparr>))"

definition ls_Drain :: "'p Plugin \<Rightarrow> int \<Rightarrow> string \<Rightarrow> 'p LifecycleService \<Rightarrow> DrainResponse \<times> 'p LifecycleService" where
  "ls_Drain P timeout reason s = (case pl_Drain P timeout reason (ls_plugin s) of
     (Inl e, p) \<Rightarrow> (\<lparr>dr_Success = False, dr_Error = e, dr_DrainedOperations = 0, dr_AbortedOperations = 0\<rparr>, s\<lparr>ls_plugin := p\<rparr>)
   | (Inr m, p) \<Rightarrow> (\<lparr>dr_Success = True, dr_Error = [], dr_DrainedOperations = dm_DrainedOperations m,
       dr_AbortedOperations = dm_AbortedOperations m\<rparr>, s\<lparr>ls_plugin := p\<rparr>))"

definition ls_Stop :: "'p Plugin \<Rightarrow> 'p LifecycleService \<Rightarrow> StopResponse \<times> 'p LifecycleService" where
  "ls_Stop P s = (case pl_Stop P (ls_plugin s) of
     (Some e, p) \<Rightarrow> (\<lparr>so_Success = False, so_Error = e\<rparr>, s\<lparr>ls_plugin := p\<rparr>)
   | (None, p) \<Rightarrow> (\<lparr>so_Success = True, so_Error = []\<rparr>, s\<lparr>ls_plugin := p\<rparr>))"

fun pb_health :: "HealthState \<Rightarrow> pb_HealthStatus" where
  "pb_health HealthHealthy = HEALTH_STATUS_HEALTHY"
| "pb_health HealthDegraded = HEALTH_STATUS_DEGRADED"
| "pb_health HealthUnhealthy = HEALTH_STATUS_UNHEALTHY"
| "pb_health HealthUnknown = HEALTH_STATUS_UNSPECIFIED"

definition ls_HealthCheck :: "'p Plugin \<Rightarrow> 'p LifecycleService \<Rightarrow> HealthCheckResponse \<times> 'p LifecycleService" where
  "ls_HealthCheck P s = (case pl_Health P (ls_plugin s) of
     (Inl e, p) \<Rightarrow> (\<lparr>hk_Status = HEALTH_STATUS_UNHEALTHY, hk_Message = e, hk_Details = []\<rparr>, s\<lparr>ls_plugin := p\<rparr>)
   | (Inr h, p) \<Rightarrow> (\<lparr>hk_Status = pb_health (hs_Status h), hk_Message = hs_Message h, hk_Details = hs_Details h\<rparr>, s\<lparr>ls_plugin := p\<rparr>))"

subsection \<open>What a configuration holds\<close>

lemma parse_others_exact:
  "distinct (map fst fs) \<Longrightarrow> parse_others fs backend k
    = (if k = ''slots'' \<or> k = ''behavior'' then backend k else case map_of fs k of Some v \<Rightarrow> Some (structValueToAny v) | None \<Rightarrow> backend k)"
proof (induction fs backend rule: parse_others.induct)
  case (2 key v fs backend)
  have "map_of fs key = None" using "2.prems" by (simp add: map_of_eq_None_iff)
  then show ?case using 2 by (cases "k = key") (auto split: option.splits)
qed simp

lemma parse_struct_at:
  "parse_struct key fs backend k = (if k \<noteq> key then backend k
     else case map_of fs k of Some v \<Rightarrow> if \<exists>s. v = StructValue s then Some (structValueToAny v) else backend k | None \<Rightarrow> backend k)"
  by (simp add: parse_struct_def structToMap_def split: option.split pb_value.split)

lemma ParseConfigFromStruct_backend:
  assumes "distinct (map fst fs)"
  shows "cg_Backend (ParseConfigFromStruct name version fs) k = (case map_of fs k of
      None \<Rightarrow> None
    | Some v \<Rightarrow> if (k = ''slots'' \<or> k = ''behavior'') \<and> \<not> (\<exists>s. v = StructValue s) then None else Some (structValueToAny v))"
  using assms
  by (cases "k = ''slots''"; cases "k = ''behavior''"; cases "map_of fs k") (simp_all add: ParseConfigFromStruct_def parse_others_exact parse_struct_at)

end
