(* ===== verification/Proxy.thy ===== *)
theory Proxy
  imports Plugin_Lifecycle "HOL-Library.Word"
begin

text \<open>
  The proxy (\<open>src/prism-proxy/src\<close>): patterns and the pattern manager (\<open>pattern/mod.rs\<close>), the
  client of a pattern's lifecycle service (\<open>pattern/client.rs\<close>) and the server with its drain
  sequence (\<open>server/mod.rs\<close>).

  Processes, connections, remote calls and the clock are outside: they are the operations of
  \<open>proxy_env\<close> on a world of any type.  A client is the endpoint it is connected to, and a child
  process is its identifier.  Every operation of the manager on a pattern holds the write lock
  of the map from start to end, so that operations do not interleave.
\<close>

subsection \<open>The environment\<close>

record 'w proxy_env =
  xe_spawn :: "string \<Rightarrow> string list \<Rightarrow> 'w \<Rightarrow> (string + int) \<times> 'w"
  xe_connect :: "string \<Rightarrow> 'w \<Rightarrow> (string + unit) \<times> 'w"
  xe_initialize :: "string \<Rightarrow> string \<Rightarrow> string \<Rightarrow> (string \<times> pb_value) list option \<Rightarrow> 'w \<Rightarrow> (string + InitializeResponse) \<times> 'w"
  xe_start :: "string \<Rightarrow> 'w \<Rightarrow> (string + StartResponse) \<times> 'w"
  xe_drain :: "string \<Rightarrow> int \<Rightarrow> string \<Rightarrow> 'w \<Rightarrow> (string + DrainResponse) \<times> 'w"
  xe_stop :: "string \<Rightarrow> int \<Rightarrow> 'w \<Rightarrow> (string + StopResponse) \<times> 'w"
  xe_health :: "string \<Rightarrow> 'w \<Rightarrow> (string + HealthCheckResponse) \<times> 'w"
  xe_kill :: "int \<Rightarrow> 'w \<Rightarrow> 'w"
  xe_sleep :: "int \<Rightarrow> 'w \<Rightarrow> 'w"

subsection \<open>Patterns\<close>

datatype PatternStatus = Uninitialized | Starting | Running | Degraded | Stopping | Stopped | Failed string

record Pattern =
  pn_name :: string
  pn_version :: string
  pn_binary_path :: string
  pn_status :: PatternStatus
  pn_process :: "int option"
  pn_grpc_endpoint :: "string option"
  pn_client :: "string option"
  pn_config :: "(string \<times> pb_value) list"
  pn_interfaces :: "InterfaceDeclaration list"

definition pattern_new :: "string \<Rightarrow> string \<Rightarrow> Pattern" where
  "pattern_new name binary_path = \<lparr>pn_name = name, pn_version = [], pn_binary_path = binary_path, pn_status = Uninitialized,
     pn_process = None, pn_grpc_endpoint = None, pn_client = None, pn_config = [], pn_interfaces = []\<rparr>"

definition with_config :: "(string \<times> pb_value) list \<Rightarrow> Pattern \<Rightarrow> Pattern" where
  "with_config config p = p\<lparr>pn_config := config\<rparr>"

definition is_running :: "Pattern \<Rightarrow> bool" where
  "is_running p \<longleftrightarrow> pn_status p = Running \<or> pn_status p = Degraded"

subsection \<open>The client\<close>

text \<open>The configuration is not converted: the request always carries an empty struct.\<close>

definition json_value_to_prost_struct :: "(string \<times> pb_value) list \<Rightarrow> (string \<times> pb_value) list" where
  "json_value_to_prost_struct value = []"

definition client_initialize :: "'w proxy_env \<Rightarrow> string \<Rightarrow> string \<Rightarrow> string \<Rightarrow> (string \<times> pb_value) list \<Rightarrow> 'w
    \<Rightarrow> (string + PatternMetadata option) \<times> 'w" where
  "client_initialize E ep name version config w =
    (case xe_initialize E ep name version (Some (json_value_to_prost_struct config)) w of
       (Inl e, w1) \<Rightarrow> (Inl e, w1)
     | (Inr r, w1) \<Rightarrow> (if ir_Success r then Inr (ir_Metadata r) else Inl (''Initialize failed: '' @ ir_Error r), w1))"

definition client_start :: "'w proxy_env \<Rightarrow> string \<Rightarrow> 'w \<Rightarrow> (string + string) \<times> 'w" where
  "client_start E ep w =
    (case xe_start E ep w of
       (Inl e, w1) \<Rightarrow> (Inl e, w1)
     | (Inr r, w1) \<Rightarrow> (if sr_Success r then Inr (sr_DataEndpoint r) else Inl (''Start failed: '' @ sr_Error r), w1))"

definition client_drain :: "'w proxy_env \<Rightarrow> string \<Rightarrow> int \<Rightarrow> string \<Rightarrow> 'w \<Rightarrow> (string + unit) \<times> 'w" where
  "client_drain E ep timeout reason w =
    (case xe_drain E ep timeout reason w of
       (Inl e, w1) \<Rightarrow> (Inl e, w1)
     | (Inr r, w1) \<Rightarrow> (if dr_Success r then Inr () else Inl (''Drain failed: '' @ dr_Error r), w1))"

definition client_stop :: "'w proxy_env \<Rightarrow> string \<Rightarrow> int \<Rightarrow> 'w \<Rightarrow> (string + unit) \<times> 'w" where
  "client_stop E ep timeout w =
    (case xe_stop E ep timeout w of
       (Inl e, w1) \<Rightarrow> (Inl e, w1)
     | (Inr r, w1) \<Rightarrow> (if so_Success r then Inr () else Inl (''Stop failed: '' @ so_Error r), w1))"

fun health_to_status :: "pb_HealthStatus \<Rightarrow> string \<Rightarrow> PatternStatus" where
  "health_to_status HEALTH_STATUS_HEALTHY message = Running"
| "health_to_status HEALTH_STATUS_DEGRADED message = Degraded"
| "health_to_status HEALTH_STATUS_UNHEALTHY message = Failed message"
| "health_to_status HEALTH_STATUS_UNSPECIFIED message = Failed ''Unknown health status''"

definition client_health_check :: "'w proxy_env \<Rightarrow> string \<Rightarrow> 'w \<Rightarrow> (string + PatternStatus) \<times> 'w" where
  "client_health_check E ep w =
    (case xe_health E ep w of
       (Inl e, w1) \<Rightarrow> (Inl e, w1)
     | (Inr r, w1) \<Rightarrow> (Inr (health_to_status (hk_Status r) (hk_Message r)), w1))"

subsection \<open>The steps of a pattern\<close>

definition spawn :: "'w proxy_env \<Rightarrow> 16 word \<Rightarrow> Pattern \<times> 'w \<Rightarrow> (string + unit) \<times> Pattern \<times> 'w" where
  "spawn E port = (\<lambda>(p, w).
    case xe_spawn E (pn_binary_path p) [''--grpc-port'', itoa (uint port)] w of
      (Inl e, w1) \<Rightarrow> (Inl e, p, w1)
    | (Inr child, w1) \<Rightarrow> (Inr (), p\<lparr>pn_process := Some child, pn_grpc_endpoint := Some (''http://localhost:'' @ itoa (uint port))\<rparr>, xe_sleep E 500 w1))"

text \<open>At most five attempts; the delay in milliseconds doubles up to two seconds.\<close>

function connect_loop :: "'w proxy_env \<Rightarrow> string \<Rightarrow> nat \<Rightarrow> int \<Rightarrow> 'w \<Rightarrow> (string + unit) \<times> 'w" where
  "connect_loop E ep attempt delay w =
    (case xe_connect E ep w of
       (Inr _, w1) \<Rightarrow> (Inr (), w1)
     | (Inl e, w1) \<Rightarrow>
         if attempt \<ge> 5 then (Inl e, w1)
         else connect_loop E ep (attempt + 1) (min (delay * 2) 2000) (xe_sleep E delay w1))"
  by pat_completeness auto

termination connect_loop
  by (relation "measure (\<lambda>(E, ep, attempt, delay, w). 5 - attempt)") auto

declare connect_loop.simps [simp del]

definition connect_client :: "'w proxy_env \<Rightarrow> Pattern \<times> 'w \<Rightarrow> (string + unit) \<times> Pattern \<times> 'w" where
  "connect_client E = (\<lambda>(p, w).
    case pn_grpc_endpoint p of
      None \<Rightarrow> (Inl ''No gRPC endpoint available'', p, w)
    | Some ep \<Rightarrow>
        (case connect_loop E ep 1 100 w of
           (Inl e, w1) \<Rightarrow> (Inl e, p, w1)
         | (Inr _, w1) \<Rightarrow> (Inr (), p\<lparr>pn_client := Some ep\<rparr>, w1)))"

definition initialize_pattern :: "'w proxy_env \<Rightarrow> Pattern \<times> 'w \<Rightarrow> (string + unit) \<times> Pattern \<times> 'w" where
  "initialize_pattern E = (\<lambda>(p, w).
    case pn_client p of
      None \<Rightarrow> (Inl ''No gRPC client available'', p, w)
    | Some ep \<Rightarrow>
        (case client_initialize E ep (pn_name p) (pn_version p) (pn_config p) w of
           (Inl e, w1) \<Rightarrow> (Inl e, p, w1)
         | (Inr None, w1) \<Rightarrow> (Inr (), p, w1)
         | (Inr (Some m), w1) \<Rightarrow> (Inr (), p\<lparr>pn_version := md_Version m, pn_interfaces := md_Interfaces m\<rparr>, w1)))"

definition pat_start_pattern :: "'w proxy_env \<Rightarrow> Pattern \<times> 'w \<Rightarrow> (string + unit) \<times> Pattern \<times> 'w" where
  "pat_start_pattern E = (\<lambda>(p, w).
    case pn_client p of
      None \<Rightarrow> (Inl ''No gRPC client available'', p, w)
    | Some ep \<Rightarrow> (case client_start E ep w of (Inl e, w1) \<Rightarrow> (Inl e, p, w1) | (Inr _, w1) \<Rightarrow> (Inr (), p, w1)))"

text \<open>A failing stop call is only logged; the process is killed in any case.\<close>

definition pat_stop_pattern :: "'w proxy_env \<Rightarrow> Pattern \<times> 'w \<Rightarrow> Pattern \<times> 'w" where
  "pat_stop_pattern E = (\<lambda>(p, w).
    let w1 = (case pn_client p of None \<Rightarrow> w | Some ep \<Rightarrow> snd (client_stop E ep 30 w))
    in case pn_process p of None \<Rightarrow> (p, w1) | Some child \<Rightarrow> (p\<lparr>pn_process := None\<rparr>, xe_kill E child w1))"

definition health_check_pattern :: "'w proxy_env \<Rightarrow> Pattern \<times> 'w \<Rightarrow> (string + PatternStatus) \<times> 'w" where
  "health_check_pattern E = (\<lambda>(p, w). case pn_client p of None \<Rightarrow> (Inr Uninitialized, w) | Some ep \<Rightarrow> client_health_check E ep w)"

subsection \<open>The manager\<close>

record 'w PatternManager =
  pg_patterns :: "string \<rightharpoonup> Pattern"
  pg_world :: 'w

definition register_pattern :: "string \<Rightarrow> string \<Rightarrow> 'w PatternManager \<Rightarrow> 'w PatternManager" where
  "register_pattern name binary_path g = g\<lparr>pg_patterns := (pg_patterns g)(name \<mapsto> pattern_new name binary_path)\<rparr>"

definition get_pattern :: "string \<Rightarrow> 'w PatternManager \<Rightarrow> (string \<times> PatternStatus \<times> string option) option" where
  "get_pattern name g = map_option (\<lambda>p. (pn_name p, pn_status p, pn_grpc_endpoint p)) (pg_patterns g name)"

text \<open>The characters of a string, which is well-formed UTF-8 in Rust.\<close>

fun utf8_chars :: "nat list \<Rightarrow> nat list" where
  "utf8_chars [] = []"
| "utf8_chars (b # bs) =
    (if b < 128 then b # utf8_chars bs
     else if b < 224 then ((b mod 32) * 64 + hd (bs @ [0]) mod 64) # utf8_chars (drop 1 bs)
     else if b < 240 then ((b mod 16) * 4096 + (hd (bs @ [0]) mod 64) * 64 + hd (drop 1 bs @ [0]) mod 64) # utf8_chars (drop 2 bs)
     else ((b mod 8) * 262144 + (hd (bs @ [0]) mod 64) * 4096 + (hd (drop 1 bs @ [0]) mod 64) * 64 + hd (drop 2 bs @ [0]) mod 64)
       # utf8_chars (drop 3 bs))"

text \<open>The port of a name; the sum of 16-bit values wraps around, as it does without overflow checks.\<close>

definition pattern_port :: "string \<Rightarrow> 16 word" where
  "pattern_port name = 9000 + (sum_list (map of_nat (utf8_chars (map of_char name))) mod 1000)"

definition put_pattern :: "string \<Rightarrow> Pattern \<times> 'w \<Rightarrow> 'w PatternManager \<Rightarrow> 'w PatternManager" where
  "put_pattern name = (\<lambda>(p, w) g. g\<lparr>pg_patterns := (pg_patterns g)(name \<mapsto> p), pg_world := w\<rparr>)"

definition not_found :: "string \<Rightarrow> string" where
  "not_found name = ''Pattern not found: '' @ name"

text \<open>A step of the start that fails leaves the pattern failed and ends the start.\<close>

definition start_step :: "string \<Rightarrow> string \<Rightarrow> (Pattern \<times> 'w \<Rightarrow> (string + unit) \<times> Pattern \<times> 'w) \<Rightarrow> (Pattern \<times> 'w \<Rightarrow> (string + unit) \<times> Pattern \<times> 'w)
    \<Rightarrow> Pattern \<times> 'w \<Rightarrow> (string + unit) \<times> Pattern \<times> 'w" where
  "start_step what verb step continue pw =
    (case step pw of
       (Inl e, p, w) \<Rightarrow> (Inl (''Failed to '' @ verb @ '': '' @ e), p\<lparr>pn_status := Failed (what @ '' failed: '' @ e)\<rparr>, w)
     | (Inr _, p, w) \<Rightarrow> continue (p, w))"

definition start_steps :: "'w proxy_env \<Rightarrow> 16 word \<Rightarrow> Pattern \<times> 'w \<Rightarrow> (string + unit) \<times> Pattern \<times> 'w" where
  "start_steps E port =
     start_step ''Spawn'' ''spawn pattern'' (spawn E port)
    (start_step ''gRPC connect'' ''connect gRPC client'' (connect_client E)
    (start_step ''Initialize'' ''initialize pattern'' (initialize_pattern E)
    (start_step ''Start'' ''start pattern'' (pat_start_pattern E)
      (\<lambda>(p, w). (Inr (), p\<lparr>pn_status := Running\<rparr>, w)))))"

definition start_pattern :: "'w proxy_env \<Rightarrow> string \<Rightarrow> 'w PatternManager \<Rightarrow> (string + unit) \<times> 'w PatternManager" where
  "start_pattern E name g =
    (case pg_patterns g name of
       None \<Rightarrow> (Inl (not_found name), g)
     | Some p \<Rightarrow> (case start_steps E (pattern_port name) (p\<lparr>pn_status := Starting\<rparr>, pg_world g) of (r, pw) \<Rightarrow> (r, put_pattern name pw g)))"

definition stop_pattern :: "'w proxy_env \<Rightarrow> string \<Rightarrow> 'w PatternManager \<Rightarrow> (string + unit) \<times> 'w PatternManager" where
  "stop_pattern E name g =
    (case pg_patterns g name of
       None \<Rightarrow> (Inl (not_found name), g)
     | Some p \<Rightarrow> (case pat_stop_pattern E (p\<lparr>pn_status := Stopping\<rparr>, pg_world g) of
         (p1, w) \<Rightarrow> (Inr (), put_pattern name (p1\<lparr>pn_status := Stopped\<rparr>, w) g)))"

definition health_check :: "'w proxy_env \<Rightarrow> string \<Rightarrow> 'w PatternManager \<Rightarrow> (string + PatternStatus) \<times> 'w PatternManager" where
  "health_check E name g =
    (case pg_patterns g name of
       None \<Rightarrow> (Inl (not_found name), g)
     | Some p \<Rightarrow>
         if is_running p
         then (case health_check_pattern E (p, pg_world g) of
             (Inl e, w) \<Rightarrow> (Inr (pn_status p), g\<lparr>pg_world := w\<rparr>)
           | (Inr status, w) \<Rightarrow> (Inr status, put_pattern name (p\<lparr>pn_status := status\<rparr>, w) g))
         else (Inr (pn_status p), g))"

definition drain_pattern :: "'w proxy_env \<Rightarrow> int \<Rightarrow> string \<Rightarrow> string \<Rightarrow> 'w PatternManager \<Rightarrow> (string + unit) \<times> 'w PatternManager" where
  "drain_pattern E timeout reason name g =
    (case pg_patterns g name of
       None \<Rightarrow> (Inl (not_found name), g)
     | Some p \<Rightarrow> (Inr (), case pn_client p of None \<Rightarrow> g | Some ep \<Rightarrow> g\<lparr>pg_world := snd (client_drain E ep timeout reason (pg_world g))\<rparr>))"

text \<open>\<open>names\<close> are the keys of the map in the order the map gives them.\<close>

definition drain_all_patterns :: "'w proxy_env \<Rightarrow> string list \<Rightarrow> int \<Rightarrow> string \<Rightarrow> 'w PatternManager \<Rightarrow> 'w PatternManager" where
  "drain_all_patterns E names timeout reason g = fold (\<lambda>name g. snd (drain_pattern E timeout reason name g)) names g"

definition stop_all_patterns :: "'w proxy_env \<Rightarrow> string list \<Rightarrow> 'w PatternManager \<Rightarrow> 'w PatternManager" where
  "stop_all_patterns E names g = fold (\<lambda>name g. snd (stop_pattern E name g)) names g"

subsection \<open>The server\<close>

datatype DrainState = DrainRunning | Draining int | DrainStopping

record 'w ProxyServer =
  ps_manager :: "'w PatternManager"
  ps_listen_address :: string
  ps_serving :: bool
  ps_drain_state :: DrainState
  ps_active_connections :: nat

definition proxy_new :: "'w PatternManager \<Rightarrow> string \<Rightarrow> 'w ProxyServer" where
  "proxy_new g listen_address = \<lparr>ps_manager = g, ps_listen_address = listen_address, ps_serving = False,
     ps_drain_state = DrainRunning, ps_active_connections = 0\<rparr>"

text \<open>
  \<open>parses\<close> says whether the address is one.  \<open>ps_serving\<close> is whether the server task runs, which
  is whether its shutdown channel is there.
\<close>

definition proxy_start :: "'w proxy_env \<Rightarrow> (string \<Rightarrow> string option) \<Rightarrow> 'w ProxyServer \<Rightarrow> (string + unit) \<times> 'w ProxyServer" where
  "proxy_start E parses srv =
    (case parses (ps_listen_address srv) of
       Some e \<Rightarrow> (Inl e, srv)
     | None \<Rightarrow> (Inr (), srv\<lparr>ps_serving := True, ps_manager := (ps_manager srv)\<lparr>pg_world := xe_sleep E 100 (pg_world (ps_manager srv))\<rparr>\<rparr>))"

definition proxy_shutdown :: "'w proxy_env \<Rightarrow> 'w ProxyServer \<Rightarrow> 'w ProxyServer" where
  "proxy_shutdown E srv = srv\<lparr>ps_serving := False, ps_manager := (ps_manager srv)\<lparr>pg_world := xe_sleep E 100 (pg_world (ps_manager srv))\<rparr>\<rparr>"

text \<open>
  The wait for the connections: each reading is the number of connections and the time; the
  list ends where the loop reads no connection any more.
\<close>

fun wait_connections :: "'w proxy_env \<Rightarrow> int \<Rightarrow> (nat \<times> int) list \<Rightarrow> 'w \<Rightarrow> 'w" where
  "wait_connections E deadline [] w = w"
| "wait_connections E deadline ((active, now) # readings) w =
    (if active = 0 \<or> now > deadline then w else wait_connections E deadline readings (xe_sleep E 100 w))"

definition drain_and_shutdown :: "'w proxy_env \<Rightarrow> string list \<Rightarrow> string list \<Rightarrow> int \<Rightarrow> int \<Rightarrow> (nat \<times> int) list \<Rightarrow> int \<Rightarrow> string
    \<Rightarrow> 'w ProxyServer \<Rightarrow> 'w ProxyServer" where
  "drain_and_shutdown E drained stopped began now readings timeout reason srv =
    (let s1 = srv\<lparr>ps_drain_state := Draining began\<rparr>;
         g1 = drain_all_patterns E drained (int32 (timeout div 1000000000)) reason (ps_manager s1);
         g2 = g1\<lparr>pg_world := wait_connections E (now + timeout) readings (pg_world g1)\<rparr>;
         s2 = s1\<lparr>ps_drain_state := DrainStopping\<rparr>;
         g3 = stop_all_patterns E stopped g2
     in proxy_shutdown E (s2\<lparr>ps_manager := g3\<rparr>))"

subsection \<open>Calls in order\<close>

datatype proxy_call =
    XSpawn string "string list" | XConnect string | XInitialize string | XStart string | XDrain string int string
  | XStop string int | XHealth string | XKill int | XSleep int

definition noted :: "proxy_call \<Rightarrow> ('w \<Rightarrow> 'r \<times> 'w) \<Rightarrow> 'w \<times> proxy_call list \<Rightarrow> 'r \<times> 'w \<times> proxy_call list" where
  "noted c f = (\<lambda>(w, l). case f w of (r, w') \<Rightarrow> (r, w', l @ [c]))"

text \<open>The environment that also notes the calls it gets.\<close>

definition traced :: "'w proxy_env \<Rightarrow> ('w \<times> proxy_call list) proxy_env" where
  "traced E = \<lparr>xe_spawn = (\<lambda>path args. noted (XSpawn path args) (xe_spawn E path args)),
     xe_connect = (\<lambda>ep. noted (XConnect ep) (xe_connect E ep)),
     xe_initialize = (\<lambda>ep name version config. noted (XInitialize ep) (xe_initialize E ep name version config)),
     xe_start = (\<lambda>ep. noted (XStart ep) (xe_start E ep)),
     xe_drain = (\<lambda>ep timeout reason. noted (XDrain ep timeout reason) (xe_drain E ep timeout reason)),
     xe_stop = (\<lambda>ep timeout. noted (XStop ep timeout) (xe_stop E ep timeout)),
     xe_health = (\<lambda>ep. noted (XHealth ep) (xe_health E ep)),
     xe_kill = (\<lambda>child (w, l). (xe_kill E child w, l @ [XKill child])),
     xe_sleep = (\<lambda>ms (w, l). (xe_sleep E ms w, l @ [XSleep ms]))\<rparr>"

lemma traced_calls [simp]:
  "xe_connect (traced E) ep (w, l) = (fst (xe_connect E ep w), snd (xe_connect E ep w), l @ [XConnect ep])"
  "xe_drain (traced E) ep timeout reason (w, l) = (fst (xe_drain E ep timeout reason w), snd (xe_drain E ep timeout reason w), l @ [XDrain ep timeout reason])"
  "xe_stop (traced E) ep timeout (w, l) = (fst (xe_stop E ep timeout w), snd (xe_stop E ep timeout w), l @ [XStop ep timeout])"
  "xe_kill (traced E) child (w, l) = (xe_kill E child w, l @ [XKill child])"
  "xe_sleep (traced E) ms (w, l) = (xe_sleep E ms w, l @ [XSleep ms])"
  by (simp_all add: traced_def noted_def split: prod.split)

definition retries :: "string \<Rightarrow> nat \<Rightarrow> nat \<Rightarrow> proxy_call list" where
  "retries ep a k = concat (map (\<lambda>i. [XSleep (100 * 2 ^ i), XConnect ep]) [a..<k])"

lemma connect_loop_traced:
  "connect_loop (traced E) ep attempt delay (w, l) =
    (case fst (xe_connect E ep w) of
       Inr _ \<Rightarrow> (Inr (), snd (xe_connect E ep w), l @ [XConnect ep])
     | Inl e \<Rightarrow> if attempt \<ge> 5 then (Inl e, snd (xe_connect E ep w), l @ [XConnect ep])
         else connect_loop (traced E) ep (attempt + 1) (min (delay * 2) 2000) (xe_sleep E delay (snd (xe_connect E ep w)), l @ [XConnect ep, XSleep delay]))"
  by (subst connect_loop.simps) (simp split: sum.split)

lemma connect_loop_calls:
  assumes "connect_loop (traced E) ep (Suc a) delay (w, l) = (r, w', l')" "delay = 100 * 2 ^ a" "a < 5"
  shows "\<exists>k. a \<le> k \<and> k < 5 \<and> l' = l @ XConnect ep # retries ep a k \<and> (k < 4 \<longrightarrow> r = Inr ())"
  using assms
proof (induction "5 - a" arbitrary: a delay w l)
  case (Suc n)
  show ?case
  proof (cases "fst (xe_connect E ep w)")
    case (Inr u)
    then show ?thesis using Suc.prems by (intro exI [of _ a]) (simp add: connect_loop_traced [of _ _ _ _ w l] retries_def)
  next
    case fails: (Inl e)
    show ?thesis
    proof (cases "a = 4")
      case True
      then show ?thesis using Suc.prems fails by (intro exI [of _ 4]) (simp add: connect_loop_traced [of _ _ _ _ w l] retries_def)
    next
      case False
      let ?w = "xe_sleep E delay (snd (xe_connect E ep w))" and ?l = "l @ [XConnect ep, XSleep delay]"
      have "(2 :: int) ^ Suc a \<le> 2 ^ 4" using False Suc.prems(3) by (intro power_increasing) auto
      then have delay: "min (delay * 2) 2000 = 100 * 2 ^ Suc a" using Suc.prems(2) by simp
      have next_try: "connect_loop (traced E) ep (Suc (Suc a)) (min (delay * 2) 2000) (?w, ?l) = (r, w', l')"
        using Suc.prems(1,3) False fails connect_loop_traced [of E ep "Suc a" delay w l] by simp
      have "n = 5 - Suc a" "Suc a < 5" using Suc.hyps(2) Suc.prems(3) False by auto
      from Suc.hyps(1) [OF this(1) next_try delay this(2)] obtain k where
        "Suc a \<le> k" "k < 5" "l' = ?l @ XConnect ep # retries ep (Suc a) k" "k < 4 \<longrightarrow> r = Inr ()" by blast
      then show ?thesis using Suc.prems(2) by (intro exI [of _ k]) (simp add: retries_def upt_conv_Cons)
    qed
  qed
qed simp

text \<open>
  C17: connecting to a pattern ends after at most five attempts, with 100, 200, 400 and 800
  milliseconds between them, and it is given up only after the fifth.
\<close>

theorem connect_attempts:
  assumes "connect_loop (traced E) ep 1 100 (w, []) = (r, w', calls)"
  shows "\<exists>k<5. calls = XConnect ep # concat (map (\<lambda>i. [XSleep (100 * 2 ^ i), XConnect ep]) [0..<k]) \<and> (k < 4 \<longrightarrow> r = Inr ())"
  using connect_loop_calls [of E ep 0 100 w "[]"] assms by (auto simp: retries_def)

subsection \<open>Draining and stopping\<close>

definition drain_calls :: "int \<Rightarrow> string \<Rightarrow> (string \<rightharpoonup> Pattern) \<Rightarrow> string \<Rightarrow> proxy_call list" where
  "drain_calls timeout reason ps name = (case Option.bind (ps name) pn_client of None \<Rightarrow> [] | Some ep \<Rightarrow> [XDrain ep timeout reason])"

definition stop_calls :: "(string \<rightharpoonup> Pattern) \<Rightarrow> string \<Rightarrow> proxy_call list" where
  "stop_calls ps name = (case Option.bind (ps name) pn_client of None \<Rightarrow> [] | Some ep \<Rightarrow> [XStop ep 30])
     @ (case Option.bind (ps name) pn_process of None \<Rightarrow> [] | Some child \<Rightarrow> [XKill child])"

definition stopped_pattern :: "Pattern \<Rightarrow> Pattern" where
  "stopped_pattern p = p\<lparr>pn_status := Stopped, pn_process := None\<rparr>"

lemma drain_traced:
  assumes "pg_world g = (w, l)"
  shows "\<exists>w'. snd (drain_pattern (traced E) timeout reason name g) = g\<lparr>pg_world := (w', l @ drain_calls timeout reason (pg_patterns g) name)\<rparr>"
  using assms by (cases g; cases "pg_patterns g name") (auto simp: drain_pattern_def drain_calls_def client_drain_def
      split: option.splits prod.splits sum.splits)

lemma drain_all_traced:
  assumes "pg_world g = (w, l)"
  shows "\<exists>w'. drain_all_patterns (traced E) names timeout reason g
    = g\<lparr>pg_world := (w', l @ concat (map (drain_calls timeout reason (pg_patterns g)) names))\<rparr>"
  using assms
proof (induction names arbitrary: g w l)
  case Nil
  then show ?case by (cases g) (simp add: drain_all_patterns_def)
next
  case (Cons name names)
  obtain w1 where step: "snd (drain_pattern (traced E) timeout reason name g) = g\<lparr>pg_world := (w1, l @ drain_calls timeout reason (pg_patterns g) name)\<rparr>"
    using drain_traced [OF Cons.prems] by blast
  show ?case using Cons.IH [of "g\<lparr>pg_world := (w1, l @ drain_calls timeout reason (pg_patterns g) name)\<rparr>"]
    by (simp add: drain_all_patterns_def step)
qed

lemma stop_traced:
  assumes "pg_world g = (w, l)" "pg_patterns g name = Some p"
  shows "\<exists>w'. snd (stop_pattern (traced E) name g)
    = g\<lparr>pg_patterns := (pg_patterns g)(name \<mapsto> stopped_pattern p), pg_world := (w', l @ stop_calls (pg_patterns g) name)\<rparr>"
  using assms by (cases g; cases p) (auto simp: stop_pattern_def pat_stop_pattern_def put_pattern_def stop_calls_def stopped_pattern_def client_stop_def Let_def split: option.splits prod.splits sum.splits)

lemma stop_all_traced:
  assumes "pg_world g = (w, l)" "distinct names" "set names \<subseteq> dom (pg_patterns g)"
  shows "\<exists>w'. stop_all_patterns (traced E) names g = g\<lparr>
      pg_patterns := (\<lambda>name. if name \<in> set names then map_option stopped_pattern (pg_patterns g name) else pg_patterns g name),
      pg_world := (w', l @ concat (map (stop_calls (pg_patterns g)) names))\<rparr>"
  using assms
proof (induction names arbitrary: g w l)
  case Nil
  then show ?case by (cases g) (simp add: stop_all_patterns_def)
next
  case (Cons name names)
  then obtain p where p: "pg_patterns g name = Some p" by auto
  obtain w1 where step: "snd (stop_pattern (traced E) name g)
      = g\<lparr>pg_patterns := (pg_patterns g)(name \<mapsto> stopped_pattern p), pg_world := (w1, l @ stop_calls (pg_patterns g) name)\<rparr>"
    using stop_traced [OF Cons.prems(1) p] by blast
  let ?g = "g\<lparr>pg_patterns := (pg_patterns g)(name \<mapsto> stopped_pattern p), pg_world := (w1, l @ stop_calls (pg_patterns g) name)\<rparr>"
  have world: "pg_world ?g = (w1, l @ stop_calls (pg_patterns g) name)" and dom: "set names \<subseteq> dom (pg_patterns ?g)"
    and d: "distinct names" using Cons.prems by auto
  obtain w' where rest: "stop_all_patterns (traced E) names ?g = ?g\<lparr>
      pg_patterns := (\<lambda>name. if name \<in> set names then map_option stopped_pattern (pg_patterns ?g name) else pg_patterns ?g name),
      pg_world := (w', (l @ stop_calls (pg_patterns g) name) @ concat (map (stop_calls (pg_patterns ?g)) names))\<rparr>"
    using Cons.IH [OF world d dom] by blast
  have same: "map (stop_calls (pg_patterns ?g)) names = map (stop_calls (pg_patterns g)) names"
    using Cons.prems(2) by (auto simp: stop_calls_def)
  have fold: "stop_all_patterns (traced E) (name # names) g = stop_all_patterns (traced E) names ?g"
    by (simp add: stop_all_patterns_def step)
  show ?case unfolding fold rest same
    by (intro exI [of _ w']) (use p Cons.prems(2) in \<open>auto simp: fun_eq_iff\<close>)
qed

lemma wait_traced: "\<exists>w' n. wait_connections (traced E) deadline readings (w, l) = (w', l @ replicate n (XSleep 100))"
proof (induction readings arbitrary: w l)
  case Nil
  show ?case by (auto intro: exI [of _ 0])
next
  case (Cons x readings)
  obtain w' n where "wait_connections (traced E) deadline readings (xe_sleep E 100 w, l @ [XSleep 100]) = (w', (l @ [XSleep 100]) @ replicate n (XSleep 100))"
    using Cons by blast
  then have "wait_connections (traced E) deadline readings (xe_sleep (traced E) 100 (w, l)) = (w', l @ replicate (Suc n) (XSleep 100))"
    by simp
  then show ?case by (cases x) (auto intro: exI [of _ 0] exI [of _ "Suc n"])
qed


subsection \<open>The proxy and a plugin\<close>

definition aside :: "('w \<Rightarrow> 'r \<times> 'w) \<Rightarrow> 'w \<times> 's \<Rightarrow> 'r \<times> 'w \<times> 's" where
  "aside f = (\<lambda>(w, s). case f w of (r, w') \<Rightarrow> (r, w', s))"

definition served :: "('s \<Rightarrow> 'r \<times> 's) \<Rightarrow> 'w \<times> 's \<Rightarrow> ('e + 'r) \<times> 'w \<times> 's" where
  "served f = (\<lambda>(w, s). case f s of (r, s') \<Rightarrow> (Inr r, w, s'))"

text \<open>
  An environment whose remote calls reach the lifecycle service of a plugin; processes,
  connections and the clock are those of \<open>E\<close>.
\<close>

definition lifecycle_env :: "'w proxy_env \<Rightarrow> 'p Plugin \<Rightarrow> ('w \<times> 'p LifecycleService) proxy_env" where
  "lifecycle_env E P = \<lparr>xe_spawn = (\<lambda>path args. aside (xe_spawn E path args)), xe_connect = (\<lambda>ep. aside (xe_connect E ep)),
     xe_initialize = (\<lambda>ep name version config. served (ls_Initialize P name version config)),
     xe_start = (\<lambda>ep. served (ls_Start P)), xe_drain = (\<lambda>ep timeout reason. served (ls_Drain P timeout reason)),
     xe_stop = (\<lambda>ep timeout. served (ls_Stop P)), xe_health = (\<lambda>ep. served (ls_HealthCheck P)),
     xe_kill = (\<lambda>child (w, s). (xe_kill E child w, s)), xe_sleep = (\<lambda>ms (w, s). (xe_sleep E ms w, s))\<rparr>"

lemma lifecycle_env_calls [simp]:
  "xe_spawn (lifecycle_env E P) path args (w, s) = (fst (xe_spawn E path args w), snd (xe_spawn E path args w), s)"
  "xe_connect (lifecycle_env E P) ep (w, s) = (fst (xe_connect E ep w), snd (xe_connect E ep w), s)"
  "xe_initialize (lifecycle_env E P) ep name version config (w, s) = (Inr (fst (ls_Initialize P name version config s)), w, snd (ls_Initialize P name version config s))"
  "xe_start (lifecycle_env E P) ep (w, s) = (Inr (fst (ls_Start P s)), w, snd (ls_Start P s))"
  "xe_health (lifecycle_env E P) ep (w, s) = (Inr (fst (ls_HealthCheck P s)), w, snd (ls_HealthCheck P s))"
  "xe_sleep (lifecycle_env E P) ms (w, s) = (xe_sleep E ms w, s)"
  by (simp_all add: lifecycle_env_def aside_def served_def split: prod.split)

lemma connect_loop_lifecycle:
  "connect_loop (lifecycle_env E P) ep attempt delay (w, s) =
    (fst (connect_loop E ep attempt delay w), snd (connect_loop E ep attempt delay w), s)"
proof (induction E ep attempt delay w rule: connect_loop.induct)
  case (1 E ep attempt delay w)
  show ?case
  proof (cases "xe_connect E ep w")
    case (Pair r w1)
    show ?thesis
    proof (cases r)
      case (Inl e)
      show ?thesis using 1 [OF Pair [symmetric] Inl] Pair Inl
        by (cases "attempt \<ge> 5") (simp_all add: connect_loop.simps [of _ _ attempt delay])
    next
      case (Inr u)
      then show ?thesis using Pair by (simp add: connect_loop.simps [of _ _ attempt delay])
    qed
  qed
qed

text \<open>
  C15: starting a pattern in the proxy starts the plugin behind it.  Once the process runs and
  the connection is made, the pattern is running if and only if the plugin initialises and
  starts; otherwise it is failed with the error of the plugin, and the proxy keeps the process.
  A running pattern has the version and interfaces of the plugin, and its health check reports
  the health of the plugin.
\<close>

theorem proxy_starts_plugin:
  assumes p: "pg_patterns g name = Some p" "pg_world g = (w, s)" "ep = ''http://localhost:'' @ itoa (uint (pattern_port name))"
    and up: "xe_spawn E (pn_binary_path p) [''--grpc-port'', itoa (uint (pattern_port name))] w = (Inr child, w1)"
      "connect_loop E ep 1 100 (xe_sleep E 500 w1) = (Inr (), w2)"
    and plugin: "pl_Initialize P (ParseConfigFromStruct (pn_name p) (pn_version p) []) (ls_plugin s) = (ie, q1)" "pl_Start P q1 = (se, q2)"
      "pl_Health P q2 = (health, q3)"
    and run: "start_pattern (lifecycle_env E P) name g = (r, g')"
  shows "\<exists>p'. pg_patterns g' name = Some p' \<and> pn_process p' = Some child \<and> pn_client p' = Some ep
    \<and> pn_status p' = (case ie of Some e \<Rightarrow> Failed (''Initialize failed: Initialize failed: '' @ e)
        | None \<Rightarrow> case se of Some e \<Rightarrow> Failed (''Start failed: Start failed: '' @ e) | None \<Rightarrow> Running)
    \<and> (r = Inr () \<longleftrightarrow> ie = None \<and> se = None)
    \<and> (r = Inr () \<longrightarrow> pn_version p' = pl_Version P q1 \<and> pn_interfaces p' = pl_GetInterfaceDeclarations P q1
        \<and> fst (health_check (lifecycle_env E P) name g') = Inr (case health of Inl e \<Rightarrow> Failed e
            | Inr h \<Rightarrow> case hs_Status h of HealthHealthy \<Rightarrow> Running | HealthDegraded \<Rightarrow> Degraded | HealthUnhealthy \<Rightarrow> Failed (hs_Message h)
                | HealthUnknown \<Rightarrow> Failed ''Unknown health status''))"
proof -
  note steps = start_pattern_def start_steps_def start_step_def spawn_def connect_client_def initialize_pattern_def pat_start_pattern_def
    put_pattern_def client_initialize_def client_start_def json_value_to_prost_struct_def connect_loop_lifecycle ls_Initialize_def ls_Start_def
  note checks = health_check_def is_running_def health_check_pattern_def client_health_check_def ls_HealthCheck_def
  show ?thesis
  proof (cases ie)
    case (Some e)
    then show ?thesis using run p up plugin by (auto simp: steps)
  next
    case ok: None
    show ?thesis
    proof (cases se)
      case (Some e)
      then show ?thesis using run p up plugin ok by (auto simp: steps)
    next
      case None
      then show ?thesis using run p up plugin ok
        by (cases health) (auto simp: steps checks split: HealthState.split)
    qed
  qed
qed

lemma pattern_port_range: "9000 \<le> uint (pattern_port name)" "uint (pattern_port name) < 10000"
proof -
  let ?x = "sum_list (map of_nat (utf8_chars (map of_char name))) :: 16 word"
  have "uint (?x mod 1000) = uint ?x mod 1000" by (simp add: uint_mod_distrib)
  then have "uint (?x mod 1000) < 1000" "0 \<le> uint (?x mod 1000)" by simp_all
  then have "uint (9000 + ?x mod 1000) = 9000 + uint (?x mod 1000)" by (simp add: uint_word_ariths(1))
  with \<open>uint (?x mod 1000) < 1000\<close> \<open>0 \<le> uint (?x mod 1000)\<close>
  show "9000 \<le> uint (pattern_port name)" "uint (pattern_port name) < 10000" by (simp_all add: pattern_port_def)
qed

subsection \<open>Examples\<close>

text \<open>An environment in which the third attempt to connect succeeds.\<close>

definition demo_proxy_env :: "nat proxy_env" where
  "demo_proxy_env = \<lparr>xe_spawn = (\<lambda>path args w. (Inr 7, w)), xe_connect = (\<lambda>ep w. (if w < 2 then Inl ''refused'' else Inr (), w + 1)),
     xe_initialize = (\<lambda>ep name version config w. (Inl ''down'', w)), xe_start = (\<lambda>ep w. (Inl ''down'', w)),
     xe_drain = (\<lambda>ep timeout reason w. (Inl ''down'', w)), xe_stop = (\<lambda>ep timeout w. (Inl ''down'', w)),
     xe_health = (\<lambda>ep w. (Inl ''down'', w)), xe_kill = (\<lambda>child w. w), xe_sleep = (\<lambda>ms w. w)\<rparr>"

definition demo_plugin :: "nat Plugin" where
  "demo_plugin = \<lparr>pl_Name = (\<lambda>n. ''kv''), pl_Version = (\<lambda>n. ''1.0''), pl_Initialize = (\<lambda>c n. (None, n + 1)), pl_Start = (\<lambda>n. (None, n + 1)),
     pl_Drain = (\<lambda>timeout reason n. (Inl ''busy'', n)), pl_Stop = (\<lambda>n. (None, n)),
     pl_Health = (\<lambda>n. (Inr \<lparr>hs_Status = HealthDegraded, hs_Message = ''slow'', hs_Details = []\<rparr>, n)),
     pl_GetInterfaceDeclarations = (\<lambda>n. [])\<rparr>"

definition demo_pattern :: Pattern where
  "demo_pattern = (pattern_new ''kv'' ''/bin/kv'')\<lparr>pn_process := Some 7, pn_client := Some ''e''\<rparr>"

theorem connect_attempts_witness:
  "snd (snd (connect_loop (traced demo_proxy_env) ''e'' 1 100 (0, []))) = [XConnect ''e'', XSleep 100, XConnect ''e'', XSleep 200, XConnect ''e'']
   \<and> (\<exists>k<5. snd (snd (connect_loop (traced demo_proxy_env) ''e'' 1 100 (0, [])))
        = XConnect ''e'' # concat (map (\<lambda>i. [XSleep (100 * 2 ^ i), XConnect ''e'']) [0..<k]))"
proof -
  have run: "connect_loop (traced demo_proxy_env) ''e'' 1 100 (0, [])
      = (Inr (), 3, [XConnect ''e'', XSleep 100, XConnect ''e'', XSleep 200, XConnect ''e''])"
    by (simp add: connect_loop_traced demo_proxy_env_def)
  from connect_attempts [OF run] show ?thesis unfolding run by auto
qed


theorem proxy_starts_plugin_witness:
  "fst (start_pattern (lifecycle_env demo_proxy_env demo_plugin) ''kv''
      \<lparr>pg_patterns = [''kv'' \<mapsto> pattern_new ''kv'' ''/bin/kv''], pg_world = (0, NewLifecycleService 0)\<rparr>) = Inr ()"
proof -
  let ?g = "\<lparr>pg_patterns = [''kv'' \<mapsto> pattern_new ''kv'' ''/bin/kv''], pg_world = (0, NewLifecycleService 0)\<rparr>"
  let ?ep = "''http://localhost:'' @ itoa (uint (pattern_port ''kv''))"
  have connect: "connect_loop demo_proxy_env ?ep 1 100 (xe_sleep demo_proxy_env 500 0) = (Inr (), 3)"
    by (simp add: connect_loop.simps demo_proxy_env_def)
  obtain r g' where run: "start_pattern (lifecycle_env demo_proxy_env demo_plugin) ''kv'' ?g = (r, g')" by fastforce
  have "r = Inr ()"
    using proxy_starts_plugin [where P = demo_plugin and E = demo_proxy_env, OF _ _ refl _ connect _ _ _ run, of "pattern_new ''kv'' ''/bin/kv''" "0"
        "NewLifecycleService 0" 7 None 1 None 2 "Inr \<lparr>hs_Status = HealthDegraded, hs_Message = ''slow'', hs_Details = []\<rparr>" 2]
    by (auto simp: demo_proxy_env_def demo_plugin_def NewLifecycleService_def)
  with run show ?thesis by simp
qed

end
