(* ===== verification/Spec2Isabelle.thy ===== *)
theory Spec2Isabelle
  imports Control_Plane Launcher_Properties Multicast_Coordinator Producer Mailbox Proxy
begin

text \<open>
  Verification of the Prism data layer.

  Prism puts a proxy in front of data backends.  An administration plane, replicated with
  raft, keeps the proxies, launchers and namespaces; a launcher runs pattern processes under a
  process manager; a pattern implements an access pattern over backend drivers.  The
  development models these parts, proves what makes each correct, and proves what the parts do
  together.

  \<^bold>\<open>Conventions.\<close>  Go and Rust strings and byte slices are \<open>string\<close>.  Times and durations are integers, in
  nanoseconds, and every reading of a clock is an argument.  A map is \<open>'k \<rightharpoonup> 'v\<close>; where the
  iteration order of a map can be seen it is a list argument.  Fixed-width integers are words,
  or integers cut to their width by \<open>int32\<close> and \<open>int64\<close>; floating point is a rounding function.
  Errors are values of a sum, option or datatype, panics too.  Third-party code and the
  operating system are parameters: codecs, compressors, hashes, the YAML decoder, the file
  system, processes and network calls.  What a property needs of a parameter is a hypothesis of
  that property.  Goroutines are program points and events: a critical section is one step, and
  properties quantify over the order of steps.  Logging is left out throughout.

  \<^bold>\<open>Administration plane\<close> (\<open>src/cmd/prism-admin\<close>).
  \<^item> \<open>Partitions\<close>: \<open>partition_manager.go\<close>; ranges of 256 partitions, the CRC32 of a namespace, the
    owner of a partition.  The locale \<open>partition_assignment\<close> is the contract between ranges and
    owners: the two computations are inverse, and coverage is checked exactly.
  \<^item> \<open>Admin_Types\<close>, \<open>Admin_FSM\<close>: \<open>fsm.go\<close>; commands, the replicated state, \<open>Apply\<close> with its handlers,
    snapshots and restore.  The locale \<open>replicated_machine\<close> gives, for two views of the state, that
    replicas agree and that a snapshot with the rest of the log is the log.
  \<^item> \<open>Control_Plane\<close>: \<open>control_plane_raft.go\<close>, \<open>raft.go\<close>; the handlers, forwarding to the leader and the
    connection pool; a registered proxy is sent the namespaces it owns.

  \<^bold>\<open>Process manager\<close> (\<open>src/pkg/procmgr\<close>).
  \<^item> \<open>Work_Queue\<close>: \<open>workqueue.go\<close>; the binary heap with its index map, jitter and backoff.  The locale
    \<open>delay_queue\<close> abstracts the heap to a map from identifiers to times.
  \<^item> \<open>Proc_Manager\<close>: \<open>manager.go\<close>, \<open>types.go\<close>, \<open>options.go\<close>; each critical section of the callers, of the
    queue consumer and of the workers, interleaved by \<open>pm_step\<close> over explicit actions.
  \<^item> \<open>Proc_Workers\<close>, \<open>Proc_Properties\<close>: the invariant of reachable states; one worker per process, no
    lost update, the life of a process, termination, and what removal and shutdown break.

  \<^bold>\<open>Launcher\<close> (\<open>src/pkg/isolation\<close>, \<open>src/pkg/launcher\<close>).
  \<^item> \<open>Isolation\<close>: \<open>manager.go\<close>, \<open>types.go\<close>; one process per namespace or session over a process manager.
    A caller that waits runs the events of a schedule.  The locale \<open>isolation_world\<close> holds for any
    state a manager is part of; it is interpreted for a manager alone and for the launcher.
  \<^item> \<open>Pattern_Registry\<close>: \<open>manifest.go\<close>, \<open>discovery.go\<close>; paths, validation, discovery, reload.
  \<^item> \<open>Launcher_Metrics\<close>: \<open>metrics.go\<close>; counters and the percentiles of the hand-written sort.
  \<^item> \<open>Launcher\<close>: \<open>service.go\<close>, \<open>syncer.go\<close>, \<open>cleanup.go\<close>; the handlers, the syncer the workers call,
    the orphan detector.  A call into the syncer is one event; its world is a record of answers.
  \<^item> \<open>Launcher_Work\<close>, \<open>Launcher_Properties\<close>: how events act on the managers; what a launch starts,
    and the requests that cannot succeed.

  \<^bold>\<open>Patterns and drivers\<close> (\<open>src/patterns\<close>, \<open>src/pkg/drivers/memstore\<close>, \<open>src/pkg/plugin\<close>).
  \<^item> \<open>Mem_Store\<close>: \<open>memstore.go\<close>, \<open>pubsub.go\<close>, \<open>keyvalue.go\<close>; entries with expiry and buffered channels.
    The locale \<open>kv_store\<close> is the contract of a key-value driver: a map with expiry.
  \<^item> \<open>Multicast_Filter\<close>, \<open>Multicast_Adapters\<close>, \<open>Multicast_Coordinator\<close>: \<open>src/patterns/multicast_registry\<close>;
    filters against a reference semantics, identities stored as JSON in a driver, registration,
    enumeration and delivery by goroutines.
  \<^item> \<open>Messaging_Slots\<close>, \<open>Producer\<close>, \<open>Consumer\<close>: the driver interfaces and durations they share, and the two
    patterns with retries, deduplication, batches, claim checks, dead letters and saved state.
  \<^item> \<open>Mailbox\<close>: \<open>src/patterns/mailbox\<close>; the loop that stores messages as events.
  \<^item> \<open>Plugin_Lifecycle\<close>: \<open>lifecycle_service.go\<close>, \<open>config_parser.go\<close>; the service around a plugin.

  \<^bold>\<open>Proxy\<close> (\<open>src/prism-proxy\<close>).  \<open>Proxy\<close>: \<open>pattern/mod.rs\<close>, \<open>pattern/client.rs\<close>, \<open>server/mod.rs\<close>; patterns as
  child processes, connecting with retries, health and the drain sequence; and the proxy
  together with the lifecycle service of a plugin.

  \<^bold>\<open>This theory\<close> joins the producer, the publish/subscribe driver and the consumer.
  \<open>Prism_Prelude\<close> holds what all theories share: integer widths, decimal numbers, map iteration
  and the named collections of simplification rules.

  \<^bold>\<open>Bounds and termination.\<close>  Every loop is a terminating function: over a list, or by a measure
  (the heap's sifting by index, retries by the attempts left, the two loops of the sort by the
  length).  Only \<open>drain_ready\<close> takes fuel, and one more than the number of items is enough.  A
  wait with a timeout is a list of what happens until the timeout; liveness properties give a
  schedule or hold for every schedule.

  \<^bold>\<open>Not modelled.\<close>  SQL storage and the drivers for Kafka, NATS, Postgres, Redis, S3 and SQLite: thin
  calls into clients whose effect is that of a service.  The control plane without raft: the raft
  service replaces it and the two differ in the storage they call.  The Kubernetes operator:
  objects for an API server.  gRPC and HTTP servers, OpenTelemetry, command lines and main
  programs: wiring of third-party libraries.  The router and key-value handlers of the proxy:
  stubs with fixed answers.  The launcher's builder, error texts, admin client and metric
  exports: construction of records and text.  Tests, tooling and documentation.
\<close>

subsection \<open>From the producer to the consumer\<close>

lemma claim_data_roundtrip:
  assumes gzip: "\<forall>x y. CompressGzip E x = Inr y \<longrightarrow> DecompressGzip E y = Inr x" and d: "claim_data E cfg payload = (data, alg)"
  shows "(if alg \<noteq> ''none'' \<and> alg \<noteq> [] then decompressPayload E data alg else Inr data) = Inr payload"
  using d gzip by (auto simp: claim_data_def compressPayload_def decompressPayload_def split: if_splits sum.splits)

lemma content_type_kept:
  assumes "md ''prism-claim-check'' = None" "ct = (case md ''content-type'' of None \<Rightarrow> [] | Some v \<Rightarrow> v)"
  shows "(if ct \<noteq> [] then md(''prism-claim-check'' \<mapsto> ''true'', ''content-type'' \<mapsto> ct)
     else md(''prism-claim-check'' \<mapsto> ''true''))(''prism-claim-check'' := None) = md"
  using assms by (auto simp: fun_eq_iff split: option.splits)

text \<open>The object written by a claim check is what resolving the claim reads.\<close>

lemma resolve_created_claim:
  assumes create: "createClaimCheck E claimID now msg p = (Inr (payload, md), p')"
    and md: "m_Metadata msg ''prism-claim-check'' = None"
    and gzip: "\<forall>x y. CompressGzip E x = Inr y \<longrightarrow> DecompressGzip E y = Inr x"
    and cfg: "pb_ClaimCheck (pc_Behavior (pr_config p)) = Some cfg" "claim = claim_of E claimID now cfg (pr_name p) msg"
    and json: "\<forall>y. claim_Marshal E claim = Inr y \<longrightarrow> claim_Unmarshal E y = Inr claim"
    and store: "pr_objectStore p = Some ob"
      "\<forall>b k d s u s'. os_Put ob b k d s = (Inr u, s') \<longrightarrow> fst (os_Get ob b k s') = Inr d"
      "\<forall>b k n s. fst (os_Get ob b k (snd (os_SetTTL ob b k n s))) = fst (os_Get ob b k s)"
    and c: "cs_objectStore c = Some ob" "cs_objects c = pr_objects p'"
    and m: "psm_Payload m = payload" "psm_Metadata m = md"
  shows "\<exists>c1. resolveClaimCheck E m c = (Inr (m\<lparr>psm_Payload := m_Payload msg, psm_Metadata := m_Metadata msg\<rparr>), c1)
    \<and> cs_processor c1 = cs_processor c \<and> cs_world c1 = cs_world c"
proof -
  obtain data alg where d: "claim_data E cfg (m_Payload msg) = (data, alg)" by fastforce
  obtain o1 where put: "os_Put ob (pcc_Bucket cfg) (cm_ObjectKey claim) data (pr_objects p) = (Inr (), o1)"
    and pay: "claim_Marshal E claim = Inr payload" "md = (m_Metadata msg)(''prism-claim-check'' \<mapsto> ''true'')"
    and o2: "pr_objects p' = (if pcc_TTL cfg > 0 then snd (os_SetTTL ob (pcc_Bucket cfg) (cm_ObjectKey claim) (pcc_TTL cfg) o1) else o1)"
    using create store(1) cfg d
    by (auto simp: createClaimCheck_def Let_def split: prod.splits sum.splits)
  have "fst (os_Get ob (pcc_Bucket cfg) (cm_ObjectKey claim) (cs_objects c)) = Inr data"
    using store(2,3) put o2 c(2) by simp
  then obtain o3 where get: "os_Get ob (pcc_Bucket cfg) (cm_ObjectKey claim) (cs_objects c) = (Inr data, o3)" by (metis prod.collapse)
  have claim: "cm_Bucket claim = pcc_Bucket cfg" "cm_Compression claim = alg" "cm_Checksum claim = CalculateSHA256 E (m_Payload msg)"
    "cm_ContentType claim = (case m_Metadata msg ''content-type'' of None \<Rightarrow> [] | Some v \<Rightarrow> v)"
    by (simp_all add: cfg(2) claim_of_def d)
  have dec: "(if cm_Compression claim \<noteq> ''none'' \<and> cm_Compression claim \<noteq> [] then decompressPayload E data (cm_Compression claim)
      else Inr data) = Inr (m_Payload msg)"
    using claim_data_roundtrip [OF gzip d] unfolding claim(2) .
  have ct: "(if cm_ContentType claim \<noteq> [] then (psm_Metadata m)(''content-type'' \<mapsto> cm_ContentType claim) else psm_Metadata m)
      (''prism-claim-check'' := None) = m_Metadata msg"
    using content_type_kept [OF md claim(4)] unfolding m(2) pay(2) .
  have "claim_Unmarshal E (psm_Payload m) = Inr claim" using json pay(1) m(1) by simp
  then show ?thesis
    by (simp add: resolveClaimCheck_def c(1) get claim(1,3) dec ct Let_def del: if_split split: option.split)
qed

lemma mps_publish_loop:
  assumes "mps_inv k" "0 \<le> maxRetries"
  shows "publish_loop (\<lambda>k. case mps_Publish i sent topic payload md k of Inl e \<Rightarrow> (Panics e, k) | Inr (i, k') \<Rightarrow> (Returns i, k'))
      maxRetries backoff 0 None [] k =
    (Returns (), [], k\<lparr>mps_chans := broadcast (mk_msg topic (i, sent, payload, md)) (topic_chans k topic) (mps_chans k)\<rparr>)"
  using assms mps_Publish_open [OF assms(1)] by (subst publish_loop.simps) simp

text \<open>
  C32: from the producer through the in-memory publish/subscribe driver to the consumer: a message
  published without an error is added to the channel of a subscriber with room, and processing
  it calls the processor with the original payload and metadata, whether the payload travelled
  in the message or through the object store as a claim check, compressed or not.
\<close>

theorem claim_check_end_to_end:
  assumes sink: "pr_messageSink p = Some (mps_sink i sent)" "mps_inv (pr_sink p)" "0 \<le> pb_MaxRetries (pc_Behavior (pr_config p))"
    and chan: "ch \<in> set (topic_chans (pr_sink p) (m_Topic msg))"
      "length (ch_buf (mps_chans (pr_sink p) ch)) < ch_cap (mps_chans (pr_sink p) ch)"
    and publish: "publishMessage E claimID now later msg p = (PrOk (), p')" "m_Metadata msg ''prism-claim-check'' = None"
    and gzip: "\<forall>x y. CompressGzip E x = Inr y \<longrightarrow> DecompressGzip E y = Inr x"
    and cfg: "pb_ClaimCheck (pc_Behavior (pr_config p)) = Some cfg" "claim = claim_of E claimID now cfg (pr_name p) msg"
    and json: "\<forall>y. claim_Marshal E claim = Inr y \<longrightarrow> claim_Unmarshal E y = Inr claim"
    and store: "pr_objectStore p = Some ob"
      "\<forall>b k d s u s'. os_Put ob b k d s = (Inr u, s') \<longrightarrow> fst (os_Get ob b k s') = Inr d"
      "\<forall>b k n s. fst (os_Get ob b k (snd (os_SetTTL ob b k n s))) = fst (os_Get ob b k s)"
    and consumer: "cs_objectStore c = Some ob" "cs_objects c = pr_objects p'" "cs_processor c = Some f"
    and orig: "orig = mk_msg (m_Topic msg) (i, sent, m_Payload msg, m_Metadata msg)"
  shows "\<exists>m c1. ch_buf (mps_chans (pr_sink p') ch) = ch_buf (mps_chans (pr_sink p) ch) @ [m]
    \<and> processMessage E m c = (map_option ProcessorFailed (fst (f orig (cs_world c))), orig, c1)
    \<and> cs_world c1 = snd (f orig (cs_world c))"
proof -
  obtain payload md p1 where c: "(if shouldUseClaimCheck p (m_Payload msg) then createClaimCheck E claimID now msg p
      else (Inr (m_Payload msg, m_Metadata msg), p)) = (Inr (payload, md), p1)"
    using publish(1) by (auto simp: publishMessage_def Let_def split: prod.splits sum.splits)
  have p1: "pr_sink p1 = pr_sink p" "pr_messageSink p1 = pr_messageSink p"
    using c createClaimCheck_frame [of E claimID now msg p] by (metis Producer.select_convs Producer.surjective Producer.update_convs(13) prod.inject)+
  have op: "sink_op p1 (m_Topic msg) payload md =
      (\<lambda>k. case mps_Publish i sent (m_Topic msg) payload md k of Inl e \<Rightarrow> (Panics e, k) | Inr (i, k') \<Rightarrow> (Returns i, k'))"
    by (simp add: sink_op_def p1 sink(1) mps_sink_def)
  define m where "m = mk_msg (m_Topic msg) (i, sent, payload, md)"
  define k where "k = (pr_sink p)\<lparr>mps_chans := broadcast m (topic_chans (pr_sink p) (m_Topic msg)) (mps_chans (pr_sink p))\<rparr>"
  have p': "pr_sink p' = k" "pr_objects p' = pr_objects p1"
    using publish(1) c mps_publish_loop [OF sink(2,3), of i sent "m_Topic msg" payload md]
    by (auto simp: publishMessage_def Let_def op p1 count_published_def m_def k_def)
  have buf: "ch_buf (mps_chans (pr_sink p') ch) = ch_buf (mps_chans (pr_sink p) ch) @ [m]"
    using chan by (simp add: p' k_def broadcast_def offer_def)
  have "\<exists>c1. (if psm_Metadata m ''prism-claim-check'' = Some ''true'' then resolveClaimCheck E m c else (Inr m, c)) = (Inr orig, c1)
      \<and> cs_processor c1 = cs_processor c \<and> cs_world c1 = cs_world c"
  proof (cases "shouldUseClaimCheck p (m_Payload msg)")
    case False
    then show ?thesis using c publish(2) orig by (simp add: m_def mk_msg_def)
  next
    case True
    then have create: "createClaimCheck E claimID now msg p = (Inr (payload, md), p1)" using c by simp
    have "md = (m_Metadata msg)(''prism-claim-check'' \<mapsto> ''true'')"
      using create store(1) cfg(1) by (auto simp: createClaimCheck_def Let_def split: prod.splits sum.splits)
    moreover have "\<exists>c1. resolveClaimCheck E m c = (Inr (m\<lparr>psm_Payload := m_Payload msg, psm_Metadata := m_Metadata msg\<rparr>), c1)
      \<and> cs_processor c1 = cs_processor c \<and> cs_world c1 = cs_world c"
      using resolve_created_claim [OF create publish(2) gzip cfg json store consumer(1), of m] consumer(2) p'(2) by (simp add: m_def mk_msg_def)
    ultimately show ?thesis by (auto simp: m_def mk_msg_def orig)
  qed
  then show ?thesis using buf consumer(3) by (auto simp: processMessage_def split: prod.splits)
qed

definition demo_objects :: "(string \<times> string \<rightharpoonup> bytes) ObjectStoreInterface" where
  "demo_objects = \<lparr>os_Put = (\<lambda>b k d s. (Inr (), s((b, k) \<mapsto> d))),
     os_Get = (\<lambda>b k s. (case s (b, k) of None \<Rightarrow> Inl ''missing'' | Some d \<Rightarrow> Inr d, s)),
     os_Delete = (\<lambda>b k s. (Inr (), s((b, k) := None))), os_SetTTL = (\<lambda>b k n s. (Inr (), s)),
     os_Exists = (\<lambda>b k s. (Inr (s (b, k) \<noteq> None), s)), os_GetMetadata = (\<lambda>b k s. (Inl [], s))\<rparr>"

definition demo_claim_config :: ProducerClaimCheckConfig where
  "demo_claim_config = \<lparr>pcc_Enabled = True, pcc_Threshold = 2, pcc_Bucket = ''b'', pcc_TTL = 60, pcc_Compression = ''gzip''\<rparr>"

definition demo_claim :: ClaimCheckMessage where
  "demo_claim = claim_of demo_messages ''id'' 5 demo_claim_config ''p'' (demo_message ''large'')"

definition claim_env :: message_env where
  "claim_env = demo_messages\<lparr>claim_Unmarshal := \<lambda>_. Inr demo_claim\<rparr>"

definition demo_pubsub :: MemPubSub where
  "demo_pubsub = snd (projr (mps_Subscribe ''ab'' ''g'' NewPubSub))"

definition demo_claim_producer :: "(MemPubSub, unit, string \<times> string \<rightharpoonup> bytes) Producer" where
  "demo_claim_producer = \<lparr>pr_name = ''p'',
     pr_config = \<lparr>pc_Name = ''p'', pc_Description = [], pc_Slots = \<lparr>psl_MessageSink = no_binding, psl_StateStore = no_binding, psl_ObjectStore = no_binding\<rparr>,
       pc_Behavior = (demo_behavior False 0)\<lparr>pb_ClaimCheck := Some demo_claim_config\<rparr>\<rparr>,
     pr_messageSink = Some (mps_sink ''m1'' 9), pr_stateStore = None, pr_objectStore = Some demo_objects, pr_running = True, pr_locked = False,
     pr_batch = [], pr_batchTime = 0, pr_metrics = no_metrics, pr_sink = demo_pubsub, pr_store = (), pr_objects = Map.empty\<rparr>"

definition demo_claim_consumer :: "'o \<Rightarrow> 'o ObjectStoreInterface \<Rightarrow> (unit, MemStore, bytes list, 'o, bytes list) Consumer" where
  "demo_claim_consumer objects ob = \<lparr>cs_name = ''c'',
     cs_config = cs_config (demo_consumer picky 0), cs_messageSource = None, cs_stateStore = None, cs_deadLetter = None,
     cs_objectStore = Some ob, cs_running = True, cs_cancelled = False, cs_processor = Some (\<lambda>m w. (None, w @ [psm_Payload m])),
     cs_loops = [], cs_deletes = [], cs_source = (), cs_store = NewMemStore, cs_dlq = [], cs_objects = objects, cs_world = []\<rparr>"

lemma demo_pubsub_chan:
  "mps_inv demo_pubsub" "0 \<in> set (topic_chans demo_pubsub ''ab'')" "mps_chans demo_pubsub 0 = \<lparr>ch_buf = [], ch_cap = 100, ch_closed = False\<rparr>"
proof -
  have inv: "mps_inv NewPubSub" by (simp add: mps_inv_def topic_chans_def NewPubSub_def)
  have sub: "mps_Subscribe ''ab'' ''g'' NewPubSub = Inr (0, demo_pubsub)"
    by (simp add: demo_pubsub_def mps_Subscribe_def NewPubSub_def Let_def)
  show "mps_inv demo_pubsub" "0 \<in> set (topic_chans demo_pubsub ''ab'')" "mps_chans demo_pubsub 0 = \<lparr>ch_buf = [], ch_cap = 100, ch_closed = False\<rparr>"
    using mps_Subscribe_result [OF inv sub] by (simp_all add: NewPubSub_def)
qed

theorem claim_check_end_to_end_witness:
  "\<exists>p' m c1. publishMessage claim_env ''id'' 5 7 (demo_message ''large'') demo_claim_producer = (PrOk (), p')
     \<and> ch_buf (mps_chans (pr_sink p') 0) = [m] \<and> cs_world c1 = [''large'']
     \<and> snd (snd (processMessage claim_env m (demo_claim_consumer (pr_objects p') demo_objects))) = c1"
proof -
  have op: "sink_op (demo_claim_producer\<lparr>pr_objects := x\<rparr>) (m_Topic (demo_message ''large'')) payload md =
      (\<lambda>k. case mps_Publish ''m1'' 9 ''ab'' payload md k of Inl e \<Rightarrow> (Panics e, k) | Inr (i, k') \<Rightarrow> (Returns i, k'))" for x payload md
    by (simp add: sink_op_def demo_claim_producer_def mps_sink_def demo_message_def)
  have "\<exists>x payload md. createClaimCheck claim_env ''id'' 5 (demo_message ''large'') demo_claim_producer
      = (Inr (payload, md), demo_claim_producer\<lparr>pr_objects := x\<rparr>)"
    by (simp add: createClaimCheck_def demo_claim_producer_def demo_behavior_def demo_objects_def claim_env_def demo_messages_def Let_def demo_claim_config_def)
  moreover have "shouldUseClaimCheck demo_claim_producer (m_Payload (demo_message ''large''))"
    by (simp add: shouldUseClaimCheck_def demo_claim_producer_def demo_behavior_def demo_claim_config_def demo_message_def)
  ultimately obtain p' where run: "publishMessage claim_env ''id'' 5 7 (demo_message ''large'') demo_claim_producer = (PrOk (), p')"
    using mps_publish_loop [OF demo_pubsub_chan(1), of 2 "''m1''" 9 "''ab''"]
    by (auto simp: publishMessage_def Let_def op, auto simp: demo_claim_producer_def demo_behavior_def)
  have claim: "demo_claim = claim_of claim_env ''id'' 5 demo_claim_config (pr_name demo_claim_producer) (demo_message ''large'')"
    by (simp add: demo_claim_def claim_of_def claim_data_def compressPayload_def claim_env_def demo_messages_def demo_claim_producer_def demo_claim_config_def)
  show ?thesis
    using claim_check_end_to_end [of demo_claim_producer "''m1''" 9 0 "demo_message ''large''" claim_env "''id''" 5 7 p' demo_claim_config demo_claim
        demo_objects "demo_claim_consumer (pr_objects p') demo_objects" "\<lambda>m w. (None, w @ [psm_Payload m])", OF _ _ _ _ _ run _ _ _ claim _ _ _ _ _ _ _ refl]
      demo_pubsub_chan run
    by (auto simp: demo_claim_producer_def demo_behavior_def demo_message_def claim_env_def demo_messages_def demo_objects_def
        demo_claim_consumer_def mk_msg_def split: prod.splits)
qed

end
